(* ===== verification/Go_Float.thy ===== *)
theory Go_Float
  imports Complex_Main Prelude
begin

text \<open>
  Go's \<open>float64\<close> arithmetic as used by the backoff computation and the server score:
  every operation is the exact real operation followed by \<open>f64\<close>, rounding to the
  nearest number with a 53-bit significand, ties to even.  Overflow to infinity and
  subnormal numbers are left out: the magnitudes the program computes with (scores
  in 0..1, nanosecond counts below \<open>2 ^ 63\<close>) never reach them.
\<close>

section \<open>Rounding\<close>

definition round_even :: "real \<Rightarrow> int" where
  "round_even y =
     (let r = \<lfloor>y + 1 / 2\<rfloor> in if real_of_int r = y + 1 / 2 \<and> odd r then r - 1 else r)"

definition f64_exp :: "real \<Rightarrow> int" where
  "f64_exp x = \<lfloor>log 2 x\<rfloor> - 52"

definition f64_pos :: "real \<Rightarrow> real" where
  "f64_pos x = real_of_int (round_even (x / 2 powi f64_exp x)) * 2 powi f64_exp x"

definition f64 :: "real \<Rightarrow> real" where
  "f64 x = (if x = 0 then 0 else sgn x * f64_pos \<bar>x\<bar>)"

text \<open>Conversion of a float to an integer truncates; out of range it yields the
  minimal value, as the x86-64 conversion does (Go leaves it to the implementation).\<close>

definition trunc_real :: "real \<Rightarrow> int" where
  "trunc_real x = (if 0 \<le> x then \<lfloor>x\<rfloor> else \<lceil>x\<rceil>)"

definition int64_of_float :: "real \<Rightarrow> int" where
  "int64_of_float x = (if in_int64 (trunc_real x) then trunc_real x else - (2 ^ 63))"

section \<open>Rounding to an integer\<close>

lemma round_even_error: "\<bar>real_of_int (round_even y) - y\<bar> \<le> 1 / 2"
proof -
  have "real_of_int \<lfloor>y + 1 / 2\<rfloor> \<le> y + 1 / 2" and "y + 1 / 2 < real_of_int \<lfloor>y + 1 / 2\<rfloor> + 1"
    by linarith+
  then have lo: "\<bar>real_of_int \<lfloor>y + 1 / 2\<rfloor> - y\<bar> \<le> 1 / 2" by linarith
  show ?thesis
  proof (cases "real_of_int \<lfloor>y + 1 / 2\<rfloor> = y + 1 / 2 \<and> odd \<lfloor>y + 1 / 2\<rfloor>")
    case True
    then have "round_even y = \<lfloor>y + 1 / 2\<rfloor> - 1"
      unfolding round_even_def Let_def by (rule if_P)
    then have "real_of_int (round_even y) = real_of_int \<lfloor>y + 1 / 2\<rfloor> - 1" by simp
    moreover from True have "real_of_int \<lfloor>y + 1 / 2\<rfloor> = y + 1 / 2" by (rule conjunct1)
    ultimately show ?thesis by linarith
  next
    case False
    then have "round_even y = \<lfloor>y + 1 / 2\<rfloor>"
      unfolding round_even_def Let_def by (rule if_not_P)
    with lo show ?thesis by simp
  qed
qed

lemma round_even_of_int [simp]: "round_even (real_of_int n) = n"
proof -
  have "\<lfloor>real_of_int n + 1 / 2\<rfloor> = n" by (simp add: floor_eq_iff)
  then show ?thesis by (simp add: round_even_def)
qed

lemma round_even_mono:
  assumes "x \<le> y"
  shows "round_even x \<le> round_even y"
proof (cases "\<lfloor>x + 1 / 2\<rfloor> = \<lfloor>y + 1 / 2\<rfloor>")
  case True
  have "real_of_int \<lfloor>x + 1 / 2\<rfloor> \<le> x + 1 / 2" by simp
  with True assms show ?thesis
    by (auto simp: round_even_def Let_def)
next
  case False
  with assms have "\<lfloor>x + 1 / 2\<rfloor> < \<lfloor>y + 1 / 2\<rfloor>"
    using floor_mono [of "x + 1 / 2" "y + 1 / 2"] by linarith
  then show ?thesis by (auto simp: round_even_def Let_def)
qed

section \<open>Rounding to 53 bits\<close>

lemma binade:
  assumes "0 < x"
  shows "2 powi \<lfloor>log 2 x\<rfloor> \<le> x" and "x < 2 powi (\<lfloor>log 2 x\<rfloor> + 1)"
proof -
  have pw: "2 powi k = 2 powr real_of_int k" for k :: int
    by (simp add: powr_real_of_int')
  have "2 powr real_of_int \<lfloor>log 2 x\<rfloor> \<le> 2 powr log 2 x"
    by (rule powr_mono) simp_all
  with assms show "2 powi \<lfloor>log 2 x\<rfloor> \<le> x" by (simp add: pw)
  have "2 powr log 2 x < 2 powr real_of_int (\<lfloor>log 2 x\<rfloor> + 1)"
    by (rule powr_less_mono) linarith+
  with assms show "x < 2 powi (\<lfloor>log 2 x\<rfloor> + 1)" by (simp only: pw) simp
qed

lemma powi_scale: "(2::real) powi (e + int n) = 2 ^ n * 2 powi e"
  by (simp add: power_int_add)

lemma powi_gt0 [simp]: "0 < (2::real) powi e"
  by simp

lemma scaled_binade:
  assumes "0 < x"
  shows "2 ^ 52 \<le> x / 2 powi f64_exp x" and "x / 2 powi f64_exp x < 2 ^ 53"
proof -
  let ?e = "f64_exp x"
  have k: "\<lfloor>log 2 x\<rfloor> = ?e + int 52" "\<lfloor>log 2 x\<rfloor> + 1 = ?e + int 53"
    by (simp_all add: f64_exp_def)
  have "2 ^ 52 * 2 powi ?e \<le> x"
    using binade(1) [OF assms] unfolding k(1) powi_scale .
  then show "2 ^ 52 \<le> x / 2 powi ?e" by (simp add: pos_le_divide_eq)
  have "x < 2 ^ 53 * 2 powi ?e"
    using binade(2) [OF assms] unfolding k(2) powi_scale .
  then show "x / 2 powi ?e < 2 ^ 53" by (simp add: pos_divide_less_eq)
qed

lemma f64_pos_error:
  assumes "0 < x"
  shows "\<bar>f64_pos x - x\<bar> \<le> x / 2 ^ 53"
proof -
  let ?s = "2 powi f64_exp x :: real"
  have "\<bar>f64_pos x - x\<bar> = \<bar>real_of_int (round_even (x / ?s)) - x / ?s\<bar> * ?s"
  proof -
    have "f64_pos x - x = (real_of_int (round_even (x / ?s)) - x / ?s) * ?s"
      by (simp add: f64_pos_def left_diff_distrib)
    then show ?thesis by (simp add: abs_mult)
  qed
  also have "\<dots> \<le> 1 / 2 * ?s"
    by (rule mult_right_mono [OF round_even_error]) simp
  also have "\<dots> \<le> x / 2 ^ 53"
    using scaled_binade(1) [OF assms] by (simp add: pos_le_divide_eq field_simps)
  finally show ?thesis .
qed

lemma f64_pos_binade:
  assumes "0 < x"
  shows "2 powi \<lfloor>log 2 x\<rfloor> \<le> f64_pos x" and "f64_pos x \<le> 2 powi (\<lfloor>log 2 x\<rfloor> + 1)"
proof -
  let ?e = "f64_exp x" and ?m = "round_even (x / 2 powi f64_exp x)"
  have k: "\<lfloor>log 2 x\<rfloor> = ?e + int 52" "\<lfloor>log 2 x\<rfloor> + 1 = ?e + int 53"
    by (simp_all add: f64_exp_def)
  have "round_even (real_of_int (2 ^ 52)) \<le> ?m"
    by (rule round_even_mono) (use scaled_binade(1) [OF assms] in simp)
  then have "real_of_int (2 ^ 52) \<le> real_of_int ?m" by (simp only: round_even_of_int of_int_le_iff)
  then have "2 ^ 52 * 2 powi ?e \<le> f64_pos x"
    by (simp add: f64_pos_def)
  then show "2 powi \<lfloor>log 2 x\<rfloor> \<le> f64_pos x" unfolding k(1) powi_scale .
  have "?m \<le> round_even (real_of_int (2 ^ 53))"
    by (rule round_even_mono) (use scaled_binade(2) [OF assms] in simp)
  then have "real_of_int ?m \<le> real_of_int (2 ^ 53)" by (simp only: round_even_of_int of_int_le_iff)
  then have "f64_pos x \<le> 2 ^ 53 * 2 powi ?e"
    by (simp add: f64_pos_def)
  then show "f64_pos x \<le> 2 powi (\<lfloor>log 2 x\<rfloor> + 1)" unfolding k(2) powi_scale .
qed

lemma f64_pos_gt0: "0 < x \<Longrightarrow> 0 < f64_pos x"
  by (rule less_le_trans [OF powi_gt0 f64_pos_binade(1)])

lemma f64_pos_mono:
  assumes "0 < x" and "x \<le> y"
  shows "f64_pos x \<le> f64_pos y"
proof (cases "\<lfloor>log 2 x\<rfloor> = \<lfloor>log 2 y\<rfloor>")
  case True
  then have e: "f64_exp x = f64_exp y" by (simp add: f64_exp_def)
  have "round_even (x / 2 powi f64_exp y) \<le> round_even (y / 2 powi f64_exp y)"
    by (rule round_even_mono) (use assms in \<open>simp add: divide_right_mono\<close>)
  then show ?thesis by (simp add: f64_pos_def e)
next
  case False
  have "log 2 x \<le> log 2 y" using assms by simp
  then have "\<lfloor>log 2 x\<rfloor> \<le> \<lfloor>log 2 y\<rfloor>" by (rule floor_mono)
  with False have "\<lfloor>log 2 x\<rfloor> + 1 \<le> \<lfloor>log 2 y\<rfloor>" by simp
  then have "(2::real) powi (\<lfloor>log 2 x\<rfloor> + 1) \<le> 2 powi \<lfloor>log 2 y\<rfloor>"
    by (rule power_int_increasing) simp_all
  moreover have "f64_pos x \<le> 2 powi (\<lfloor>log 2 x\<rfloor> + 1)"
    using assms by (intro f64_pos_binade)
  moreover have "2 powi \<lfloor>log 2 y\<rfloor> \<le> f64_pos y"
    using assms by (intro f64_pos_binade) simp
  ultimately show ?thesis by linarith
qed

lemma f64_0 [simp]: "f64 0 = 0"
  by (simp add: f64_def)

lemma f64_pos_eq: "0 < x \<Longrightarrow> f64 x = f64_pos x"
  by (simp add: f64_def)

lemma f64_neg_eq: "x < 0 \<Longrightarrow> f64 x = - f64_pos (- x)"
  by (simp add: f64_def)

lemma f64_minus [simp]: "f64 (- x) = - f64 x"
  by (simp add: f64_def sgn_minus)

lemma f64_nonneg [simp]: "0 \<le> x \<Longrightarrow> 0 \<le> f64 x"
  using f64_pos_gt0 [of x] by (cases "x = 0") (simp_all add: f64_pos_eq)

lemma f64_nonpos: "x \<le> 0 \<Longrightarrow> f64 x \<le> 0"
  using f64_nonneg [of "- x"] by simp

lemma f64_mono: "x \<le> y \<Longrightarrow> f64 x \<le> f64 y"
proof -
  assume le: "x \<le> y"
  consider "0 < x" | "x \<le> 0" "0 \<le> y" | "y < 0" by linarith
  then show ?thesis
  proof cases
    case 1
    with le show ?thesis by (simp add: f64_pos_eq f64_pos_mono)
  next
    case 2
    from f64_nonpos [OF 2(1)] f64_nonneg [OF 2(2)] show ?thesis by (rule order_trans)
  next
    case 3
    with le have "f64_pos (- y) \<le> f64_pos (- x)" by (simp add: f64_pos_mono)
    with 3 le show ?thesis by (simp add: f64_neg_eq)
  qed
qed

lemma f64_error: "\<bar>f64 x - x\<bar> \<le> \<bar>x\<bar> / 2 ^ 53"
proof -
  consider "x = 0" | "0 < x" | "x < 0" by linarith
  then show ?thesis
  proof cases
    case 2
    then show ?thesis using f64_pos_error [of x] by (simp add: f64_pos_eq)
  next
    case 3
    then show ?thesis using f64_pos_error [of "- x"] by (simp add: f64_neg_eq)
  qed simp
qed

text \<open>A number with at most 53 significant bits is represented exactly.\<close>

lemma f64_dyadic:
  assumes "\<bar>m\<bar> < 2 ^ 53"
  shows "f64 (real_of_int m * 2 powi j) = real_of_int m * 2 powi j"
proof -
  have pos: "f64_pos (real_of_int n * 2 powi j) = real_of_int n * 2 powi j"
    if n: "0 < n" "n < 2 ^ 53" for n :: int
  proof -
    let ?x = "real_of_int n * 2 powi j"
    define e where "e = f64_exp ?x"
    have x: "0 < ?x" using n by simp
    have k: "\<lfloor>log 2 ?x\<rfloor> = e + int 52" by (simp add: e_def f64_exp_def)
    have "2 ^ 52 * 2 powi e \<le> ?x"
      using binade(1) [OF x] unfolding k powi_scale .
    also have "?x < 2 ^ 53 * 2 powi j" using n by simp
    finally have "(2::real) powi (e + int 52) < 2 powi (j + int 53)"
      by (simp only: powi_scale)
    then have "e + int 52 < j + int 53"
      using power_int_increasing [of "j + int 53" "e + int 52" "2::real"] by linarith
    then obtain d where d: "j = e + int d"
      using zle_iff_zadd [of e j] by auto
    have "?x / 2 powi e = real_of_int (n * 2 ^ d)"
      unfolding d by (simp add: powi_scale)
    then have "f64_pos ?x = real_of_int (n * 2 ^ d) * 2 powi e"
      unfolding f64_pos_def e_def [symmetric] by (simp only: round_even_of_int)
    also have "\<dots> = ?x" unfolding d by (simp add: powi_scale)
    finally show ?thesis .
  qed
  consider "m = 0" | "0 < m" | "m < 0" by linarith
  then show ?thesis
  proof cases
    case 2
    then show ?thesis using pos [of m] assms by (simp add: f64_pos_eq)
  next
    case 3
    then show ?thesis using pos [of "- m"] assms by (simp add: f64_neg_eq mult_neg_pos)
  qed simp
qed

lemma f64_of_int: "\<bar>m\<bar> < 2 ^ 53 \<Longrightarrow> f64 (real_of_int m) = real_of_int m"
  using f64_dyadic [of m 0] by simp

lemma f64_1 [simp]: "f64 1 = 1"
  using f64_of_int [of 1] by simp

lemma f64_half [simp]: "f64 (1 / 2) = 1 / 2"
  using f64_dyadic [of 1 "-1"] by (simp add: power_int_minus)

section \<open>What the clients of float arithmetic rely on\<close>

text \<open>
  The backoff and score proofs use only three laws of rounding: it is monotone, it
  keeps 0 and 1, and its relative error is small.  They are proved once over the
  locale and hold for \<open>f64\<close> by interpretation.
\<close>

locale rounding =
  fixes fl :: "real \<Rightarrow> real"
  assumes fl_mono: "x \<le> y \<Longrightarrow> fl x \<le> fl y"
    and fl_0: "fl 0 = 0"
    and fl_1: "fl 1 = 1"
    and fl_err: "\<bar>fl x - x\<bar> \<le> \<bar>x\<bar> / 2 ^ 53"
begin

lemma fl_ge0: "0 \<le> x \<Longrightarrow> 0 \<le> fl x"
  using fl_mono [of 0 x] by (simp add: fl_0)

lemma fl_le0: "x \<le> 0 \<Longrightarrow> fl x \<le> 0"
  using fl_mono [of x 0] by (simp add: fl_0)

lemma fl_le1: "x \<le> 1 \<Longrightarrow> fl x \<le> 1"
  using fl_mono [of x 1] by (simp add: fl_1)

lemma fl_unit: "0 \<le> x \<Longrightarrow> x \<le> 1 \<Longrightarrow> 0 \<le> fl x \<and> fl x \<le> 1"
  by (simp add: fl_ge0 fl_le1)

lemma fl_err_sides: "fl x \<le> x + \<bar>x\<bar> / 2 ^ 53" "x - \<bar>x\<bar> / 2 ^ 53 \<le> fl x"
  using fl_err [of x] by linarith+

lemma fl_lower: "0 \<le> x \<Longrightarrow> x * (1 - 1 / 2 ^ 53) \<le> fl x"
  using fl_err_sides [of x] by (simp add: algebra_simps)

lemma fl_upper: "0 \<le> x \<Longrightarrow> fl x \<le> x * (1 + 1 / 2 ^ 53)"
  using fl_err_sides [of x] by (simp add: algebra_simps)

lemma fl_lower_neg: "x \<le> 0 \<Longrightarrow> x * (1 + 1 / 2 ^ 53) \<le> fl x"
  using fl_err_sides [of x] by (simp add: algebra_simps)

end

interpretation dbl: rounding f64
  by unfold_locales (fact f64_mono f64_0 f64_1 f64_error)+

section \<open>Truncation\<close>

lemma trunc_real_of_int [simp]: "trunc_real (real_of_int n) = n"
  by (simp add: trunc_real_def)

lemma trunc_real_1 [simp]: "trunc_real 1 = 1"
  using trunc_real_of_int [of 1] by simp

lemma trunc_real_mono: "x \<le> y \<Longrightarrow> trunc_real x \<le> trunc_real y"
proof -
  assume le: "x \<le> y"
  have "\<lceil>x\<rceil> \<le> \<lfloor>y\<rfloor>" if "x < 0" "0 \<le> y"
  proof -
    have "\<lceil>x\<rceil> \<le> 0" using that by (simp add: ceiling_le_iff)
    also have "0 \<le> \<lfloor>y\<rfloor>" using that by simp
    finally show ?thesis .
  qed
  with le show ?thesis by (auto simp: trunc_real_def intro: floor_mono ceiling_mono)
qed

lemma int64_of_float_in_range: "in_int64 (int64_of_float x)"
  by (simp add: int64_of_float_def in_int64_def)

end
