(* ===== verification/Go_Strings.thy ===== *)
theory Go_Strings
  imports Prelude
begin

text \<open>
  What the program uses of Go's \<open>strings\<close>, \<open>strconv\<close>, \<open>fmt\<close> and \<open>net\<close> text
  helpers.  A Go string is a sequence of octets; it is modelled as \<^typ>\<open>string\<close>,
  whose characters are the octets.  White space is the ASCII set (Go also trims
  the Unicode spaces U+0085 and U+00A0 and above, which this model keeps).
\<close>

section \<open>Octets as characters\<close>

definition char_of_byte :: "byte \<Rightarrow> char" where
  "char_of_byte b = char_of (unat b)"

definition byte_of_char :: "char \<Rightarrow> byte" where
  "byte_of_char c = word_of_nat (of_char c)"

definition string_of_bytes :: "bytes \<Rightarrow> string" where
  "string_of_bytes = map char_of_byte"

definition bytes_of_string :: "string \<Rightarrow> bytes" where
  "bytes_of_string = map byte_of_char"

lemma of_char_less: "(of_char c :: nat) < 256"
  by simp

lemma char_of_byte_of_char [simp]: "char_of_byte (byte_of_char c) = c"
proof -
  have "unat (word_of_nat (of_char c) :: byte) = of_char c"
    by (simp add: unsigned_of_nat take_bit_eq_mod)
  then show ?thesis by (simp add: char_of_byte_def byte_of_char_def)
qed

lemma byte_of_char_of_byte [simp]: "byte_of_char (char_of_byte b) = b"
proof -
  have "unat b < 256" using unsigned_less [of b] by simp
  then show ?thesis by (simp add: char_of_byte_def byte_of_char_def)
qed

lemma string_of_bytes_of_string [simp]: "string_of_bytes (bytes_of_string s) = s"
  by (simp add: string_of_bytes_def bytes_of_string_def comp_def)

lemma bytes_of_string_of_bytes [simp]: "bytes_of_string (string_of_bytes bs) = bs"
  by (simp add: string_of_bytes_def bytes_of_string_def comp_def)

lemma length_bytes_of_string [simp]: "length (bytes_of_string s) = length s"
  by (simp add: bytes_of_string_def)

lemma length_string_of_bytes [simp]: "length (string_of_bytes bs) = length bs"
  by (simp add: string_of_bytes_def)

section \<open>strings\<close>

definition is_space :: "char \<Rightarrow> bool" where
  "is_space c \<longleftrightarrow> c \<in> {CHR 0x09, CHR 0x0A, CHR 0x0B, CHR 0x0C, CHR 0x0D, CHR 0x20}"

definition trim_left :: "string \<Rightarrow> string" where
  "trim_left s = dropWhile is_space s"

definition TrimSpace :: "string \<Rightarrow> string" where
  "TrimSpace s = rev (dropWhile is_space (rev (trim_left s)))"

definition HasPrefix :: "string \<Rightarrow> string \<Rightarrow> bool" where
  "HasPrefix s p \<longleftrightarrow> take (length p) s = p"

definition TrimPrefix :: "string \<Rightarrow> string \<Rightarrow> string" where
  "TrimPrefix s p = (if HasPrefix s p then drop (length p) s else s)"

fun Split :: "char \<Rightarrow> string \<Rightarrow> string list" where
  "Split c [] = [[]]"
| "Split c (x # xs) =
     (if x = c then [] # Split c xs
      else (case Split c xs of [] \<Rightarrow> [[x]] | p # ps \<Rightarrow> (x # p) # ps))"

text \<open>\<open>strings.SplitN(s, sep, 2)\<close>: at most one cut, at the first separator.\<close>

definition SplitN2 :: "char \<Rightarrow> string \<Rightarrow> string list" where
  "SplitN2 c s =
     (if c \<in> set s then [takeWhile (\<lambda>x. x \<noteq> c) s, tl (dropWhile (\<lambda>x. x \<noteq> c) s)] else [s])"

fun fields_acc :: "string \<Rightarrow> string \<Rightarrow> string list" where
  "fields_acc acc [] = (if acc = [] then [] else [rev acc])"
| "fields_acc acc (x # xs) =
     (if is_space x then (if acc = [] then fields_acc [] xs else rev acc # fields_acc [] xs)
      else fields_acc (x # acc) xs)"

definition Fields :: "string \<Rightarrow> string list" where
  "Fields s = fields_acc [] s"

fun Contains :: "string \<Rightarrow> string \<Rightarrow> bool" where
  "Contains [] p \<longleftrightarrow> p = []"
| "Contains (x # xs) p \<longleftrightarrow> HasPrefix (x # xs) p \<or> Contains xs p"

definition to_lower_char :: "char \<Rightarrow> char" where
  "to_lower_char c =
     (let n = (of_char c :: nat) in if 65 \<le> n \<and> n \<le> 90 then char_of (n + 32) else c)"

definition ToLower :: "string \<Rightarrow> string" where
  "ToLower = map to_lower_char"

subsection \<open>Facts\<close>

lemma trim_left_no_space: "trim_left s = [] \<or> \<not> is_space (hd (trim_left s))"
  using hd_dropWhile [of is_space s] by (auto simp: trim_left_def)

lemma dropWhile_idem: "dropWhile P (dropWhile P xs) = dropWhile P xs"
  by (induction xs) auto

lemma trim_left_fix: "(s = [] \<or> \<not> is_space (hd s)) \<Longrightarrow> trim_left s = s"
  by (cases s) (auto simp: trim_left_def)

lemma TrimSpace_fix:
  assumes "s = [] \<or> \<not> is_space (hd s)" and "s = [] \<or> \<not> is_space (last s)"
  shows "TrimSpace s = s"
proof -
  have "dropWhile is_space (rev s) = rev s"
    using assms(2) by (cases "rev s") (auto simp: last_rev hd_rev simp flip: hd_rev)
  with trim_left_fix [OF assms(1)] show ?thesis by (simp add: TrimSpace_def)
qed

lemma rev_dropWhile_rev_hd:
  "rev (dropWhile P (rev xs)) \<noteq> [] \<Longrightarrow> hd (rev (dropWhile P (rev xs))) = hd xs"
proof -
  assume ne: "rev (dropWhile P (rev xs)) \<noteq> []"
  have "xs = rev (dropWhile P (rev xs)) @ rev (takeWhile P (rev xs))"
    by (metis rev_append rev_rev_ident takeWhile_dropWhile_id)
  with ne show ?thesis by (metis hd_append2)
qed

lemma TrimSpace_hd: "TrimSpace s = [] \<or> \<not> is_space (hd (TrimSpace s))"
proof (cases "TrimSpace s = []")
  case False
  then have "hd (TrimSpace s) = hd (trim_left s)" and "trim_left s \<noteq> []"
    using rev_dropWhile_rev_hd [of is_space "trim_left s"]
    by (auto simp: TrimSpace_def)
  then show ?thesis using trim_left_no_space [of s] by simp
qed simp

lemma TrimSpace_last: "TrimSpace s = [] \<or> \<not> is_space (last (TrimSpace s))"
  using hd_dropWhile [of is_space "rev (trim_left s)"]
  by (auto simp: TrimSpace_def last_rev)

lemma TrimSpace_idem [simp]: "TrimSpace (TrimSpace s) = TrimSpace s"
  by (rule TrimSpace_fix [OF TrimSpace_hd TrimSpace_last])

lemma HasPrefix_append [simp]: "HasPrefix (p @ s) p"
  by (simp add: HasPrefix_def)

lemma HasPrefix_iff: "HasPrefix s p \<longleftrightarrow> (\<exists>t. s = p @ t)"
  unfolding HasPrefix_def by (metis append_take_drop_id append_eq_conv_conj)

lemma TrimPrefix_append [simp]: "TrimPrefix (p @ s) p = s"
  by (simp add: TrimPrefix_def)

lemma Split_neq_Nil [simp]: "Split c s \<noteq> []"
  by (induction s) (auto split: list.splits)

lemma Split_no_sep: "p \<in> set (Split c s) \<Longrightarrow> c \<notin> set p"
  by (induction s arbitrary: p) (auto split: if_splits list.splits)

section \<open>strconv and fmt\<close>

definition digit_char :: "nat \<Rightarrow> char" where
  "digit_char d = char_of (48 + d)"

definition is_digit :: "char \<Rightarrow> bool" where
  "is_digit c \<longleftrightarrow> 48 \<le> (of_char c :: nat) \<and> (of_char c :: nat) \<le> 57"

definition digit_val :: "char \<Rightarrow> nat" where
  "digit_val c = of_char c - 48"

fun itoa_nat :: "nat \<Rightarrow> string" where
  "itoa_nat n = (if n < 10 then [digit_char n] else itoa_nat (n div 10) @ [digit_char (n mod 10)])"

declare itoa_nat.simps [simp del]

text \<open>\<open>strconv.Itoa\<close>, and \<open>fmt\<close>'s \<open>%d\<close>.\<close>

definition itoa :: "int \<Rightarrow> string" where
  "itoa i = (if i < 0 then CHR ''-'' # itoa_nat (nat (- i)) else itoa_nat (nat i))"

definition digits_value :: "string \<Rightarrow> nat" where
  "digits_value s = foldl (\<lambda>acc c. acc * 10 + digit_val c) 0 s"

text \<open>
  \<open>fmt.Sscanf(s, "%d", &x)\<close> into an \<open>int\<close> or \<open>int64\<close>: leading blanks other than a
  newline are skipped, a sign and a run of digits are read, what follows is left
  unread, and a value outside the 64-bit range is an error.  \<open>None\<close> means the
  destination keeps its old value.
\<close>

definition sscanf_d :: "string \<Rightarrow> int option" where
  "sscanf_d s0 =
     (let s = dropWhile (\<lambda>c. is_space c \<and> c \<noteq> CHR 0x0A) s0;
          (neg, t) = (case s of c # cs \<Rightarrow> if c = CHR ''-'' then (True, cs)
                                         else if c = CHR ''+'' then (False, cs) else (False, s)
                      | [] \<Rightarrow> (False, s));
          ds = takeWhile is_digit t;
          v = (if neg then - int (digits_value ds) else int (digits_value ds))
      in if ds = [] \<or> \<not> in_int64 v then None else Some v)"

lemma digit_char_props:
  assumes "d < 10"
  shows "is_digit (digit_char d)" and "digit_val (digit_char d) = d"
    and "\<not> is_space (digit_char d)" and "digit_char d \<notin> {CHR ''-'', CHR ''+'', CHR '':'', CHR ''['', CHR '']''}"
proof -
  have v: "(of_char (digit_char d) :: nat) = 48 + d"
    using assms by (simp add: digit_char_def)
  then show "is_digit (digit_char d)" and "digit_val (digit_char d) = d"
    using assms by (simp_all add: is_digit_def digit_val_def)
  have ne: "digit_char d \<noteq> c" if "(of_char c :: nat) < 48 \<or> 57 < (of_char c :: nat)" for c
    using v that assms by auto
  show "\<not> is_space (digit_char d)"
    and "digit_char d \<notin> {CHR ''-'', CHR ''+'', CHR '':'', CHR ''['', CHR '']''}"
    by (auto simp: is_space_def dest: ne [THEN notE, rotated])
qed

lemma itoa_nat_digits: "c \<in> set (itoa_nat n) \<Longrightarrow> \<exists>d < 10. c = digit_char d"
proof (induction n rule: itoa_nat.induct)
  case (1 n)
  show ?case
  proof (cases "n < 10")
    case True
    with "1.prems" show ?thesis by (auto simp: itoa_nat.simps [of n])
  next
    case False
    with "1.prems" consider "c \<in> set (itoa_nat (n div 10))" | "c = digit_char (n mod 10)"
      by (auto simp: itoa_nat.simps [of n])
    then show ?thesis
    proof cases
      case 1
      with "1.IH" False show ?thesis by simp
    next
      case 2
      then show ?thesis by (intro exI [of _ "n mod 10"]) simp
    qed
  qed
qed

lemma itoa_nat_not_Nil [simp]: "itoa_nat n \<noteq> []"
  by (subst itoa_nat.simps) simp

lemma digits_value_itoa_nat [simp]: "digits_value (itoa_nat n) = n"
proof (induction n rule: itoa_nat.induct)
  case (1 n)
  show ?case
  proof (cases "n < 10")
    case True
    then show ?thesis
      by (simp add: itoa_nat.simps [of n] digits_value_def digit_char_props)
  next
    case False
    with 1 have "digits_value (itoa_nat (n div 10)) = n div 10" by simp
    with False show ?thesis
      by (simp add: itoa_nat.simps [of n] digits_value_def digit_char_props)
  qed
qed

lemma itoa_nat_clean:
  "c \<in> set (itoa_nat n) \<Longrightarrow> is_digit c \<and> \<not> is_space c
     \<and> c \<notin> {CHR ''-'', CHR ''+'', CHR '':'', CHR ''['', CHR '']''}"
proof -
  assume "c \<in> set (itoa_nat n)"
  then obtain d where "d < 10" "c = digit_char d" using itoa_nat_digits by blast
  with digit_char_props [OF this(1)] show ?thesis by simp
qed

text \<open>Printing a non-negative number and scanning it back.\<close>

lemma sscanf_d_itoa_nat:
  assumes "n < 2 ^ 63"
  shows "sscanf_d (itoa_nat n) = Some (int n)"
proof -
  obtain c cs where s: "itoa_nat n = c # cs" by (cases "itoa_nat n") auto
  then have c: "\<not> is_space c" "c \<noteq> CHR ''-''" "c \<noteq> CHR ''+''"
    using itoa_nat_clean [of c n] by auto
  have "takeWhile is_digit (c # cs) = c # cs"
    using itoa_nat_clean [of _ n] unfolding s by (simp add: takeWhile_eq_all_conv)
  moreover have "in_int64 (int n)" using assms by (simp add: in_int64_def)
  moreover have "digits_value (c # cs) = n" using digits_value_itoa_nat [of n] unfolding s .
  moreover have "dropWhile (\<lambda>c. is_space c \<and> c \<noteq> CHR 0x0A) (c # cs) = c # cs"
    using c by simp
  ultimately show ?thesis
    unfolding sscanf_d_def s Let_def by (simp only: list.case prod.case if_False c) simp
qed

section \<open>net: host and port\<close>

definition JoinHostPort :: "string \<Rightarrow> string \<Rightarrow> string" where
  "JoinHostPort host port =
     (if CHR '':'' \<in> set host then [CHR ''[''] @ host @ [CHR '']'', CHR '':''] @ port
      else host @ [CHR '':''] @ port)"

definition after_last :: "char \<Rightarrow> string \<Rightarrow> string" where
  "after_last c s = rev (takeWhile (\<lambda>x. x \<noteq> c) (rev s))"

definition before_last :: "char \<Rightarrow> string \<Rightarrow> string" where
  "before_last c s = rev (tl (dropWhile (\<lambda>x. x \<noteq> c) (rev s)))"

text \<open>
  \<open>net.SplitHostPort\<close>: the port is what follows the last colon; a bracketed host
  ends at the first closing bracket, which that colon must follow; no other
  bracket and no other colon is accepted.
\<close>

definition SplitHostPort :: "string \<Rightarrow> (string \<times> string) option" where
  "SplitHostPort s =
     (if CHR '':'' \<notin> set s then None
      else let port = after_last CHR '':'' s; pre = before_last CHR '':'' s in
        (case s of
           [] \<Rightarrow> None
         | x # xs \<Rightarrow>
             if x = CHR ''['' then
               (let host = takeWhile (\<lambda>c. c \<noteq> CHR '']'') xs in
                if CHR '']'' \<notin> set xs \<or> pre \<noteq> [CHR ''[''] @ host @ [CHR '']'']
                   \<or> CHR ''['' \<in> set host \<or> CHR ''['' \<in> set port \<or> CHR '']'' \<in> set port
                then None else Some (host, port))
             else if CHR '':'' \<in> set pre \<or> CHR ''['' \<in> set s \<or> CHR '']'' \<in> set s then None
             else Some (pre, port)))"

lemma last_split:
  assumes "c \<notin> set t"
  shows "after_last c (s @ c # t) = t" and "before_last c (s @ c # t) = s"
  using assms
  by (simp_all add: after_last_def before_last_def takeWhile_append dropWhile_append)

lemma SplitHostPort_JoinHostPort:
  assumes h: "CHR ''['' \<notin> set host" "CHR '']'' \<notin> set host"
    and p: "CHR '':'' \<notin> set port" "CHR ''['' \<notin> set port" "CHR '']'' \<notin> set port"
  shows "SplitHostPort (JoinHostPort host port) = Some (host, port)"
proof (cases "CHR '':'' \<in> set host")
  case True
  let ?s = "CHR ''['' # host @ CHR '']'' # CHR '':'' # port"
  have j: "JoinHostPort host port = ?s" using True by (simp add: JoinHostPort_def)
  have "after_last CHR '':'' ?s = port" and "before_last CHR '':'' ?s = CHR ''['' # host @ [CHR '']'']"
    using last_split [OF p(1), of "CHR ''['' # host @ [CHR '']'']"] by simp_all
  moreover have "takeWhile (\<lambda>c. c \<noteq> CHR '']'') (host @ CHR '']'' # CHR '':'' # port) = host"
    using h by (simp add: takeWhile_append)
  ultimately show ?thesis
    using h p by (simp add: SplitHostPort_def j)
next
  case False
  let ?s = "host @ CHR '':'' # port"
  have j: "JoinHostPort host port = ?s" using False by (simp add: JoinHostPort_def)
  have a: "after_last CHR '':'' ?s = port" and b: "before_last CHR '':'' ?s = host"
    using last_split [OF p(1), of host] by simp_all
  have "SplitHostPort ?s = Some (host, port)"
  proof (cases host)
    case Nil
    with a b h p False show ?thesis by (simp add: SplitHostPort_def)
  next
    case (Cons x xs)
    with h have "x \<noteq> CHR ''[''" by auto
    with Cons a b h p False show ?thesis by (simp add: SplitHostPort_def)
  qed
  then show ?thesis by (simp add: j)
qed

end
