(* ===== verification/Reconnector.thy ===== *)
theory Reconnector
  imports Go_Float Go_Strings
begin

text \<open>
  \<open>pkg/client/reconnector.go\<close>: the retry loop with exponential backoff.  The
  configuration, the mutable fields of \<open>Reconnector\<close> and its two channels are
  records; \<open>Start\<close> runs against an environment that supplies, round by round, how the
  wait ended, what the two callbacks returned and what the final poll saw.  The loop
  is fuelled: \<open>None\<close> is "has not returned after this many rounds".  \<open>math.Sin\<close> is a
  parameter \<open>msin\<close>; the theorems that need it assume only \<open>\<bar>msin x\<bar> \<le> 1\<close>.
\<close>

section \<open>Configuration\<close>

abbreviation (input) DefaultMinBackoff :: duration where "DefaultMinBackoff \<equiv> 5 * second"
abbreviation (input) DefaultMaxBackoff :: duration where "DefaultMaxBackoff \<equiv> 5 * minute"
abbreviation (input) DefaultBackoffFactor :: real where "DefaultBackoffFactor \<equiv> 2"
abbreviation (input) DefaultMaxRetries :: int where "DefaultMaxRetries \<equiv> 0"

record ReconnectionConfig =
  rc_MaxRetries :: int
  rc_MinBackoffStr :: string
  rc_MinBackoff :: duration
  rc_MaxBackoffStr :: string
  rc_MaxBackoff :: duration
  rc_BackoffFactor :: real

definition ReconnectionConfig_SetDefaults :: "ReconnectionConfig \<Rightarrow> ReconnectionConfig" where
  "ReconnectionConfig_SetDefaults rc0 =
     (let rc1 = (if rc_MinBackoff rc0 \<le> 0 then rc0\<lparr>rc_MinBackoff := DefaultMinBackoff\<rparr> else rc0);
          rc2 = (if rc_MaxBackoff rc1 \<le> 0 then rc1\<lparr>rc_MaxBackoff := DefaultMaxBackoff\<rparr> else rc1);
          rc3 = (if rc_MaxBackoff rc2 < rc_MinBackoff rc2
                 then rc2\<lparr>rc_MaxBackoff := wrap64 (rc_MinBackoff rc2 * 2)\<rparr> else rc2);
          rc4 = (if rc_BackoffFactor rc3 \<le> 1 then rc3\<lparr>rc_BackoffFactor := DefaultBackoffFactor\<rparr> else rc3);
          rc5 = (if rc_MaxRetries rc4 < 0 then rc4\<lparr>rc_MaxRetries := 0\<rparr> else rc4)
      in rc5)"

section \<open>State\<close>

datatype chan = ChOpen | ChClosed

record Reconnector =
  r_cfg :: ReconnectionConfig
  r_attempts :: int
  r_isRunning :: bool
  r_lastBackoff :: duration
  r_hasRefresh :: bool
  r_stopCh :: chan
  r_stoppedCh :: chan

definition NewReconnector :: "ReconnectionConfig \<Rightarrow> bool \<Rightarrow> Reconnector" where
  "NewReconnector cfg hasRefresh =
     \<lparr> r_cfg = ReconnectionConfig_SetDefaults cfg, r_attempts = 0, r_isRunning = False,
       r_lastBackoff = 0, r_hasRefresh = hasRefresh, r_stopCh = ChOpen, r_stoppedCh = ChOpen \<rparr>"

definition resetLocked :: "Reconnector \<Rightarrow> Reconnector" where
  "resetLocked r = r\<lparr>r_attempts := 0, r_lastBackoff := 0\<rparr>"

section \<open>Backoff\<close>

definition scaled_backoff :: "Reconnector \<Rightarrow> duration" where
  "scaled_backoff r =
     (let next = int64_of_float (f64 (f64 (real_of_int (r_lastBackoff r)) * rc_BackoffFactor (r_cfg r)))
      in if next > rc_MaxBackoff (r_cfg r) then rc_MaxBackoff (r_cfg r) else next)"

definition jitter_of :: "(real \<Rightarrow> real) \<Rightarrow> int \<Rightarrow> duration \<Rightarrow> duration" where
  "jitter_of msin attempts base =
     int64_of_float (f64 (f64 (f64 (real_of_int base) * (1 / 4)) *
                          f64 (msin (f64 (real_of_int (wrap64 (attempts * 7)))) + 1 / 2)))"

definition nextBackoff :: "(real \<Rightarrow> real) \<Rightarrow> Reconnector \<Rightarrow> duration \<times> Reconnector" where
  "nextBackoff msin r0 =
     (let r1 = r0\<lparr>r_attempts := wrap64 (r_attempts r0 + 1)\<rparr>;
          r2 = (if r_lastBackoff r1 = 0 then r1\<lparr>r_lastBackoff := rc_MinBackoff (r_cfg r1)\<rparr>
                else r1\<lparr>r_lastBackoff := scaled_backoff r1\<rparr>);
          jitter = jitter_of msin (r_attempts r2) (r_lastBackoff r2);
          r3 = r2\<lparr>r_lastBackoff := wrap64 (r_lastBackoff r2 + jitter)\<rparr>;
          r4 = (if r_lastBackoff r3 > rc_MaxBackoff (r_cfg r3)
                then r3\<lparr>r_lastBackoff := rc_MaxBackoff (r_cfg r3)\<rparr> else r3)
      in (r_lastBackoff r4, r4))"

definition peekNextBackoff :: "Reconnector \<Rightarrow> duration" where
  "peekNextBackoff r =
     (if r_lastBackoff r = 0 then rc_MinBackoff (r_cfg r) else scaled_backoff r)"

section \<open>The loop\<close>

text \<open>What the three-way \<open>select\<close> of \<open>waitWithContext\<close> and the final poll can see.\<close>

datatype wait_outcome = WaitElapsed | WaitCtxDone | WaitStopped
datatype poll_outcome = PollNothing | PollCtxDone | PollStopped

record round =
  rd_wait :: wait_outcome
  rd_refresh_ok :: bool
  rd_reconnect_ok :: bool
  rd_poll :: poll_outcome

datatype start_error =
    AlreadyRunning
  | MaxRetriesExceeded int
  | ContextErr
  | ErrReconnectionStopped

datatype callback = CallRefresh | CallReconnect

definition waitWithContext :: "wait_outcome \<Rightarrow> start_error option" where
  "waitWithContext w =
     (case w of WaitCtxDone \<Rightarrow> Some ContextErr | WaitStopped \<Rightarrow> Some ErrReconnectionStopped
      | WaitElapsed \<Rightarrow> None)"

text \<open>One pass through the body of the \<open>for\<close> loop: either it returns (\<open>Inl\<close>, with
  \<open>None\<close> for the nil error) or it goes round again.\<close>

definition start_round ::
    "(real \<Rightarrow> real) \<Rightarrow> round \<Rightarrow> Reconnector \<Rightarrow> (start_error option + unit) \<times> Reconnector \<times> callback list" where
  "start_round msin e r =
     (let currentAttempt = r_attempts r; maxRetries = rc_MaxRetries (r_cfg r) in
      if maxRetries > 0 \<and> currentAttempt \<ge> maxRetries
      then (Inl (Some (MaxRetriesExceeded currentAttempt)), r, [])
      else
        (let r1 = snd (nextBackoff msin r) in
         (case waitWithContext (rd_wait e) of
            Some err \<Rightarrow> (Inl (Some err), r1, [])
          | None \<Rightarrow>
              (let calls = (if r_hasRefresh r1 then [CallRefresh] else []) @ [CallReconnect] in
               if rd_reconnect_ok e then (Inl None, resetLocked r1, calls)
               else
                 (let r2 = r1\<lparr>r_attempts := wrap64 (r_attempts r1 + 1)\<rparr> in
                  (case rd_poll e of
                     PollCtxDone \<Rightarrow> (Inl (Some ContextErr), r2, calls)
                   | PollStopped \<Rightarrow> (Inl (Some ErrReconnectionStopped), r2, calls)
                   | PollNothing \<Rightarrow> (Inr (), r2, calls)))))))"

fun start_loop ::
    "(real \<Rightarrow> real) \<Rightarrow> nat \<Rightarrow> (nat \<Rightarrow> round) \<Rightarrow> nat \<Rightarrow> Reconnector
       \<Rightarrow> (start_error option \<times> Reconnector \<times> callback list) option" where
  "start_loop msin 0 env k r = None"
| "start_loop msin (Suc fuel) env k r =
     (case start_round msin (env k) r of
        (Inl res, r', calls) \<Rightarrow> Some (res, r', calls)
      | (Inr _, r', calls) \<Rightarrow>
          map_option (\<lambda>(res, r'', calls'). (res, r'', calls @ calls'))
            (start_loop msin fuel env (Suc k) r'))"

text \<open>
  \<open>Start\<close>: the entry check, the reset of the counters and of \<open>stopCh\<close>, the loop, and
  the deferred function, whose \<open>close(r.stoppedCh)\<close> panics on a closed channel.
\<close>

datatype start_result = Returned "start_error option" | PanicCloseOfClosedChannel

definition Start ::
    "(real \<Rightarrow> real) \<Rightarrow> nat \<Rightarrow> (nat \<Rightarrow> round) \<Rightarrow> Reconnector
       \<Rightarrow> (start_result \<times> Reconnector \<times> callback list) option" where
  "Start msin fuel env r =
     (if r_isRunning r then Some (Returned (Some AlreadyRunning), r, [])
      else
        (case start_loop msin fuel env 0
                (r\<lparr>r_isRunning := True, r_attempts := 0, r_lastBackoff := 0, r_stopCh := ChOpen\<rparr>) of
           None \<Rightarrow> None
         | Some (res, r', calls) \<Rightarrow>
             (let r'' = r'\<lparr>r_isRunning := False\<rparr> in
              if r_stoppedCh r'' = ChClosed then Some (PanicCloseOfClosedChannel, r'', calls)
              else Some (Returned res, r''\<lparr>r_stoppedCh := ChClosed\<rparr>, calls))))"

text \<open>\<open>Stop\<close>: close \<open>stopCh\<close> if it is open, then receive from \<open>stoppedCh\<close>, which
  returns only once that channel is closed (\<open>None\<close>: the call blocks).\<close>

definition Stop_signal :: "Reconnector \<Rightarrow> Reconnector" where
  "Stop_signal r = (case r_stopCh r of ChClosed \<Rightarrow> r | ChOpen \<Rightarrow> r\<lparr>r_stopCh := ChClosed\<rparr>)"

definition Stop :: "Reconnector \<Rightarrow> Reconnector option" where
  "Stop r = (let r' = Stop_signal r in
             case r_stoppedCh r' of ChClosed \<Rightarrow> Some r' | ChOpen \<Rightarrow> None)"

definition IsRunning :: "Reconnector \<Rightarrow> bool" where "IsRunning r = r_isRunning r"
definition GetAttempts :: "Reconnector \<Rightarrow> int" where "GetAttempts r = r_attempts r"
definition Reset :: "Reconnector \<Rightarrow> Reconnector" where "Reset r = resetLocked r"

definition formatMaxRetries :: "int \<Rightarrow> string" where
  "formatMaxRetries m = (if m \<le> 0 then ''unlimited'' else itoa m)"

text \<open>The entries of the status map; durations are kept as values (the source renders
  them with \<open>Duration.String\<close>).\<close>

datatype status_value = SBool bool | SInt int | SStr string | SDuration duration | SFloat real

definition GetStatus :: "Reconnector \<Rightarrow> (string \<times> status_value) list" where
  "GetStatus r =
     (let remaining = (if rc_MaxRetries (r_cfg r) > 0
                       then itoa (wrap64 (rc_MaxRetries (r_cfg r) - r_attempts r)) else ''unlimited'')
      in [(''is_running'', SBool (r_isRunning r)),
          (''attempts'', SInt (r_attempts r)),
          (''max_retries'', SStr (formatMaxRetries (rc_MaxRetries (r_cfg r)))),
          (''remaining'', SStr remaining),
          (''last_backoff'', SDuration (r_lastBackoff r)),
          (''min_backoff'', SDuration (rc_MinBackoff (r_cfg r))),
          (''max_backoff'', SDuration (rc_MaxBackoff (r_cfg r))),
          (''backoff_factor'', SFloat (rc_BackoffFactor (r_cfg r)))])"

section \<open>Configuration defaults\<close>

definition ReconnectionConfig_wf :: "ReconnectionConfig \<Rightarrow> bool" where
  "ReconnectionConfig_wf rc \<longleftrightarrow>
     0 < rc_MinBackoff rc \<and> rc_MinBackoff rc \<le> rc_MaxBackoff rc
     \<and> 1 < rc_BackoffFactor rc \<and> 0 \<le> rc_MaxRetries rc"

lemma SetDefaults_fix: "ReconnectionConfig_wf rc \<Longrightarrow> ReconnectionConfig_SetDefaults rc = rc"
  by (simp add: ReconnectionConfig_SetDefaults_def ReconnectionConfig_wf_def Let_def)

lemma SetDefaults_strings [simp]:
  "rc_MinBackoffStr (ReconnectionConfig_SetDefaults rc) = rc_MinBackoffStr rc"
  "rc_MaxBackoffStr (ReconnectionConfig_SetDefaults rc) = rc_MaxBackoffStr rc"
  by (simp_all add: ReconnectionConfig_SetDefaults_def Let_def)

lemma SetDefaults_wf:
  assumes "rc_MinBackoff rc < 2 ^ 62"
  shows "ReconnectionConfig_wf (ReconnectionConfig_SetDefaults rc)"
proof -
  have w: "wrap64 (rc_MinBackoff rc * 2) = rc_MinBackoff rc * 2" if "0 < rc_MinBackoff rc"
    by (rule wrap64_id) (use that assms in \<open>simp add: in_int64_def\<close>)
  have w5: "wrap64 10000000000 = 10000000000"
    by (rule wrap64_id) (simp add: in_int64_def)
  show ?thesis
    by (simp add: ReconnectionConfig_SetDefaults_def ReconnectionConfig_wf_def Let_def w w5)
qed

section \<open>Backoff bounds\<close>

text \<open>The jitter is between a quarter down and the whole base up, whatever the rounding.\<close>

context rounding
begin

lemma fl_coarse: "0 \<le> x \<Longrightarrow> fl x \<le> 9 / 8 * x"
proof -
  assume x: "0 \<le> x"
  have "x * (1 + 1 / 2 ^ 53) \<le> x * (9 / 8)" by (rule mult_left_mono) (simp_all add: x)
  with fl_upper [OF x] show ?thesis by linarith
qed

lemma fl_coarse_neg: "x \<le> 0 \<Longrightarrow> 9 / 8 * x \<le> fl x"
proof -
  assume x: "x \<le> 0"
  have "x * (9 / 8) \<le> x * (1 + 1 / 2 ^ 53)" by (rule mult_left_mono_neg) (simp_all add: x)
  with fl_lower_neg [OF x] show ?thesis by linarith
qed

lemma quarter_bounds:
  assumes "0 \<le> L"
  shows "0 \<le> fl (fl L * (1 / 4))" and "fl (fl L * (1 / 4)) \<le> 81 / 256 * L"
proof -
  note L = fl_ge0 [OF assms] fl_coarse [OF assms]
  then have q: "0 \<le> fl L * (1 / 4)" by simp
  from fl_ge0 [OF q] show "0 \<le> fl (fl L * (1 / 4))" .
  from fl_coarse [OF q] L show "fl (fl L * (1 / 4)) \<le> 81 / 256 * L" by linarith
qed

lemma shifted_sine_bounds:
  assumes "\<bar>s\<bar> \<le> 1"
  shows "- (9 / 16) \<le> fl (s + 1 / 2)" and "fl (s + 1 / 2) \<le> 27 / 16"
proof -
  have "- (1 / 2) \<le> s + 1 / 2" and "s + 1 / 2 \<le> 3 / 2" using assms by linarith+
  from this [THEN fl_mono] show "- (9 / 16) \<le> fl (s + 1 / 2)" and "fl (s + 1 / 2) \<le> 27 / 16"
    using fl_coarse_neg [of "- (1 / 2)"] fl_coarse [of "3 / 2"] by linarith+
qed

lemma jitter_bounds:
  assumes L: "0 \<le> L" and s: "\<bar>s\<bar> \<le> 1"
  shows "- (L / 4) \<le> fl (fl (fl L * (1 / 4)) * fl (s + 1 / 2))"
    and "fl (fl (fl L * (1 / 4)) * fl (s + 1 / 2)) \<le> L"
proof -
  let ?b = "fl (fl L * (1 / 4))" and ?c = "fl (s + 1 / 2)"
  note b = quarter_bounds [OF L] and c = shifted_sine_bounds [OF s]
  have "81 / 256 * L * - (9 / 16) \<le> ?b * - (9 / 16)" using b by simp
  also have "\<dots> \<le> ?b * ?c" using b c by (intro mult_left_mono)
  finally have "fl (81 / 256 * L * - (9 / 16)) \<le> fl (?b * ?c)" by (rule fl_mono)
  moreover have "9 / 8 * (81 / 256 * L * - (9 / 16)) \<le> fl (81 / 256 * L * - (9 / 16))"
    using L by (intro fl_coarse_neg) simp
  ultimately show "- (L / 4) \<le> fl (?b * ?c)" using L by linarith
  have "?b * ?c \<le> ?b * (27 / 16)" using b c by (intro mult_left_mono)
  also have "\<dots> \<le> 81 / 256 * L * (27 / 16)" using b by simp
  finally have "fl (?b * ?c) \<le> fl (81 / 256 * L * (27 / 16))" by (rule fl_mono)
  moreover have "fl (81 / 256 * L * (27 / 16)) \<le> 9 / 8 * (81 / 256 * L * (27 / 16))"
    using L by (intro fl_coarse) simp
  ultimately show "fl (?b * ?c) \<le> L" using L by linarith
qed

end

text \<open>Configurations whose products stay inside the 64-bit range.\<close>

definition backoff_in_range :: "ReconnectionConfig \<Rightarrow> bool" where
  "backoff_in_range rc \<longleftrightarrow>
     ReconnectionConfig_wf rc \<and> real_of_int (rc_MaxBackoff rc) * rc_BackoffFactor rc \<le> 2 ^ 62"

lemma in_range_max:
  assumes "backoff_in_range rc"
  shows "rc_MaxBackoff rc < 2 ^ 62"
proof -
  have "real_of_int (rc_MaxBackoff rc) * 1 < real_of_int (rc_MaxBackoff rc) * rc_BackoffFactor rc"
    using assms by (intro mult_strict_left_mono) (auto simp: backoff_in_range_def ReconnectionConfig_wf_def)
  also have "\<dots> \<le> 2 ^ 62" using assms by (simp add: backoff_in_range_def)
  finally show ?thesis by simp
qed

lemma int64_of_float_between:
  assumes "a \<le> trunc_real x" and "trunc_real x \<le> b" and "in_int64 a" and "in_int64 b"
  shows "a \<le> int64_of_float x \<and> int64_of_float x \<le> b"
  using assms by (auto simp: int64_of_float_def in_int64_def)

lemma trunc_neg_quarter: "0 \<le> b \<Longrightarrow> trunc_real (- (real_of_int b / 4)) = - (b div 4)"
proof -
  assume "0 \<le> b"
  have "\<lfloor>real_of_int b / real_of_int 4\<rfloor> = b div 4" by (rule floor_divide_of_int_eq)
  with \<open>0 \<le> b\<close> show ?thesis by (auto simp: trunc_real_def ceiling_minus)
qed

lemma scaled_backoff_bounds:
  assumes cfg: "backoff_in_range (r_cfg r)"
    and last: "0 < r_lastBackoff r" "r_lastBackoff r \<le> rc_MaxBackoff (r_cfg r)"
  shows "1 \<le> scaled_backoff r" and "scaled_backoff r \<le> rc_MaxBackoff (r_cfg r)"
proof -
  let ?L = "real_of_int (r_lastBackoff r)" and ?f = "rc_BackoffFactor (r_cfg r)"
  have f: "1 < ?f" and M: "real_of_int (rc_MaxBackoff (r_cfg r)) * ?f \<le> 2 ^ 62"
    using cfg by (simp_all add: backoff_in_range_def ReconnectionConfig_wf_def)
  have one: "1 \<le> f64 ?L" using f64_mono [of 1 ?L] last by simp
  have up: "f64 ?L \<le> 9 / 8 * ?L" using last by (intro dbl.fl_coarse) simp
  have "1 * 1 \<le> f64 ?L * ?f" using one f by (intro mult_mono) simp_all
  then have lo: "1 \<le> f64 (f64 ?L * ?f)" using f64_mono [of 1 "f64 ?L * ?f"] by simp
  have "f64 ?L * ?f \<le> 9 / 8 * ?L * ?f" using up f by (intro mult_right_mono) simp_all
  also have "\<dots> \<le> 9 / 8 * (real_of_int (rc_MaxBackoff (r_cfg r)) * ?f)"
    using last f by simp
  finally have "f64 ?L * ?f \<le> 9 / 8 * 2 ^ 62" using M by linarith
  moreover have "f64 (f64 ?L * ?f) \<le> 9 / 8 * (f64 ?L * ?f)"
    using one f by (intro dbl.fl_coarse) simp
  ultimately have hi: "f64 (f64 ?L * ?f) \<le> real_of_int (2 ^ 63 - 1)" by simp
  have "1 \<le> int64_of_float (f64 (f64 ?L * ?f))"
    using int64_of_float_between [of 1 _ "2 ^ 63 - 1"] trunc_real_mono [OF lo]
      trunc_real_mono [OF hi]
    unfolding trunc_real_of_int trunc_real_1 by (simp add: in_int64_def)
  then show "1 \<le> scaled_backoff r" and "scaled_backoff r \<le> rc_MaxBackoff (r_cfg r)"
    using last by (simp_all add: scaled_backoff_def Let_def)
qed

lemma peekNextBackoff_bounds:
  assumes cfg: "backoff_in_range (r_cfg r)"
    and last: "0 \<le> r_lastBackoff r" "r_lastBackoff r \<le> rc_MaxBackoff (r_cfg r)"
  shows "0 < peekNextBackoff r" and "peekNextBackoff r \<le> rc_MaxBackoff (r_cfg r)"
  using scaled_backoff_bounds [OF cfg] last cfg
  by (auto simp: peekNextBackoff_def backoff_in_range_def ReconnectionConfig_wf_def)

lemma jitter_of_bounds:
  assumes b: "0 < b" "b < 2 ^ 62" and s: "\<And>x. \<bar>msin x\<bar> \<le> 1"
  shows "- (b div 4) \<le> jitter_of msin n b" and "jitter_of msin n b \<le> b"
proof -
  let ?L = "real_of_int b"
  let ?X = "f64 (f64 (f64 ?L * (1 / 4)) * f64 (msin (f64 (real_of_int (wrap64 (n * 7)))) + 1 / 2))"
  have X: "- (?L / 4) \<le> ?X" "?X \<le> ?L"
    using b by (intro dbl.jitter_bounds s; simp)+
  have "- (b div 4) \<le> int64_of_float ?X \<and> int64_of_float ?X \<le> b"
    using trunc_real_mono [OF X(1)] trunc_real_mono [OF X(2)] b
    by (intro int64_of_float_between) (simp_all add: in_int64_def trunc_neg_quarter)
  then show "- (b div 4) \<le> jitter_of msin n b" and "jitter_of msin n b \<le> b"
    by (simp_all add: jitter_of_def)
qed

lemma three_quarters: "- q \<le> j \<Longrightarrow> 4 * q \<le> b \<Longrightarrow> 3 * b \<le> 4 * (b + j)" for q j b :: int
  by simp

lemma nextBackoff_eq:
  "nextBackoff msin r =
     (let n = wrap64 (r_attempts r + 1); b = peekNextBackoff r;
          d = min (wrap64 (b + jitter_of msin n b)) (rc_MaxBackoff (r_cfg r))
      in (d, r\<lparr>r_attempts := n, r_lastBackoff := d\<rparr>))"
  by (simp add: nextBackoff_def peekNextBackoff_def scaled_backoff_def Let_def min_def)

lemma nextBackoff_simps [steps]:
  "r_attempts (snd (nextBackoff msin r)) = wrap64 (r_attempts r + 1)"
  "r_cfg (snd (nextBackoff msin r)) = r_cfg r"
  "r_isRunning (snd (nextBackoff msin r)) = r_isRunning r"
  "r_hasRefresh (snd (nextBackoff msin r)) = r_hasRefresh r"
  "r_stopCh (snd (nextBackoff msin r)) = r_stopCh r"
  "r_stoppedCh (snd (nextBackoff msin r)) = r_stoppedCh r"
  "r_lastBackoff (snd (nextBackoff msin r)) = fst (nextBackoff msin r)"
  by (simp_all add: nextBackoff_eq Let_def)



section \<open>The retry loop\<close>

definition round_fails :: "round \<Rightarrow> bool" where
  "round_fails e \<longleftrightarrow> rd_wait e = WaitElapsed \<and> \<not> rd_reconnect_ok e \<and> rd_poll e = PollNothing"

definition round_succeeds :: "round \<Rightarrow> bool" where
  "round_succeeds e \<longleftrightarrow> rd_wait e = WaitElapsed \<and> rd_reconnect_ok e"

definition callbacks :: "Reconnector \<Rightarrow> callback list" where
  "callbacks r = (if r_hasRefresh r then [CallRefresh] else []) @ [CallReconnect]"

definition exhausted :: "Reconnector \<Rightarrow> bool" where
  "exhausted r \<longleftrightarrow> 0 < rc_MaxRetries (r_cfg r) \<and> rc_MaxRetries (r_cfg r) \<le> r_attempts r"

definition failed_round :: "(real \<Rightarrow> real) \<Rightarrow> Reconnector \<Rightarrow> Reconnector" where
  "failed_round msin r =
     (let r1 = snd (nextBackoff msin r) in r1\<lparr>r_attempts := wrap64 (r_attempts r1 + 1)\<rparr>)"

text \<open>The fields the loop leaves alone.\<close>

definition same_frame :: "Reconnector \<Rightarrow> Reconnector \<Rightarrow> bool" where
  "same_frame r r' \<longleftrightarrow> r_cfg r' = r_cfg r \<and> r_hasRefresh r' = r_hasRefresh r
     \<and> r_isRunning r' = r_isRunning r \<and> r_stopCh r' = r_stopCh r \<and> r_stoppedCh r' = r_stoppedCh r"

lemma same_frame_trans: "same_frame a b \<Longrightarrow> same_frame b c \<Longrightarrow> same_frame a c"
  by (simp add: same_frame_def)

lemma same_frame_refl [simp]: "same_frame a a"
  by (simp add: same_frame_def)

lemma same_frame_callbacks: "same_frame a b \<Longrightarrow> callbacks b = callbacks a"
  by (simp add: same_frame_def callbacks_def)

lemma failed_round_frame [simp]: "same_frame r (failed_round msin r)"
  by (simp add: failed_round_def same_frame_def Let_def steps)

lemma failed_round_attempts:
  "0 \<le> r_attempts r \<Longrightarrow> r_attempts r < 2 ^ 62 \<Longrightarrow> r_attempts (failed_round msin r) = r_attempts r + 2"
  by (simp add: failed_round_def Let_def steps in_int64_def)

lemma start_round_exhausted:
  "exhausted r \<Longrightarrow> start_round msin e r = (Inl (Some (MaxRetriesExceeded (r_attempts r))), r, [])"
  by (simp add: start_round_def exhausted_def)

lemma start_round_fail:
  "\<not> exhausted r \<Longrightarrow> round_fails e \<Longrightarrow> start_round msin e r = (Inr (), failed_round msin r, callbacks r)"
  by (auto simp: start_round_def exhausted_def round_fails_def waitWithContext_def failed_round_def
      callbacks_def Let_def steps)

lemma start_round_success:
  "\<not> exhausted r \<Longrightarrow> round_succeeds e
     \<Longrightarrow> start_round msin e r = (Inl None, resetLocked (snd (nextBackoff msin r)), callbacks r)"
  by (auto simp: start_round_def exhausted_def round_succeeds_def waitWithContext_def
      callbacks_def Let_def steps)

lemma start_round_again:
  assumes "start_round msin e r = (Inr u, r', calls)"
  shows "\<not> exhausted r \<and> r' = failed_round msin r \<and> calls = callbacks r"
proof -
  have "\<not> exhausted r" using assms by (auto simp: start_round_exhausted)
  moreover from this assms have "round_fails e"
    by (auto simp: start_round_def exhausted_def round_fails_def waitWithContext_def Let_def
        split: if_splits option.splits wait_outcome.splits poll_outcome.splits)
  ultimately show ?thesis using assms by (simp add: start_round_fail)
qed

lemma start_round_frame:
  "start_round msin e r = (res, r', calls) \<Longrightarrow> same_frame r r'"
  by (auto simp: start_round_def same_frame_def resetLocked_def Let_def steps
      split: if_splits option.splits poll_outcome.splits)

lemma start_loop_frame:
  "start_loop msin fuel env k r = Some (res, r', calls) \<Longrightarrow> same_frame r r'"
proof (induction fuel arbitrary: k r res r' calls)
  case (Suc fuel)
  obtain o1 r1 c1 where s: "start_round msin (env k) r = (o1, r1, c1)"
    by (cases "start_round msin (env k) r")
  then have f: "same_frame r r1" by (rule start_round_frame)
  show ?case
  proof (cases o1)
    case Inl
    with Suc.prems s f show ?thesis by simp
  next
    case (Inr u)
    with Suc.prems s obtain c where "start_loop msin fuel env (Suc k) r1 = Some (res, r', c)"
      by auto
    with Suc.IH f show ?thesis by (blast intro: same_frame_trans)
  qed
qed simp

text \<open>With every round failing, the loop gives up after \<open>n\<close> more rounds, where \<open>n\<close> is the
  number of steps of two it takes the counter to reach the maximum.\<close>

lemma start_loop_exhausts:
  assumes "rc_MaxRetries (r_cfg r) = m" and "0 < m" and "m < 2 ^ 62" and "0 \<le> r_attempts r"
    and "m \<le> r_attempts r + 2 * int n" and "r_attempts r + 2 * int n \<le> m + 1"
    and "\<And>k. round_fails (env k)" and "n < fuel"
  shows "\<exists>r'. start_loop msin fuel env k r =
     Some (Some (MaxRetriesExceeded (r_attempts r + 2 * int n)), r', concat (replicate n (callbacks r)))"
  using assms
proof (induction n arbitrary: r k fuel)
  case 0
  then obtain f where "fuel = Suc f" by (cases fuel) auto
  moreover have "exhausted r" using 0 by (simp add: exhausted_def)
  ultimately show ?case by (simp add: start_round_exhausted)
next
  case (Suc n)
  then obtain f where f: "fuel = Suc f" "n < f" by (cases fuel) auto
  let ?r = "failed_round msin r"
  have ne: "\<not> exhausted r" using Suc.prems by (simp add: exhausted_def)
  have a: "r_attempts ?r = r_attempts r + 2"
    using Suc.prems by (intro failed_round_attempts) simp_all
  have frame: "same_frame r ?r" by simp
  have "\<exists>r'. start_loop msin f env (Suc k) ?r =
     Some (Some (MaxRetriesExceeded (r_attempts ?r + 2 * int n)), r', concat (replicate n (callbacks ?r)))"
    by (rule Suc.IH) (use Suc.prems a f frame in \<open>simp_all add: same_frame_def\<close>)
  with ne Suc.prems(7) f a same_frame_callbacks [OF frame] show ?case
    by (simp add: start_round_fail algebra_simps)
qed

lemma count_callbacks: "count_list (concat (replicate n (callbacks r))) CallReconnect = n"
  by (induction n) (simp_all add: callbacks_def)

text \<open>C12: when every attempt fails, a reconnector with a positive \<open>MaxRetries = m\<close> gives up
  with "max retries exceeded" after calling the reconnect callback only \<open>(m + 1) div 2\<close>
  times, because both \<open>nextBackoff\<close> and the failure branch increment the counter; the
  error reports \<open>m\<close> rounded up to an even number of attempts.\<close>

theorem Start_gives_up_halfway:
  assumes idle: "\<not> r_isRunning r" and open_ch: "r_stoppedCh r = ChOpen"
    and m: "rc_MaxRetries (r_cfg r) = m" "0 < m" "m < 2 ^ 62"
    and fails: "\<And>k. round_fails (env k)"
  shows "\<exists>r' calls. Start msin (Suc (nat m)) env r
       = Some (Returned (Some (MaxRetriesExceeded (m + m mod 2))), r', calls)
     \<and> count_list calls CallReconnect = nat ((m + 1) div 2)"
proof -
  let ?r = "r\<lparr>r_isRunning := True, r_attempts := 0, r_lastBackoff := 0, r_stopCh := ChOpen\<rparr>"
  let ?n = "nat ((m + 1) div 2)"
  have n: "0 + 2 * int ?n = m + m mod 2" "?n < Suc (nat m)" using m by simp_all presburger+
  have p: "0 \<le> m mod 2" "m mod 2 \<le> 1" by simp_all
  then have q: "m \<le> 2 * int ?n" "2 * int ?n \<le> m + 1" using n(1) by linarith+
  have "\<exists>r'. start_loop msin (Suc (nat m)) env 0 ?r =
     Some (Some (MaxRetriesExceeded (r_attempts ?r + 2 * int ?n)), r', concat (replicate ?n (callbacks ?r)))"
    by (rule start_loop_exhausts) (use m n(2) q fails in simp_all)
  then obtain r' where l: "start_loop msin (Suc (nat m)) env 0 ?r =
     Some (Some (MaxRetriesExceeded (m + m mod 2)), r', concat (replicate ?n (callbacks ?r)))"
    using n by auto
  have "r_stoppedCh r' = ChOpen"
    using start_loop_frame [OF l] open_ch by (simp add: same_frame_def)
  with idle l show ?thesis
    by (simp add: Start_def count_callbacks del: start_loop.simps)
qed

definition cfg3 :: ReconnectionConfig where
  "cfg3 = \<lparr>rc_MaxRetries = 3, rc_MinBackoffStr = [], rc_MinBackoff = second,
      rc_MaxBackoffStr = [], rc_MaxBackoff = minute, rc_BackoffFactor = 2\<rparr>"

definition failing_round :: round where
  "failing_round = \<lparr>rd_wait = WaitElapsed, rd_refresh_ok = True, rd_reconnect_ok = False, rd_poll = PollNothing\<rparr>"

lemma NewReconnector_cfg3:
  "r_cfg (NewReconnector cfg3 h) = cfg3" "\<not> r_isRunning (NewReconnector cfg3 h)"
  "r_stoppedCh (NewReconnector cfg3 h) = ChOpen" "rc_MaxRetries cfg3 = 3"
proof -
  have "ReconnectionConfig_wf cfg3" by (simp add: ReconnectionConfig_wf_def cfg3_def)
  then show "r_cfg (NewReconnector cfg3 h) = cfg3" by (simp add: NewReconnector_def SetDefaults_fix)
qed (simp_all add: NewReconnector_def cfg3_def)

theorem Start_gives_up_halfway_witness:
  "\<exists>r' calls. Start sin 4 (\<lambda>_. failing_round) (NewReconnector cfg3 True)
       = Some (Returned (Some (MaxRetriesExceeded 4)), r', calls) \<and> count_list calls CallReconnect = 2"
  using Start_gives_up_halfway [of "NewReconnector cfg3 True" 3 "\<lambda>_. failing_round" sin]
  by (simp add: NewReconnector_cfg3 round_fails_def failing_round_def eval_nat_numeral del: start_loop.simps)

text \<open>Whatever the environment does, a bounded reconnector comes back.\<close>

lemma start_loop_returns:
  assumes "0 < rc_MaxRetries (r_cfg r)" and "rc_MaxRetries (r_cfg r) < 2 ^ 62"
    and "0 \<le> r_attempts r" and "nat (rc_MaxRetries (r_cfg r) - r_attempts r) < fuel"
  shows "\<exists>x. start_loop msin fuel env k r = Some x"
  using assms
proof (induction fuel arbitrary: k r)
  case (Suc fuel)
  obtain o1 r1 c1 where s: "start_round msin (env k) r = (o1, r1, c1)"
    by (cases "start_round msin (env k) r")
  show ?case
  proof (cases o1)
    case Inl
    with s show ?thesis by simp
  next
    case (Inr u)
    with s have ne: "\<not> exhausted r" and r1: "r1 = failed_round msin r"
      using start_round_again by auto
    then have lt: "r_attempts r < rc_MaxRetries (r_cfg r)"
      using Suc.prems by (simp add: exhausted_def)
    then have "r_attempts r1 = r_attempts r + 2"
      unfolding r1 using Suc.prems by (intro failed_round_attempts) simp_all
    moreover have "r_cfg r1 = r_cfg r"
      using failed_round_frame [of r msin] by (simp add: r1 same_frame_def)
    ultimately have "\<exists>x. start_loop msin fuel env (Suc k) r1 = Some x"
      using Suc.prems lt by (intro Suc.IH) simp_all
    with s Inr show ?thesis by auto
  qed
qed simp

lemma Start_returns_within:
  assumes "0 < rc_MaxRetries (r_cfg r)" and "rc_MaxRetries (r_cfg r) < 2 ^ 62"
  shows "\<exists>res r' calls. Start msin (Suc (nat (rc_MaxRetries (r_cfg r)))) env r = Some (res, r', calls)"
proof -
  have "\<exists>x. start_loop msin (Suc (nat (rc_MaxRetries (r_cfg r)))) env 0
      (r\<lparr>r_isRunning := True, r_attempts := 0, r_lastBackoff := 0, r_stopCh := ChOpen\<rparr>) = Some x"
    by (rule start_loop_returns) (use assms in simp_all)
  then show ?thesis by (auto simp: Start_def Let_def simp del: start_loop.simps)
qed

lemma Start_frame:
  assumes "Start msin fuel env r = Some (out, r', calls)" and "\<not> r_isRunning r" and "r_stoppedCh r = ChOpen"
  shows "r_cfg r' = r_cfg r \<and> \<not> r_isRunning r' \<and> (\<exists>res. out = Returned res)"
proof -
  from assms(1,2) obtain res1 r1 where
    l: "start_loop msin fuel env 0
        (r\<lparr>r_isRunning := True, r_attempts := 0, r_lastBackoff := 0, r_stopCh := ChOpen\<rparr>) = Some (res1, r1, calls)"
    by (auto simp: Start_def Let_def split: option.splits if_splits)
  with start_loop_frame [OF l] assms show ?thesis
    by (auto simp: Start_def Let_def same_frame_def)
qed

text \<open>C25: a reconnector whose \<open>MaxRetries\<close> is positive always returns from \<open>Start\<close>: within
  \<open>MaxRetries + 1\<close> rounds, whatever the callbacks, the context and \<open>Stop\<close> do.\<close>

theorem Start_terminates:
  assumes "0 < rc_MaxRetries (r_cfg r)" and "rc_MaxRetries (r_cfg r) < 2 ^ 62"
  shows "\<exists>res r' calls. Start msin (Suc (nat (rc_MaxRetries (r_cfg r)))) env r = Some (res, r', calls)"
  using assms by (rule Start_returns_within)

theorem Start_terminates_witness:
  "\<exists>res r' calls. Start sin 4 (\<lambda>_. failing_round) (NewReconnector cfg3 False) = Some (res, r', calls)"
  using Start_terminates [of "NewReconnector cfg3 False" sin "\<lambda>_. failing_round"]
  by (simp add: NewReconnector_cfg3 eval_nat_numeral del: start_loop.simps)

lemma start_loop_diverges:
  assumes "rc_MaxRetries (r_cfg r) \<le> 0" and "\<And>k. round_fails (env k)"
  shows "start_loop msin fuel env k r = None"
  using assms(1)
proof (induction fuel arbitrary: k r)
  case (Suc fuel)
  then have "\<not> exhausted r" by (simp add: exhausted_def)
  moreover have "r_cfg (failed_round msin r) = r_cfg r"
    using failed_round_frame [of r msin] by (simp add: same_frame_def)
  ultimately show ?case
    using Suc assms(2) by (simp add: start_round_fail)
qed simp

text \<open>An attempt that succeeds before the limit ends the loop with the counters reset.\<close>

lemma start_loop_recovers:
  assumes "\<And>i. i < n \<Longrightarrow> round_fails (env (k + i))" and "round_succeeds (env (k + n))"
    and "0 \<le> r_attempts r" and "r_attempts r + 2 * int n < 2 ^ 62"
    and "rc_MaxRetries (r_cfg r) \<le> 0 \<or> r_attempts r + 2 * int n < rc_MaxRetries (r_cfg r)"
    and "n < fuel"
  shows "\<exists>r'. start_loop msin fuel env k r = Some (None, r', concat (replicate (Suc n) (callbacks r)))
     \<and> r_attempts r' = 0 \<and> r_lastBackoff r' = 0"
  using assms
proof (induction n arbitrary: r k fuel)
  case 0
  then obtain f where "fuel = Suc f" by (cases fuel) auto
  moreover have "\<not> exhausted r" using 0 by (auto simp: exhausted_def)
  ultimately show ?case using 0 by (simp add: start_round_success resetLocked_def)
next
  case (Suc n)
  then obtain f where f: "fuel = Suc f" "n < f" by (cases fuel) auto
  let ?r = "failed_round msin r"
  have ne: "\<not> exhausted r" using Suc.prems by (auto simp: exhausted_def)
  have a: "r_attempts ?r = r_attempts r + 2"
    using Suc.prems by (intro failed_round_attempts) simp_all
  have frame: "same_frame r ?r" by simp
  have "round_fails (env k)" using Suc.prems(1) [of 0] by simp
  moreover have "\<exists>r'. start_loop msin f env (Suc k) ?r = Some (None, r', concat (replicate (Suc n) (callbacks ?r)))
     \<and> r_attempts r' = 0 \<and> r_lastBackoff r' = 0"
    by (rule Suc.IH) (use Suc.prems(1) [of "Suc _"] Suc.prems(2-) a f frame in \<open>auto simp: same_frame_def\<close>)
  ultimately show ?case
    using ne f same_frame_callbacks [OF frame] by (auto simp: start_round_fail)
qed

text \<open>Without a retry limit and with every attempt failing, \<open>Start\<close> never returns.\<close>

theorem Start_unlimited_diverges:
  assumes "\<not> r_isRunning r" and "rc_MaxRetries (r_cfg r) \<le> 0" and "\<And>k. round_fails (env k)"
  shows "Start msin fuel env r = None"
  using start_loop_diverges [of "r\<lparr>r_isRunning := True, r_attempts := 0, r_lastBackoff := 0, r_stopCh := ChOpen\<rparr>"
      env msin fuel 0] assms
  by (simp add: Start_def)

theorem Start_unlimited_diverges_witness:
  "Start sin 1000 (\<lambda>_. failing_round) (NewReconnector (cfg3\<lparr>rc_MaxRetries := 0\<rparr>) True) = None"
proof -
  have "ReconnectionConfig_wf (cfg3\<lparr>rc_MaxRetries := 0\<rparr>)"
    by (simp add: ReconnectionConfig_wf_def cfg3_def)
  then show ?thesis
    by (intro Start_unlimited_diverges)
       (simp_all add: NewReconnector_def SetDefaults_fix round_fails_def failing_round_def)
qed

text \<open>if the first \<open>n\<close> attempts fail and the next succeeds before the limit is reached
  (\<open>2 n < MaxRetries\<close>, or no limit), \<open>Start\<close> returns nil with the attempt counter and the
  backoff reset, having called the callbacks once per attempt, refresh before reconnect.\<close>

theorem Start_recovers:
  assumes idle: "\<not> r_isRunning r" and open_ch: "r_stoppedCh r = ChOpen"
    and fails: "\<And>i. i < n \<Longrightarrow> round_fails (env i)" and ok: "round_succeeds (env n)"
    and bound: "2 * int n < 2 ^ 62"
    and limit: "rc_MaxRetries (r_cfg r) \<le> 0 \<or> 2 * int n < rc_MaxRetries (r_cfg r)"
  shows "\<exists>r'. Start msin (Suc n) env r
       = Some (Returned None, r', concat (replicate (Suc n) (callbacks r)))
     \<and> r_attempts r' = 0 \<and> r_lastBackoff r' = 0 \<and> \<not> r_isRunning r'"
proof -
  let ?r = "r\<lparr>r_isRunning := True, r_attempts := 0, r_lastBackoff := 0, r_stopCh := ChOpen\<rparr>"
  have "\<exists>r'. start_loop msin (Suc n) env 0 ?r = Some (None, r', concat (replicate (Suc n) (callbacks ?r)))
     \<and> r_attempts r' = 0 \<and> r_lastBackoff r' = 0"
    by (rule start_loop_recovers) (use fails ok bound limit in simp_all)
  moreover have "callbacks ?r = callbacks r" by (simp add: callbacks_def)
  ultimately obtain r' where l: "start_loop msin (Suc n) env 0 ?r =
       Some (None, r', concat (replicate (Suc n) (callbacks r)))" "r_attempts r' = 0" "r_lastBackoff r' = 0"
    by auto
  have "r_stoppedCh r' = ChOpen"
    using start_loop_frame [OF l(1)] open_ch by (simp add: same_frame_def)
  with idle l show ?thesis by (simp add: Start_def del: start_loop.simps replicate.simps)
qed

theorem Start_recovers_witness:
  "\<exists>r'. Start sin 2 (\<lambda>i. if i = 0 then failing_round else failing_round\<lparr>rd_reconnect_ok := True\<rparr>)
        (NewReconnector cfg3 True)
       = Some (Returned None, r', [CallRefresh, CallReconnect, CallRefresh, CallReconnect])
     \<and> r_attempts r' = 0"
proof -
  have c: "callbacks (NewReconnector cfg3 True) = [CallRefresh, CallReconnect]"
    by (simp add: callbacks_def NewReconnector_def)
  show ?thesis
    using Start_recovers [of "NewReconnector cfg3 True" 1
        "\<lambda>i. if i = 0 then failing_round else failing_round\<lparr>rd_reconnect_ok := True\<rparr>" sin]
    by (auto simp: NewReconnector_cfg3 round_fails_def round_succeeds_def failing_round_def c
        eval_nat_numeral simp del: start_loop.simps)
qed

text \<open>A reconnector is good for one \<open>Start\<close>: \<open>stoppedCh\<close> is made once, in
  \<open>NewReconnector\<close>, and closed by every \<open>Start\<close> that ran the loop, so if a second one ends,
  it ends in the panic "close of closed channel".\<close>

theorem second_Start_panics:
  assumes first: "Start msin fuel env r = Some (Returned res, r1, calls)" and idle: "\<not> r_isRunning r"
    and second: "Start msin' fuel' env' r1 = Some (out, r2, calls')"
  shows "out = PanicCloseOfClosedChannel"
proof -
  from first idle have r1: "\<not> r_isRunning r1" "r_stoppedCh r1 = ChClosed"
    by (auto simp: Start_def Let_def split: option.splits if_splits)
  with second obtain r' res' where
    l: "start_loop msin' fuel' env' 0
        (r1\<lparr>r_isRunning := True, r_attempts := 0, r_lastBackoff := 0, r_stopCh := ChOpen\<rparr>) = Some (res', r', calls')"
    by (auto simp: Start_def Let_def split: option.splits if_splits)
  with start_loop_frame [OF l] r1 second show ?thesis
    by (simp add: Start_def same_frame_def)
qed

theorem second_Start_panics_witness:
  "\<exists>res r1 c1 out r2 c2. Start sin 4 (\<lambda>_. failing_round) (NewReconnector cfg3 True) = Some (Returned res, r1, c1)
     \<and> Start sin 4 (\<lambda>_. failing_round) r1 = Some (out, r2, c2) \<and> out = PanicCloseOfClosedChannel"
proof -
  let ?r = "NewReconnector cfg3 True" and ?e = "\<lambda>_. failing_round"
  have four: "Suc (nat 3) = 4" by simp
  obtain out1 r1 c1 where f: "Start sin 4 ?e ?r = Some (out1, r1, c1)"
    using Start_returns_within [of ?r sin ?e] by (auto simp: NewReconnector_cfg3 four)
  note fr = Start_frame [OF f NewReconnector_cfg3(2,3)]
  then obtain res where res: "out1 = Returned res" by blast
  have "r_cfg r1 = cfg3" using fr by (simp add: NewReconnector_cfg3)
  then obtain out2 r2 c2 where g: "Start sin 4 ?e r1 = Some (out2, r2, c2)"
    using Start_returns_within [of r1 sin ?e] by (auto simp: NewReconnector_cfg3 four)
  from second_Start_panics [OF f [unfolded res] NewReconnector_cfg3(2) g] f g res show ?thesis
    by blast
qed

text \<open>\<open>Stop\<close> on a reconnector that was never started waits for \<open>stoppedCh\<close> for ever, and
  the request it leaves behind is lost: \<open>Start\<close> replaces the closed \<open>stopCh\<close> and behaves as
  if \<open>Stop\<close> had not been called.\<close>

theorem Stop_before_Start_is_lost:
  "Stop (NewReconnector cfg h) = None
     \<and> Start msin fuel env (Stop_signal (NewReconnector cfg h)) = Start msin fuel env (NewReconnector cfg h)"
  by (simp add: Stop_def Stop_signal_def NewReconnector_def Start_def)

text \<open>\<open>SetDefaults\<close> turns every configuration whose minimal backoff is below \<open>2 ^ 62\<close>
  nanoseconds into one with positive, ordered backoffs, a factor above 1 and a
  non-negative limit, keeps those that already are, and never looks at the
  \<open>min_backoff\<close> and \<open>max_backoff\<close> strings of the configuration file.\<close>

theorem SetDefaults_normalises:
  assumes "rc_MinBackoff rc < 2 ^ 62"
  shows "ReconnectionConfig_wf (ReconnectionConfig_SetDefaults rc)
     \<and> ReconnectionConfig_SetDefaults (ReconnectionConfig_SetDefaults rc) = ReconnectionConfig_SetDefaults rc
     \<and> (ReconnectionConfig_wf rc = (ReconnectionConfig_SetDefaults rc = rc))
     \<and> ReconnectionConfig_SetDefaults (rc\<lparr>rc_MinBackoffStr := a, rc_MaxBackoffStr := b\<rparr>)
       = (ReconnectionConfig_SetDefaults rc)\<lparr>rc_MinBackoffStr := a, rc_MaxBackoffStr := b\<rparr>"
proof (intro conjI)
  show wf: "ReconnectionConfig_wf (ReconnectionConfig_SetDefaults rc)"
    using assms by (rule SetDefaults_wf)
  then show "ReconnectionConfig_SetDefaults (ReconnectionConfig_SetDefaults rc) = ReconnectionConfig_SetDefaults rc"
    by (rule SetDefaults_fix)
  show "ReconnectionConfig_wf rc = (ReconnectionConfig_SetDefaults rc = rc)"
    using wf SetDefaults_fix by metis
  show "ReconnectionConfig_SetDefaults (rc\<lparr>rc_MinBackoffStr := a, rc_MaxBackoffStr := b\<rparr>)
       = (ReconnectionConfig_SetDefaults rc)\<lparr>rc_MinBackoffStr := a, rc_MaxBackoffStr := b\<rparr>"
    by (simp add: ReconnectionConfig_SetDefaults_def Let_def)
qed

theorem SetDefaults_normalises_witness:
  "ReconnectionConfig_wf (ReconnectionConfig_SetDefaults
      \<lparr>rc_MaxRetries = - 1, rc_MinBackoffStr = ''10s'', rc_MinBackoff = 0, rc_MaxBackoffStr = [],
       rc_MaxBackoff = 0, rc_BackoffFactor = 0\<rparr>)"
  by (rule conjunct1 [OF SetDefaults_normalises]) simp

end
