(* ===== verification/Go_Net.thy ===== *)
theory Go_Net
  imports Go_Strings
begin

unbundle bit_operations_syntax

text \<open>
  What the program uses of Go's \<open>net\<close> package on addresses: \<open>IP\<close> values as octet
  lists of length 4 or 16, their text form, \<open>ParseIP\<close>, \<open>ParseCIDR\<close> and
  \<open>IPNet.Contains\<close>.
\<close>

type_synonym net_IP = bytes

definition v4InV6Prefix :: bytes where
  "v4InV6Prefix = replicate 10 0 @ [255, 255]"

definition To4 :: "net_IP \<Rightarrow> net_IP option" where
  "To4 ip =
     (if length ip = 4 then Some ip
      else if length ip = 16 \<and> take 12 ip = v4InV6Prefix then Some (drop 12 ip) else None)"

definition To16 :: "net_IP \<Rightarrow> net_IP option" where
  "To16 ip =
     (if length ip = 4 then Some (v4InV6Prefix @ ip) else if length ip = 16 then Some ip else None)"

section \<open>Text form\<close>

fun intersperse_concat :: "string \<Rightarrow> string list \<Rightarrow> string" where
  "intersperse_concat sep [] = []"
| "intersperse_concat sep [x] = x"
| "intersperse_concat sep (x # y # xs) = x @ sep @ intersperse_concat sep (y # xs)"

definition dotted :: "bytes \<Rightarrow> string" where
  "dotted bs = intersperse_concat ''.'' (map (\<lambda>b. itoa_nat (unat b)) bs)"

definition hex_char :: "nat \<Rightarrow> char" where
  "hex_char d = (if d < 10 then char_of (48 + d) else char_of (87 + d))"

fun hex_nat :: "nat \<Rightarrow> string" where
  "hex_nat n = (if n < 16 then [hex_char n] else hex_nat (n div 16) @ [hex_char (n mod 16)])"

declare hex_nat.simps [simp del]

fun groups16 :: "bytes \<Rightarrow> nat list" where
  "groups16 (a # b # bs) = (unat a * 256 + unat b) # groups16 bs"
| "groups16 _ = []"

definition zero_run :: "nat list \<Rightarrow> nat \<Rightarrow> nat" where
  "zero_run gs i = length (takeWhile (\<lambda>g. g = 0) (drop i gs))"

text \<open>The first longest run of at least two zero groups, as start and end index.\<close>

definition longest_zero_run :: "nat list \<Rightarrow> nat \<times> nat" where
  "longest_zero_run gs =
     fold (\<lambda>i (s, e). let l = zero_run gs i in if 2 \<le> l \<and> e - s < l then (i, i + l) else (s, e))
       [0..<8] (255, 255)"

definition ipv6_text :: "bytes \<Rightarrow> string" where
  "ipv6_text bs =
     (let gs = groups16 bs; (s, e) = longest_zero_run gs; show16 = map hex_nat in
      if s = 255 then intersperse_concat '':'' (show16 gs)
      else intersperse_concat '':'' (show16 (take s gs)) @ ''::'' @ intersperse_concat '':'' (show16 (drop e gs)))"

text \<open>\<open>IP.String\<close>; lengths other than 0, 4 and 16 do not arise in the program.\<close>

definition IP_String :: "net_IP \<Rightarrow> string" where
  "IP_String ip =
     (case To4 ip of Some p4 \<Rightarrow> dotted p4
      | None \<Rightarrow> if ip = [] then ''<nil>'' else ipv6_text ip)"

section \<open>Parsing addresses\<close>

definition parse_octet :: "string \<Rightarrow> byte option" where
  "parse_octet s =
     (if s = [] \<or> \<not> list_all is_digit s \<or> (1 < length s \<and> hd s = CHR ''0'') \<or> 255 < digits_value s
      then None else Some (word_of_nat (digits_value s)))"

definition parseIPv4 :: "string \<Rightarrow> bytes option" where
  "parseIPv4 s =
     (case map parse_octet (Split CHR ''.'' s) of
        [Some a, Some b, Some c, Some d] \<Rightarrow> Some [a, b, c, d]
      | _ \<Rightarrow> None)"

definition hex_val :: "char \<Rightarrow> nat option" where
  "hex_val c =
     (let n = (of_char c :: nat) in
      if 48 \<le> n \<and> n \<le> 57 then Some (n - 48)
      else if 97 \<le> n \<and> n \<le> 102 then Some (n - 87)
      else if 65 \<le> n \<and> n \<le> 70 then Some (n - 55) else None)"

definition hex_value :: "string \<Rightarrow> nat" where
  "hex_value s = foldl (\<lambda>acc c. acc * 16 + the (hex_val c)) 0 s"

text \<open>
  The loop of \<open>netip.parseIPv6\<close> on the text left, the octets parsed so far and the
  position of the ellipsis.  Each round adds two octets, so eight rounds fill the
  address; the round counter stands for the loop's bound \<open>i < 16\<close>.
\<close>

fun ipv6_loop :: "nat \<Rightarrow> string \<Rightarrow> bytes \<Rightarrow> nat option \<Rightarrow> (string \<times> bytes \<times> nat option) option" where
  "ipv6_loop 0 s acc ell = Some (s, acc, ell)"
| "ipv6_loop (Suc k) s acc ell =
     (let ds = takeWhile (\<lambda>c. hex_val c \<noteq> None) s; rest = drop (length ds) s in
      if ds = [] \<or> 4 < length ds then None
      else if rest \<noteq> [] \<and> hd rest = CHR ''.'' then
        (if (ell = None \<and> length acc \<noteq> 12) \<or> 12 < length acc then None
         else map_option (\<lambda>v4. ([], acc @ v4, ell)) (parseIPv4 s))
      else
        (let acc' = acc @ [word_of_nat (hex_value ds div 256), word_of_nat (hex_value ds mod 256)] in
         case rest of
           [] \<Rightarrow> Some ([], acc', ell)
         | c # rest' \<Rightarrow>
             if c \<noteq> CHR '':'' \<or> rest' = [] then None
             else if hd rest' = CHR '':'' then
               (if ell \<noteq> None then None
                else if tl rest' = [] then Some ([], acc', Some (length acc'))
                else ipv6_loop k (tl rest') acc' (Some (length acc')))
             else ipv6_loop k rest' acc' ell))"

definition parseIPv6 :: "string \<Rightarrow> bytes option" where
  "parseIPv6 s =
     (let (s1, ell) = (if HasPrefix s ''::'' then (drop 2 s, Some 0) else (s, None)) in
      if ell \<noteq> None \<and> s1 = [] then Some (replicate 16 0)
      else
        (case ipv6_loop 8 s1 [] ell of
           None \<Rightarrow> None
         | Some (left, acc, ell') \<Rightarrow>
             if left \<noteq> [] then None
             else if length acc < 16 then
               (case ell' of None \<Rightarrow> None
                | Some p \<Rightarrow> Some (take p acc @ replicate (16 - length acc) 0 @ drop p acc))
             else if ell' \<noteq> None then None else Some acc))"

text \<open>\<open>netip.ParseAddr\<close> without a zone: the first of \<open>.\<close>, \<open>:\<close> and \<open>%\<close> decides; an address
  with a zone is refused by every caller in the program.\<close>

definition ParseAddr :: "string \<Rightarrow> bytes option" where
  "ParseAddr s =
     (case List.find (\<lambda>c. c \<in> {CHR ''.'', CHR '':'', CHR ''%''}) s of
        None \<Rightarrow> None
      | Some c \<Rightarrow> if c = CHR ''.'' then parseIPv4 s
                  else if c = CHR '':'' \<and> CHR ''%'' \<notin> set s then parseIPv6 s else None)"

definition ParseIP :: "string \<Rightarrow> net_IP option" where
  "ParseIP s = (case ParseAddr s of None \<Rightarrow> None | Some bs \<Rightarrow> To16 bs)"

section \<open>Networks\<close>

record IPNet =
  net_ip :: net_IP
  net_mask :: bytes

definition CIDRMask :: "nat \<Rightarrow> nat \<Rightarrow> bytes" where
  "CIDRMask ones bits =
     map (\<lambda>i. if 8 * i + 8 \<le> ones then 255
              else if ones \<le> 8 * i then 0
              else NOT (mask (8 - (ones - 8 * i)))) [0..<bits div 8]"

definition and_bytes :: "bytes \<Rightarrow> bytes \<Rightarrow> bytes" where
  "and_bytes = map2 (AND)"

text \<open>\<open>IP.Mask\<close> as \<open>ParseCIDR\<close> uses it, on the 16-octet form of the address.\<close>

definition IP_Mask :: "net_IP \<Rightarrow> bytes \<Rightarrow> net_IP" where
  "IP_Mask ip m =
     (let m' = (if length m = 16 \<and> length ip = 4 \<and> take 12 m = replicate 12 255 then drop 12 m else m);
          ip' = (if length m' = 4 \<and> length ip = 16 \<and> take 12 ip = v4InV6Prefix then drop 12 ip else ip)
      in if length ip' \<noteq> length m' then [] else and_bytes ip' m')"

definition ParseCIDR :: "string \<Rightarrow> (net_IP \<times> IPNet) option" where
  "ParseCIDR s =
     (case SplitN2 CHR ''/'' s of
        [addr, msk] \<Rightarrow>
          (case ParseAddr addr of
             None \<Rightarrow> None
           | Some bs \<Rightarrow>
               (let n = digits_value msk; bits = 8 * length bs in
                if msk = [] \<or> \<not> list_all is_digit msk \<or> n > bits then None
                else (let m = CIDRMask n bits; ip16 = (case To16 bs of Some x \<Rightarrow> x | None \<Rightarrow> [])
                      in Some (ip16, \<lparr>net_ip = IP_Mask ip16 m, net_mask = m\<rparr>))))
      | _ \<Rightarrow> None)"

definition networkNumberAndMask :: "IPNet \<Rightarrow> (bytes \<times> bytes) option" where
  "networkNumberAndMask n =
     (let ip0 = (case To4 (net_ip n) of Some p \<Rightarrow> Some p
                 | None \<Rightarrow> if length (net_ip n) = 16 then Some (net_ip n) else None) in
      case ip0 of
        None \<Rightarrow> None
      | Some ip \<Rightarrow>
          (let m = net_mask n in
           if length m = 4 then (if length ip \<noteq> 4 then None else Some (ip, m))
           else if length m = 16 then (if length ip = 4 then Some (ip, drop 12 m) else Some (ip, m))
           else None))"

definition IPNet_Contains :: "IPNet \<Rightarrow> net_IP \<Rightarrow> bool" where
  "IPNet_Contains n ip0 =
     (let ip = (case To4 ip0 of Some p \<Rightarrow> p | None \<Rightarrow> ip0) in
      case networkNumberAndMask n of
        None \<Rightarrow> ip = []
      | Some (nn, m) \<Rightarrow> length ip = length nn \<and> and_bytes nn m = and_bytes ip m)"

section \<open>Facts\<close>

lemma to4_length: "To4 ip = Some p \<Longrightarrow> length p = 4"
  by (auto simp: To4_def split: if_splits)

lemma to16_length: "To16 ip = Some p \<Longrightarrow> length p = 16"
  by (auto simp: To16_def v4InV6Prefix_def split: if_splits)

lemma parseIPv4_example: "parseIPv4 ''10.0.0.1'' = Some [10, 0, 0, 1]"
  by code_simp

section \<open>Networks as bit prefixes\<close>

text \<open>The first \<open>n\<close> bits of an address, most significant first.\<close>

definition byte_bits :: "byte \<Rightarrow> bool list" where
  "byte_bits b = map (\<lambda>i. bit b (7 - i)) [0..<8]"

definition prefix_bits :: "nat \<Rightarrow> bytes \<Rightarrow> bool list" where
  "prefix_bits n bs = take n (concat (map byte_bits bs))"

definition mask_byte :: "nat \<Rightarrow> byte" where
  "mask_byte n = NOT (mask (8 - n))"

lemma CIDRMask_eq: "CIDRMask ones (8 * k) = map (\<lambda>i. mask_byte (ones - 8 * i)) [0..<k]"
proof -
  have "mask 8 = (255 :: byte)" and "NOT (mask 8) = (0 :: byte)" by (simp_all add: mask_eq_exp_minus_1)
  then show ?thesis by (auto simp: CIDRMask_def mask_byte_def not_le)
qed

lemma CIDRMask_Suc: "CIDRMask ones (8 * Suc k) = mask_byte ones # CIDRMask (ones - 8) (8 * k)"
  unfolding CIDRMask_eq by (subst upt_conv_Cons) (simp_all add: map_Suc_upt [symmetric] comp_def diff_diff_left del: upt_Suc)

lemma length_CIDRMask [simp]: "length (CIDRMask ones (8 * k)) = k"
  by (simp add: CIDRMask_eq)

lemma masked_byte_eq_iff:
  "a AND mask_byte n = b AND mask_byte n \<longleftrightarrow> take n (byte_bits a) = take n (byte_bits b)"
proof -
  have l: "bit (c AND mask_byte n) i \<longleftrightarrow> i < 8 \<and> bit c i \<and> 8 - n \<le> i" for c :: byte and i
    by (auto simp: mask_byte_def bit_and_iff bit_not_iff bit_mask_iff dest: bit_imp_le_length)
  have "a AND mask_byte n = b AND mask_byte n \<longleftrightarrow> (\<forall>i<8. 8 - n \<le> i \<longrightarrow> bit a i = bit b i)"
    unfolding bit_eq_iff l by auto
  also have "\<dots> \<longleftrightarrow> (\<forall>i<8. i < n \<longrightarrow> bit a (7 - i) = bit b (7 - i))"
  proof safe
    fix i :: nat
    assume h: "\<forall>i<8. 8 - n \<le> i \<longrightarrow> bit a i = bit b i" and i: "i < 8" "i < n"
    have "7 - i < 8" and "8 - n \<le> 7 - i" using i by simp_all
    with h show "bit a (7 - i) \<Longrightarrow> bit b (7 - i)" and "bit b (7 - i) \<Longrightarrow> bit a (7 - i)" by blast+
  next
    fix i :: nat
    assume h: "\<forall>i<8. i < n \<longrightarrow> bit a (7 - i) = bit b (7 - i)" and i: "i < 8" "8 - n \<le> i"
    have "7 - i < 8" and "7 - i < n" and "7 - (7 - i) = i" using i by simp_all
    with h show "bit a i \<Longrightarrow> bit b i" and "bit b i \<Longrightarrow> bit a i" by metis+
  qed
  also have "\<dots> \<longleftrightarrow> take n (byte_bits a) = take n (byte_bits b)"
    unfolding byte_bits_def take_map [symmetric] by (auto simp: list_eq_iff_nth_eq)
  finally show ?thesis .
qed

lemma prefix_bits_Cons: "prefix_bits n (b # bs) = take n (byte_bits b) @ prefix_bits (n - 8) bs"
  by (simp add: prefix_bits_def byte_bits_def)

lemma masked_eq_iff:
  assumes "length a = k" and "length b = k"
  shows "and_bytes a (CIDRMask n (8 * k)) = and_bytes b (CIDRMask n (8 * k)) \<longleftrightarrow> prefix_bits n a = prefix_bits n b"
  using assms
proof (induction k arbitrary: a b n)
  case 0
  then show ?case by (simp add: and_bytes_def)
next
  case (Suc k)
  obtain x a' y b' where ab: "a = x # a'" "b = y # b'" "length a' = k" "length b' = k"
    using Suc.prems by (auto simp: length_Suc_conv)
  have "length (take n (byte_bits x)) = length (take n (byte_bits y))" by (simp add: byte_bits_def)
  then show ?case
    using Suc.IH [OF ab(3,4), of "n - 8"]
    unfolding ab CIDRMask_Suc prefix_bits_Cons and_bytes_def by (simp add: masked_byte_eq_iff)
qed

lemma and_bytes_idem: "length m = length a \<Longrightarrow> and_bytes (and_bytes a m) m = and_bytes a m"
  unfolding and_bytes_def by (induction a m rule: list_induct2') (simp_all add: ac_simps)

text \<open>The address and the prefix length a CIDR text names.\<close>

definition cidr_of :: "string \<Rightarrow> (bytes \<times> nat) option" where
  "cidr_of s =
     (case SplitN2 CHR ''/'' s of
        [addr, msk] \<Rightarrow>
          (case ParseAddr addr of
             None \<Rightarrow> None
           | Some bs \<Rightarrow>
               if msk = [] \<or> \<not> list_all is_digit msk \<or> digits_value msk > 8 * length bs then None
               else Some (bs, digits_value msk))
      | _ \<Rightarrow> None)"

lemma ParseCIDR_cidr_of:
  "ParseCIDR s = (case cidr_of s of None \<Rightarrow> None
     | Some (bs, n) \<Rightarrow>
         (let ip16 = (case To16 bs of Some x \<Rightarrow> x | None \<Rightarrow> []); m = CIDRMask n (8 * length bs)
          in Some (ip16, \<lparr>net_ip = IP_Mask ip16 m, net_mask = m\<rparr>)))"
  by (simp add: ParseCIDR_def cidr_of_def Let_def split: list.splits option.splits)

text \<open>The network of an IPv4 prefix contains exactly the IPv4 addresses (in either form) with
  that prefix.\<close>

lemma contains_ipv4:
  assumes "ParseCIDR s = Some (ip, n)" and "cidr_of s = Some (bs, k)" and "length bs = 4"
  shows "IPNet_Contains n d \<longleftrightarrow> (\<exists>d4. To4 d = Some d4 \<and> prefix_bits k d4 = prefix_bits k bs)"
proof -
  define m where "m = CIDRMask k (8 * 4)"
  have lm: "length m = 4" by (simp add: m_def del: numeral_times_numeral mult_numeral_1)
  have "IP_Mask (v4InV6Prefix @ bs) m = and_bytes bs m"
    using lm assms(3) by (simp add: IP_Mask_def v4InV6Prefix_def)
  then have n: "n = \<lparr>net_ip = and_bytes bs m, net_mask = m\<rparr>"
    using assms by (simp add: ParseCIDR_cidr_of To16_def m_def Let_def)
  have la: "length (and_bytes bs m) = 4" using lm assms(3) by (simp add: and_bytes_def)
  have nn: "networkNumberAndMask n = Some (and_bytes bs m, m)"
    using la lm by (simp add: networkNumberAndMask_def n To4_def)
  have idem: "and_bytes (and_bytes bs m) m = and_bytes bs m" using lm assms(3) by (simp add: and_bytes_idem)
  show ?thesis
  proof (cases "To4 d")
    case (Some d4)
    then have "and_bytes bs m = and_bytes d4 m \<longleftrightarrow> prefix_bits k bs = prefix_bits k d4"
      unfolding m_def by (intro masked_eq_iff) (simp_all add: assms(3) to4_length)
    with Some show ?thesis by (auto simp: IPNet_Contains_def nn idem la to4_length)
  next
    case None
    then have "length d \<noteq> 4" by (auto simp: To4_def)
    with None show ?thesis by (simp add: IPNet_Contains_def nn la)
  qed
qed

section \<open>Round trip of IPv4 texts\<close>

lemma Split_intersperse:
  "xs \<noteq> [] \<Longrightarrow> \<forall>x \<in> set xs. c \<notin> set x \<Longrightarrow> Split c (intersperse_concat [c] xs) = xs"
proof (induction "[c]" xs rule: intersperse_concat.induct)
  case (2 x)
  then have "c \<notin> set x" by simp
  then show ?case by (induction x) (auto split: list.split)
next
  case (3 x y ys)
  have "c \<notin> set x" "Split c (intersperse_concat [c] (y # ys)) = y # ys" using 3 by simp_all
  then show ?case by (induction x) (auto split: list.split)
qed simp

lemma hd_itoa_nat: "n \<noteq> 0 \<Longrightarrow> hd (itoa_nat n) \<noteq> CHR ''0''"
proof (induction n rule: itoa_nat.induct)
  case (1 n)
  show ?case
  proof (cases "n < 10")
    case True
    have "digit_val CHR ''0'' = 0" by (simp add: digit_val_def)
    then have "digit_char n \<noteq> CHR ''0''" using digit_char_props(2) [OF True] 1(2) by metis
    with True show ?thesis by (subst itoa_nat.simps) simp
  next
    case False
    then have "hd (itoa_nat (n div 10)) \<noteq> CHR ''0''" using 1 by simp
    with False show ?thesis by (subst itoa_nat.simps) simp
  qed
qed

lemma parse_octet_itoa: "parse_octet (itoa_nat (unat b)) = Some b"
proof -
  have "unat b < 256" using unsigned_less [of b] by simp
  moreover have "list_all is_digit (itoa_nat (unat b))" using itoa_nat_clean by (fastforce simp: list_all_iff)
  moreover have "\<not> (1 < length (itoa_nat (unat b)) \<and> hd (itoa_nat (unat b)) = CHR ''0'')"
  proof (cases "unat b = 0")
    case True
    then show ?thesis by (subst itoa_nat.simps) simp
  qed (simp add: hd_itoa_nat)
  ultimately show ?thesis by (simp add: parse_octet_def)
qed

lemma dot_not_in_itoa: "CHR ''.'' \<notin> set (itoa_nat n)"
  using itoa_nat_clean by (fastforce simp: is_digit_def)

lemma parseIPv4_dotted:
  assumes "length bs = 4"
  shows "parseIPv4 (dotted bs) = Some bs"
proof -
  obtain a b c d where bs: "bs = [a, b, c, d]"
    using assms by (auto simp: numeral_eq_Suc length_Suc_conv)
  have "Split CHR ''.'' (dotted bs) = map (\<lambda>b. itoa_nat (unat b)) bs"
    unfolding dotted_def bs by (rule Split_intersperse) (simp_all add: dot_not_in_itoa)
  then show ?thesis by (simp add: parseIPv4_def bs parse_octet_itoa)
qed

lemma find_append_left: "\<forall>x \<in> set xs. \<not> P x \<Longrightarrow> List.find P (xs @ ys) = List.find P ys"
  by (induction xs) auto

lemma ParseAddr_dotted:
  assumes "length bs = 4"
  shows "ParseAddr (dotted bs) = Some bs"
proof -
  obtain a b c d where bs: "bs = [a, b, c, d]"
    using assms by (auto simp: numeral_eq_Suc length_Suc_conv)
  have "\<forall>x \<in> set (itoa_nat (unat a)). \<not> x \<in> {CHR ''.'', CHR '':'', CHR ''%''}"
    using itoa_nat_clean by (fastforce simp: is_digit_def)
  then have "List.find (\<lambda>c. c \<in> {CHR ''.'', CHR '':'', CHR ''%''}) (dotted bs) = Some CHR ''.''"
    unfolding bs dotted_def by (simp only: list.map intersperse_concat.simps find_append_left) simp
  then show ?thesis using parseIPv4_dotted [OF assms] by (simp add: ParseAddr_def)
qed

lemma ParseIP_IP_String: "To4 ip = Some bs \<Longrightarrow> ParseIP (IP_String ip) = Some (v4InV6Prefix @ bs)"
  using ParseAddr_dotted [of bs] to4_length [of ip bs] by (simp add: ParseIP_def IP_String_def To16_def)

end
