(* ===== verification/Socks5.thy ===== *)
theory Socks5
  imports Go_Net
begin

text \<open>
  \<open>pkg/socks5/server.go\<close>: the SOCKS5 server.  A connection is a record of the octets
  that will still arrive, the octets written so far, how many more writes succeed,
  and the state of its deadline; \<open>io.ReadFull\<close> fails when too few octets are left (the
  peer closed or the deadline passed).  Every handler returns its error, if any, with
  the connection after it.  Dialling the destination is a parameter.
\<close>

section \<open>Protocol constants\<close>

abbreviation (input) socks5Version :: byte where "socks5Version \<equiv> 5"
abbreviation (input) authNone :: byte where "authNone \<equiv> 0"
abbreviation (input) authPassword :: byte where "authPassword \<equiv> 2"
abbreviation (input) authNoAccept :: byte where "authNoAccept \<equiv> 255"
abbreviation (input) cmdConnect :: byte where "cmdConnect \<equiv> 1"
abbreviation (input) addrIPv4 :: byte where "addrIPv4 \<equiv> 1"
abbreviation (input) addrDomain :: byte where "addrDomain \<equiv> 3"
abbreviation (input) addrIPv6 :: byte where "addrIPv6 \<equiv> 4"
abbreviation (input) replySuccess :: byte where "replySuccess \<equiv> 0"
abbreviation (input) replyGeneralFailure :: byte where "replyGeneralFailure \<equiv> 1"
abbreviation (input) replyHostUnreachable :: byte where "replyHostUnreachable \<equiv> 4"
abbreviation (input) replyCommandNotSupported :: byte where "replyCommandNotSupported \<equiv> 7"
abbreviation (input) replyAddressNotSupported :: byte where "replyAddressNotSupported \<equiv> 8"

section \<open>Configuration, server and connection\<close>

record s5_config =
  s5_ListenAddr :: string
  s5_Username :: string
  s5_Password :: string
  s5_Timeout :: duration

datatype deadline = NoDeadline | Armed duration

record conn =
  c_in :: bytes
  c_out :: bytes
  c_writes :: nat
  c_deadline :: deadline
  c_deadline_ok :: bool
  c_write_closed :: bool
  c_closed :: bool

datatype s5_error =
    SetDeadlineFailed
  | ReadVersion | UnsupportedVersion byte | ReadMethods | WriteMethod | NoAcceptableMethod
  | ReadAuthVersion | UnsupportedAuthVersion byte | ReadUsernameLength | ReadUsername
  | ReadPasswordLength | ReadPassword | WriteAuthResponse | InvalidCredentials
  | ReadRequestHeader | UnsupportedCommand byte | UnsupportedAddressType byte | ReadAddress
  | ConnectToDestination | SendReply

definition NewServer :: "s5_config \<Rightarrow> s5_config" where
  "NewServer cfg = (if s5_Timeout cfg = 0 then cfg\<lparr>s5_Timeout := 30 * second\<rparr> else cfg)"

definition auth_required :: "s5_config \<Rightarrow> bool" where
  "auth_required cfg \<longleftrightarrow> s5_Username cfg \<noteq> '''' \<or> s5_Password cfg \<noteq> ''''"

text \<open>\<open>io.ReadFull\<close>: on a short stream what was there is consumed and an error returned.\<close>

definition ReadFull :: "nat \<Rightarrow> conn \<Rightarrow> bytes option \<times> conn" where
  "ReadFull n c =
     (if length (c_in c) < n then (None, c\<lparr>c_in := []\<rparr>)
      else (Some (take n (c_in c)), c\<lparr>c_in := drop n (c_in c)\<rparr>))"

definition conn_Write :: "bytes \<Rightarrow> conn \<Rightarrow> bool \<times> conn" where
  "conn_Write bs c =
     (if c_writes c = 0 then (False, c)
      else (True, c\<lparr>c_out := c_out c @ bs, c_writes := c_writes c - 1\<rparr>))"

definition SetDeadline :: "deadline \<Rightarrow> conn \<Rightarrow> bool \<times> conn" where
  "SetDeadline d c = (if c_deadline_ok c then (True, c\<lparr>c_deadline := d\<rparr>) else (False, c))"

section \<open>Handshake\<close>

definition select_method :: "s5_config \<Rightarrow> bytes \<Rightarrow> byte" where
  "select_method cfg methods =
     (if auth_required cfg
      then (if authPassword \<in> set methods then authPassword else authNoAccept)
      else (if authNone \<in> set methods then authNone else authNoAccept))"

definition handshake :: "s5_config \<Rightarrow> conn \<Rightarrow> s5_error option \<times> conn" where
  "handshake cfg c0 =
     (case ReadFull 2 c0 of
        (None, c1) \<Rightarrow> (Some ReadVersion, c1)
      | (Some buf, c1) \<Rightarrow>
          (let version = buf ! 0; nMethods = buf ! 1 in
           if version \<noteq> socks5Version then (Some (UnsupportedVersion version), c1)
           else
             (case ReadFull (unat nMethods) c1 of
                (None, c2) \<Rightarrow> (Some ReadMethods, c2)
              | (Some methods, c2) \<Rightarrow>
                  (let selectedMethod = select_method cfg methods in
                   case conn_Write [socks5Version, selectedMethod] c2 of
                     (False, c3) \<Rightarrow> (Some WriteMethod, c3)
                   | (True, c3) \<Rightarrow>
                       if selectedMethod = authNoAccept then (Some NoAcceptableMethod, c3)
                       else (None, c3)))))"

section \<open>Username and password\<close>

definition authenticate :: "s5_config \<Rightarrow> conn \<Rightarrow> s5_error option \<times> conn" where
  "authenticate cfg c0 =
     (case ReadFull 1 c0 of
        (None, c1) \<Rightarrow> (Some ReadAuthVersion, c1)
      | (Some ver, c1) \<Rightarrow>
          if ver ! 0 \<noteq> 1 then (Some (UnsupportedAuthVersion (ver ! 0)), c1)
          else
            (case ReadFull 1 c1 of
               (None, c2) \<Rightarrow> (Some ReadUsernameLength, c2)
             | (Some ulen, c2) \<Rightarrow>
                 (case ReadFull (unat (ulen ! 0)) c2 of
                    (None, c3) \<Rightarrow> (Some ReadUsername, c3)
                  | (Some username, c3) \<Rightarrow>
                      (case ReadFull 1 c3 of
                         (None, c4) \<Rightarrow> (Some ReadPasswordLength, c4)
                       | (Some plen, c4) \<Rightarrow>
                           (case ReadFull (unat (plen ! 0)) c4 of
                              (None, c5) \<Rightarrow> (Some ReadPassword, c5)
                            | (Some password, c5) \<Rightarrow>
                                (let status = (if string_of_bytes username = s5_Username cfg
                                                  \<and> string_of_bytes password = s5_Password cfg
                                               then 0 else 1 :: byte) in
                                 case conn_Write [1, status] c5 of
                                   (False, c6) \<Rightarrow> (Some WriteAuthResponse, c6)
                                 | (True, c6) \<Rightarrow>
                                     if status \<noteq> 0 then (Some InvalidCredentials, c6)
                                     else (None, c6)))))))"

section \<open>Replies and addresses\<close>

definition reply_bytes :: "byte \<Rightarrow> byte \<Rightarrow> bytes" where
  "reply_bytes reply addrType =
     (let boundAddrType = (if addrType \<noteq> addrIPv6 then addrIPv4 else addrType) in
      [socks5Version, reply, 0, boundAddrType]
        @ (if boundAddrType = addrIPv6 then replicate 16 0 else replicate 4 0) @ [0, 0])"

definition sendReply :: "byte \<Rightarrow> byte \<Rightarrow> conn \<Rightarrow> bool \<times> conn" where
  "sendReply reply addrType c = conn_Write (reply_bytes reply addrType) c"

definition port_of :: "bytes \<Rightarrow> nat" where
  "port_of portBuf = unat (portBuf ! 0) * 256 + unat (portBuf ! 1)"

text \<open>The address and port after the request header, as the text handed to the dialler.\<close>

definition readAddress :: "byte \<Rightarrow> conn \<Rightarrow> string option \<times> conn" where
  "readAddress addrType c0 =
     (if addrType = addrIPv4 then
        (case ReadFull 4 c0 of
           (None, c1) \<Rightarrow> (None, c1)
         | (Some buf, c1) \<Rightarrow>
             (case ReadFull 2 c1 of
                (None, c2) \<Rightarrow> (None, c2)
              | (Some portBuf, c2) \<Rightarrow> (Some (IP_String buf @ '':'' @ itoa_nat (port_of portBuf)), c2)))
      else if addrType = addrDomain then
        (case ReadFull 1 c0 of
           (None, c1) \<Rightarrow> (None, c1)
         | (Some lenBuf, c1) \<Rightarrow>
             (case ReadFull (unat (lenBuf ! 0)) c1 of
                (None, c2) \<Rightarrow> (None, c2)
              | (Some domain, c2) \<Rightarrow>
                  (case ReadFull 2 c2 of
                     (None, c3) \<Rightarrow> (None, c3)
                   | (Some portBuf, c3) \<Rightarrow>
                       (Some (string_of_bytes domain @ '':'' @ itoa_nat (port_of portBuf)), c3))))
      else if addrType = addrIPv6 then
        (case ReadFull 16 c0 of
           (None, c1) \<Rightarrow> (None, c1)
         | (Some buf, c1) \<Rightarrow>
             (case ReadFull 2 c1 of
                (None, c2) \<Rightarrow> (None, c2)
              | (Some portBuf, c2) \<Rightarrow>
                  (Some (''['' @ IP_String buf @ '']:'' @ itoa_nat (port_of portBuf)), c2)))
      else (None, c0))"

section \<open>Relay\<close>

text \<open>
  \<open>relay\<close>: each direction copies what the other side sends until its end of stream, or
  until a write fails, and half-closes the peer; both connections are closed first when
  the server is being stopped.  The two copies touch disjoint halves of the two
  connections, so their order does not matter; an unfinished copy delivers nothing of
  the chunk whose write failed.
\<close>

definition copy_half :: "conn \<Rightarrow> conn \<Rightarrow> conn \<times> conn" where
  "copy_half src dst =
     (let src' = src\<lparr>c_in := []\<rparr>;
          dst' = (if c_in src = [] then dst else snd (conn_Write (c_in src) dst))
      in (src', dst'\<lparr>c_write_closed := True\<rparr>))"

definition relay :: "bool \<Rightarrow> conn \<Rightarrow> conn \<Rightarrow> conn \<times> conn" where
  "relay cancelled client dest =
     (if cancelled then (client\<lparr>c_closed := True\<rparr>, dest\<lparr>c_closed := True\<rparr>)
      else (let (client1, dest1) = copy_half client dest;
                (dest2, client2) = copy_half dest1 client1
            in (client2, dest2)))"

section \<open>Requests\<close>

text \<open>
  \<open>dial\<close> answers \<open>net.DialTimeout\<close>: \<open>None\<close> for an error, else the new connection.
  The result also says which address was dialled, if any, and the destination
  connection as the handler left it (closed by the deferred \<open>Close\<close>).
\<close>

record request_result =
  rr_err :: "s5_error option"
  rr_conn :: conn
  rr_dialled :: "string option"
  rr_dest :: "conn option"

definition failed_request :: "s5_error \<Rightarrow> conn \<Rightarrow> request_result" where
  "failed_request e c = \<lparr>rr_err = Some e, rr_conn = c, rr_dialled = None, rr_dest = None\<rparr>"

definition processRequest :: "(string \<Rightarrow> conn option) \<Rightarrow> bool \<Rightarrow> conn \<Rightarrow> request_result" where
  "processRequest dial cancelled c0 =
     (case ReadFull 4 c0 of
        (None, c1) \<Rightarrow> failed_request ReadRequestHeader c1
      | (Some buf, c1) \<Rightarrow>
          (let version = buf ! 0; cmd = buf ! 1; addrType = buf ! 3 in
           if version \<noteq> socks5Version then failed_request (UnsupportedVersion version) c1
           else if cmd \<noteq> cmdConnect then
             failed_request (UnsupportedCommand cmd) (snd (sendReply replyCommandNotSupported addrType c1))
           else if addrType \<notin> {addrIPv4, addrDomain, addrIPv6} then
             failed_request (UnsupportedAddressType addrType) (snd (sendReply replyAddressNotSupported addrType c1))
           else
             (case readAddress addrType c1 of
                (None, c2) \<Rightarrow> failed_request ReadAddress (snd (sendReply replyGeneralFailure addrType c2))
              | (Some destAddr, c2) \<Rightarrow>
                  (case dial destAddr of
                     None \<Rightarrow>
                       \<lparr>rr_err = Some ConnectToDestination,
                        rr_conn = snd (sendReply replyHostUnreachable addrType c2),
                        rr_dialled = Some destAddr, rr_dest = None\<rparr>
                   | Some destConn \<Rightarrow>
                       (case sendReply replySuccess addrType c2 of
                          (False, c3) \<Rightarrow>
                            \<lparr>rr_err = Some SendReply, rr_conn = c3, rr_dialled = Some destAddr,
                             rr_dest = Some (destConn\<lparr>c_closed := True\<rparr>)\<rparr>
                        | (True, c3) \<Rightarrow>
                            (let c4 = snd (SetDeadline NoDeadline c3);
                                 (c5, d5) = relay cancelled c4 destConn
                             in \<lparr>rr_err = None, rr_conn = c5, rr_dialled = Some destAddr,
                                 rr_dest = Some (d5\<lparr>c_closed := True\<rparr>)\<rparr>))))))"

text \<open>\<open>closeGracefully\<close>: half-close, drain for at most 250 ms, close.\<close>

definition closeGracefully :: "conn \<Rightarrow> conn" where
  "closeGracefully c =
     (let c1 = c\<lparr>c_write_closed := True\<rparr>;
          c2 = snd (SetDeadline (Armed (250 * millisecond)) c1);
          c3 = c2\<lparr>c_in := []\<rparr>
      in c3\<lparr>c_closed := True\<rparr>)"

definition finish :: "request_result \<Rightarrow> request_result" where
  "finish rr = rr\<lparr>rr_conn := closeGracefully (rr_conn rr)\<rparr>"

definition handleConnection ::
    "s5_config \<Rightarrow> (string \<Rightarrow> conn option) \<Rightarrow> bool \<Rightarrow> conn \<Rightarrow> request_result" where
  "handleConnection cfg dial cancelled c0 =
     finish
       (case SetDeadline (Armed (s5_Timeout cfg)) c0 of
          (False, c1) \<Rightarrow> failed_request SetDeadlineFailed c1
        | (True, c1) \<Rightarrow>
            (case handshake cfg c1 of
               (Some e, c2) \<Rightarrow> failed_request e c2
             | (None, c2) \<Rightarrow>
                 if auth_required cfg then
                   (case authenticate cfg c2 of
                      (Some e, c3) \<Rightarrow> failed_request e c3
                    | (None, c3) \<Rightarrow> processRequest dial cancelled c3)
                 else processRequest dial cancelled c2))"

section \<open>Accept loop\<close>

text \<open>
  One turn of \<open>acceptLoop\<close>: whether the context was done when the turn began, whether the
  accept deadline could be set, what \<open>Accept\<close> answered, and whether the context was done
  when it failed.
\<close>

datatype accept_outcome = Accepted conn | AcceptTimeout | AcceptError

record accept_turn =
  at_done :: bool
  at_deadline_ok :: bool
  at_accept :: accept_outcome
  at_done_after :: bool

text \<open>The connections handed to \<open>handleConnection\<close>, and whether the loop returned.\<close>

fun acceptLoop :: "accept_turn list \<Rightarrow> conn list \<times> bool" where
  "acceptLoop [] = ([], False)"
| "acceptLoop (t # ts) =
     (if at_done t then ([], True)
      else if \<not> at_deadline_ok t then acceptLoop ts
      else
        (case at_accept t of
           AcceptTimeout \<Rightarrow> acceptLoop ts
         | AcceptError \<Rightarrow> if at_done_after t then ([], True) else acceptLoop ts
         | Accepted c \<Rightarrow> (case acceptLoop ts of (cs, stopped) \<Rightarrow> (c # cs, stopped))))"

section \<open>Reading frames\<close>

text \<open>
  The contract of a frame reader: it accepts exactly the encodings of its valid values,
  leaves what follows them, and touches nothing else of the connection.  A reader with
  this contract is unambiguous.
\<close>

locale frame =
  fixes enc :: "'a \<Rightarrow> bytes" and dec :: "conn \<Rightarrow> 'a option \<times> conn" and valid :: "'a \<Rightarrow> bool"
  assumes complete: "valid x \<Longrightarrow> c_in c = enc x @ r \<Longrightarrow> dec c = (Some x, c\<lparr>c_in := r\<rparr>)"
    and sound: "dec c = (Some x, c') \<Longrightarrow> valid x \<and> c_in c = enc x @ c_in c' \<and> c' = c\<lparr>c_in := c_in c'\<rparr>"
begin

lemma frame_iff:
  "dec c = (Some x, c') \<longleftrightarrow> valid x \<and> c_in c = enc x @ c_in c' \<and> c' = c\<lparr>c_in := c_in c'\<rparr>"
  using sound complete by metis

lemma unambiguous:
  assumes "valid x" and "valid y" and "enc x @ r = enc y @ s"
  shows "x = y \<and> r = s"
proof -
  let ?c = "\<lparr>c_in = enc x @ r, c_out = [], c_writes = 0, c_deadline = NoDeadline, c_deadline_ok = True,
    c_write_closed = False, c_closed = False\<rparr>"
  have "dec ?c = (Some x, ?c\<lparr>c_in := r\<rparr>)" by (rule complete) (use assms in simp_all)
  moreover have "dec ?c = (Some y, ?c\<lparr>c_in := s\<rparr>)" by (rule complete) (use assms in simp_all)
  ultimately show ?thesis by simp
qed

end

interpretation raw: frame "\<lambda>bs. bs" "ReadFull n" "\<lambda>bs. length bs = n" for n
  by unfold_locales (auto simp: ReadFull_def split: if_splits)

definition read_lp :: "conn \<Rightarrow> bytes option \<times> conn" where
  "read_lp c =
     (case ReadFull 1 c of (None, c1) \<Rightarrow> (None, c1) | (Some l, c1) \<Rightarrow> ReadFull (unat (l ! 0)) c1)"

definition enc_lp :: "bytes \<Rightarrow> bytes" where
  "enc_lp bs = word_of_nat (length bs) # bs"

lemma unat_word_of_nat8: "n < 256 \<Longrightarrow> unat (word_of_nat n :: byte) = n"
  by (simp add: unsigned_of_nat take_bit_eq_mod)

lemma unat_byte_less: "unat (b :: byte) < 256"
  using unsigned_less [of b] by simp

lemma ReadFull_1_iff:
  "ReadFull 1 c = (Some l, c') \<longleftrightarrow> (\<exists>b. l = [b] \<and> c_in c = b # c_in c') \<and> c' = c\<lparr>c_in := c_in c'\<rparr>"
  by (auto simp: raw.frame_iff length_Suc_conv)

interpretation lp: frame enc_lp read_lp "\<lambda>bs. length bs < 256"
proof unfold_locales
  fix x r and c :: conn
  assume "length x < 256" and "c_in c = enc_lp x @ r"
  then show "read_lp c = (Some x, c\<lparr>c_in := r\<rparr>)"
    by (simp add: read_lp_def enc_lp_def ReadFull_def unat_word_of_nat8)
next
  fix c c' :: conn and x
  assume "read_lp c = (Some x, c')"
  then obtain l c1 where l: "ReadFull 1 c = (Some l, c1)" and x: "ReadFull (unat (l ! 0)) c1 = (Some x, c')"
    by (auto simp: read_lp_def split: prod.splits option.splits)
  from l obtain b where b: "l = [b]" "c_in c = b # c_in c1" "c1 = c\<lparr>c_in := c_in c1\<rparr>"
    unfolding ReadFull_1_iff by blast
  from x have x': "length x = unat b" "c_in c1 = x @ c_in c'" "c' = c1\<lparr>c_in := c_in c'\<rparr>"
    unfolding raw.frame_iff using b by simp_all
  have "word_of_nat (length x) = b" using x' by simp
  moreover have "c' = c\<lparr>c_in := c_in c'\<rparr>" using b(3) x'(3) by (metis conn.update_convs(1) conn.surjective)
  ultimately show "length x < 256 \<and> c_in c = enc_lp x @ c_in c' \<and> c' = c\<lparr>c_in := c_in c'\<rparr>"
    using b x' unat_byte_less [of b] by (simp add: enc_lp_def)
qed

lemma ReadFull_append [wire]: "c_in c = bs @ r \<Longrightarrow> n = length bs \<Longrightarrow> ReadFull n c = (Some bs, c\<lparr>c_in := r\<rparr>)"
  by (simp add: ReadFull_def)

lemma ReadFull_Cons [wire]: "c_in c = b # r \<Longrightarrow> ReadFull 1 c = (Some [b], c\<lparr>c_in := r\<rparr>)"
  by (simp add: ReadFull_def)

lemma conn_Write_ok [wire]:
  "0 < c_writes c \<Longrightarrow> conn_Write bs c = (True, c\<lparr>c_out := c_out c @ bs, c_writes := c_writes c - 1\<rparr>)"
  by (simp add: conn_Write_def)

section \<open>Handshake\<close>

definition required_method :: "s5_config \<Rightarrow> byte" where
  "required_method cfg = (if auth_required cfg then authPassword else authNone)"

lemma select_method_eq:
  "select_method cfg methods = (if required_method cfg \<in> set methods then required_method cfg else authNoAccept)"
  by (simp add: select_method_def required_method_def)

lemma required_method_neq [simp]: "required_method cfg \<noteq> authNoAccept"
  by (simp add: required_method_def)

lemma handshake_on:
  assumes "c_in c = [socks5Version, word_of_nat (length methods)] @ methods @ r"
    and "length methods < 256" and "0 < c_writes c"
  shows "handshake cfg c =
     (if required_method cfg \<in> set methods
      then (None, c\<lparr>c_in := r, c_out := c_out c @ [socks5Version, required_method cfg], c_writes := c_writes c - 1\<rparr>)
      else (Some NoAcceptableMethod,
            c\<lparr>c_in := r, c_out := c_out c @ [socks5Version, authNoAccept], c_writes := c_writes c - 1\<rparr>))"
proof -
  have "ReadFull 2 c = (Some [socks5Version, word_of_nat (length methods)], c\<lparr>c_in := methods @ r\<rparr>)"
    by (rule ReadFull_append) (use assms in simp_all)
  moreover have "ReadFull (length methods) (c\<lparr>c_in := methods @ r\<rparr>) = (Some methods, c\<lparr>c_in := r\<rparr>)"
    by (simp add: ReadFull_def)
  ultimately show ?thesis
    using assms by (simp add: handshake_def select_method_eq unat_word_of_nat8 conn_Write_def)
qed

text \<open>On a complete greeting the server answers with the one method its configuration
  requires if the client offers it, and with 0xFF and an error otherwise; it consumes
  exactly the greeting.\<close>

theorem handshake_negotiates:
  assumes "c_in c = [socks5Version, word_of_nat (length methods)] @ methods @ r"
    and "length methods < 256" and "0 < c_writes c"
  shows "handshake cfg c =
     (if required_method cfg \<in> set methods
      then (None, c\<lparr>c_in := r, c_out := c_out c @ [socks5Version, required_method cfg], c_writes := c_writes c - 1\<rparr>)
      else (Some NoAcceptableMethod,
            c\<lparr>c_in := r, c_out := c_out c @ [socks5Version, authNoAccept], c_writes := c_writes c - 1\<rparr>))"
  by (rule handshake_on [OF assms])

lemma handshake_ok_elim:
  assumes "handshake cfg c = (None, c')"
  obtains methods where "length methods < 256" "required_method cfg \<in> set methods"
    "c_in c = [socks5Version, word_of_nat (length methods)] @ methods @ c_in c'"
proof -
  from assms obtain buf c1 methods c2 where
    r: "ReadFull 2 c = (Some buf, c1)" "buf ! 0 = socks5Version" "ReadFull (unat (buf ! 1)) c1 = (Some methods, c2)"
    and w: "conn_Write [socks5Version, select_method cfg methods] c2 = (True, c')"
    and m: "select_method cfg methods \<noteq> authNoAccept"
    by (auto simp: handshake_def Let_def split: prod.splits option.splits if_splits bool.splits)
  from r(1) have b: "length buf = 2" "c_in c = buf @ c_in c1" unfolding raw.frame_iff by simp_all
  from r(3) have mm: "length methods = unat (buf ! 1)" "c_in c1 = methods @ c_in c2"
    unfolding raw.frame_iff by simp_all
  from b(1) r(2) have "buf = [socks5Version, buf ! 1]" by (auto simp: length_Suc_conv eval_nat_numeral)
  moreover have "word_of_nat (length methods) = buf ! 1" using mm(1) by simp
  moreover have "c_in c' = c_in c2" using w by (auto simp: conn_Write_def split: if_splits)
  ultimately have "c_in c = [socks5Version, word_of_nat (length methods)] @ methods @ c_in c'"
    using b(2) mm(2) by (metis append_assoc)
  moreover have "length methods < 256" using mm(1) unat_byte_less by simp
  moreover have "required_method cfg \<in> set methods" using m by (auto simp: select_method_eq split: if_splits)
  ultimately show ?thesis by (rule that [rotated 2])
qed

section \<open>Authentication\<close>

definition auth_request :: "string \<Rightarrow> string \<Rightarrow> bytes" where
  "auth_request user pass = [1] @ enc_lp (bytes_of_string user) @ enc_lp (bytes_of_string pass)"

text \<open>\<open>authenticate\<close> up to its verdict: the three fields it reads.\<close>

lemma authenticate_read:
  assumes "c_in c = auth_request user pass @ r" and "length user < 256" and "length pass < 256"
  shows "authenticate cfg c =
     (let status = (if user = s5_Username cfg \<and> pass = s5_Password cfg then 0 else 1 :: byte) in
      case conn_Write [1, status] (c\<lparr>c_in := r\<rparr>) of
        (False, c6) \<Rightarrow> (Some WriteAuthResponse, c6)
      | (True, c6) \<Rightarrow> if status \<noteq> 0 then (Some InvalidCredentials, c6) else (None, c6))"
proof -
  let ?u = "bytes_of_string user" and ?p = "bytes_of_string pass"
  have in0: "c_in c = 1 # enc_lp ?u @ enc_lp ?p @ r" using assms by (simp add: auth_request_def)
  note 1 = ReadFull_Cons [OF in0]
  have 2: "ReadFull 1 (c\<lparr>c_in := enc_lp ?u @ enc_lp ?p @ r\<rparr>)
      = (Some [word_of_nat (length user)], c\<lparr>c_in := ?u @ enc_lp ?p @ r\<rparr>)"
    by (simp add: ReadFull_def enc_lp_def)
  have 3: "ReadFull (length user) (c\<lparr>c_in := ?u @ enc_lp ?p @ r\<rparr>) = (Some ?u, c\<lparr>c_in := enc_lp ?p @ r\<rparr>)"
    by (simp add: ReadFull_def)
  have 4: "ReadFull 1 (c\<lparr>c_in := enc_lp ?p @ r\<rparr>) = (Some [word_of_nat (length pass)], c\<lparr>c_in := ?p @ r\<rparr>)"
    by (simp add: ReadFull_def enc_lp_def)
  have 5: "ReadFull (length pass) (c\<lparr>c_in := ?p @ r\<rparr>) = (Some ?p, c\<lparr>c_in := r\<rparr>)"
    by (simp add: ReadFull_def)
  show ?thesis
    using assms(2,3) unfolding authenticate_def
    by (simp only: 1 2 3 4 5 prod.case option.case nth_Cons_0 unat_word_of_nat8 string_of_bytes_of_string) simp
qed

text \<open>Given a complete username/password request, \<open>authenticate\<close> succeeds, answering
  status 0, exactly when both fields equal the configured credentials; otherwise it
  answers status 1 and fails with "invalid credentials".\<close>

theorem authenticate_iff_credentials:
  assumes "c_in c = auth_request user pass @ r" and "length user < 256" and "length pass < 256"
    and "0 < c_writes c"
  shows "authenticate cfg c =
     (if user = s5_Username cfg \<and> pass = s5_Password cfg
      then (None, c\<lparr>c_in := r, c_out := c_out c @ [1, 0], c_writes := c_writes c - 1\<rparr>)
      else (Some InvalidCredentials, c\<lparr>c_in := r, c_out := c_out c @ [1, 1], c_writes := c_writes c - 1\<rparr>))"
  using assms(4) by (simp add: authenticate_read [OF assms(1-3)] conn_Write_def)

lemma authenticate_ok_elim:
  assumes "authenticate cfg c = (None, c')"
  shows "length (s5_Username cfg) < 256 \<and> length (s5_Password cfg) < 256
     \<and> c_in c = auth_request (s5_Username cfg) (s5_Password cfg) @ c_in c'"
proof -
  from assms obtain ver c1 ulen c2 u c3 plen c4 p c5 where
    r: "ReadFull 1 c = (Some ver, c1)" "ver ! 0 = 1" "ReadFull 1 c1 = (Some ulen, c2)"
      "ReadFull (unat (ulen ! 0)) c2 = (Some u, c3)" "ReadFull 1 c3 = (Some plen, c4)"
      "ReadFull (unat (plen ! 0)) c4 = (Some p, c5)"
    and ok: "string_of_bytes u = s5_Username cfg" "string_of_bytes p = s5_Password cfg"
    and w: "conn_Write [1, 0] c5 = (True, c')"
    by (auto simp: authenticate_def Let_def split: prod.splits option.splits if_splits bool.splits)
  have "read_lp c1 = (Some u, c3)" and "read_lp c3 = (Some p, c5)"
    using r by (simp_all add: read_lp_def)
  then have u: "length u < 256" "c_in c1 = enc_lp u @ c_in c3" and p: "length p < 256" "c_in c3 = enc_lp p @ c_in c5"
    unfolding lp.frame_iff by simp_all
  moreover have "c_in c = 1 # c_in c1" using r(1,2) unfolding ReadFull_1_iff by auto
  moreover have "c_in c' = c_in c5" using w by (auto simp: conn_Write_def split: if_splits)
  moreover have "u = bytes_of_string (s5_Username cfg)" "p = bytes_of_string (s5_Password cfg)"
    by (simp_all add: ok [symmetric])
  ultimately show ?thesis by (simp add: auth_request_def)
qed

section \<open>Destinations\<close>

text \<open>The addresses a request can name, their encoding and the text given to the dialler.\<close>

datatype dest = DestIPv4 bytes | DestDomain string | DestIPv6 bytes

fun dest_type :: "dest \<Rightarrow> byte" where
  "dest_type (DestIPv4 _) = addrIPv4"
| "dest_type (DestDomain _) = addrDomain"
| "dest_type (DestIPv6 _) = addrIPv6"

fun valid_dest :: "dest \<Rightarrow> bool" where
  "valid_dest (DestIPv4 bs) = (length bs = 4)"
| "valid_dest (DestDomain d) = (length d < 256)"
| "valid_dest (DestIPv6 bs) = (length bs = 16)"

fun dest_bytes :: "dest \<Rightarrow> bytes" where
  "dest_bytes (DestIPv4 bs) = bs"
| "dest_bytes (DestDomain d) = enc_lp (bytes_of_string d)"
| "dest_bytes (DestIPv6 bs) = bs"

fun dest_text :: "dest \<Rightarrow> nat \<Rightarrow> string" where
  "dest_text (DestIPv4 bs) p = IP_String bs @ '':'' @ itoa_nat p"
| "dest_text (DestDomain d) p = d @ '':'' @ itoa_nat p"
| "dest_text (DestIPv6 bs) p = ''['' @ IP_String bs @ '']:'' @ itoa_nat p"

definition port_bytes :: "nat \<Rightarrow> bytes" where
  "port_bytes p = [word_of_nat (p div 256), word_of_nat (p mod 256)]"

lemma port_of_port_bytes [wire]: "p < 65536 \<Longrightarrow> port_of (port_bytes p) = p"
  by (simp add: port_of_def port_bytes_def unat_word_of_nat8)

lemma length_port_bytes [simp]: "length (port_bytes p) = 2"
  by (simp add: port_bytes_def)

lemma port_bytes_port_of:
  assumes "length bs = 2"
  shows "port_bytes (port_of bs) = bs \<and> port_of bs < 65536"
proof -
  obtain a b where bs: "bs = [a, b]" using assms by (auto simp: length_Suc_conv eval_nat_numeral)
  have "unat a < 256" and "unat b < 256" by (rule unat_byte_less)+
  then show ?thesis by (simp add: bs port_of_def port_bytes_def)
qed

lemma readAddress_domain:
  "readAddress addrDomain c =
     (case read_lp c of
        (None, c2) \<Rightarrow> (None, c2)
      | (Some domain, c2) \<Rightarrow>
          (case ReadFull 2 c2 of
             (None, c3) \<Rightarrow> (None, c3)
           | (Some portBuf, c3) \<Rightarrow> (Some (string_of_bytes domain @ '':'' @ itoa_nat (port_of portBuf)), c3)))"
  by (simp add: readAddress_def read_lp_def split: prod.splits option.splits)

lemma readAddress_complete:
  assumes "valid_dest d" and "p < 65536" and "c_in c = dest_bytes d @ port_bytes p @ r"
  shows "readAddress (dest_type d) c = (Some (dest_text d p), c\<lparr>c_in := r\<rparr>)"
proof -
  have port: "ReadFull 2 (c\<lparr>c_in := port_bytes p @ r\<rparr>) = (Some (port_bytes p), c\<lparr>c_in := r\<rparr>)"
    using ReadFull_append [of "c\<lparr>c_in := port_bytes p @ r\<rparr>" "port_bytes p" r 2] by simp
  show ?thesis
  proof (cases d)
    case (DestIPv4 bs)
    then have "ReadFull 4 c = (Some bs, c\<lparr>c_in := port_bytes p @ r\<rparr>)"
      using assms by (intro ReadFull_append) simp_all
    then show ?thesis using DestIPv4 assms(2) port by (simp add: readAddress_def port_of_port_bytes)
  next
    case (DestDomain s)
    then have "read_lp c = (Some (bytes_of_string s), c\<lparr>c_in := port_bytes p @ r\<rparr>)"
      using assms by (intro lp.complete) simp_all
    then show ?thesis using DestDomain assms(2) port by (simp add: readAddress_domain port_of_port_bytes)
  next
    case (DestIPv6 bs)
    then have "ReadFull 16 c = (Some bs, c\<lparr>c_in := port_bytes p @ r\<rparr>)"
      using assms by (intro ReadFull_append) simp_all
    then show ?thesis using DestIPv6 assms(2) port by (simp add: readAddress_def port_of_port_bytes)
  qed
qed

lemma readAddress_sound:
  assumes "readAddress t c = (Some a, c')"
  shows "\<exists>d p. dest_type d = t \<and> valid_dest d \<and> p < 65536 \<and> a = dest_text d p
     \<and> c_in c = dest_bytes d @ port_bytes p @ c_in c'"
proof -
  consider "t = addrIPv4" | "t = addrDomain" | "t = addrIPv6"
    using assms by (auto simp: readAddress_def split: if_splits)
  then show ?thesis
  proof cases
    case 1
    with assms obtain buf c1 pb where r: "ReadFull 4 c = (Some buf, c1)" "ReadFull 2 c1 = (Some pb, c')"
      and a: "a = IP_String buf @ '':'' @ itoa_nat (port_of pb)"
      by (auto simp: readAddress_def split: prod.splits option.splits)
    then show ?thesis using 1 port_bytes_port_of [of pb]
      by (intro exI [of _ "DestIPv4 buf"] exI [of _ "port_of pb"]) (auto simp: raw.frame_iff)
  next
    case 2
    with assms obtain dom c1 pb where r: "read_lp c = (Some dom, c1)" "ReadFull 2 c1 = (Some pb, c')"
      and a: "a = string_of_bytes dom @ '':'' @ itoa_nat (port_of pb)"
      by (auto simp: readAddress_domain split: prod.splits option.splits)
    then show ?thesis using 2 port_bytes_port_of [of pb]
      by (intro exI [of _ "DestDomain (string_of_bytes dom)"] exI [of _ "port_of pb"])
        (auto simp: raw.frame_iff lp.frame_iff)
  next
    case 3
    with assms obtain buf c1 pb where r: "ReadFull 16 c = (Some buf, c1)" "ReadFull 2 c1 = (Some pb, c')"
      and a: "a = ''['' @ IP_String buf @ '']:'' @ itoa_nat (port_of pb)"
      by (auto simp: readAddress_def split: prod.splits option.splits)
    then show ?thesis using 3 port_bytes_port_of [of pb]
      by (intro exI [of _ "DestIPv6 buf"] exI [of _ "port_of pb"]) (auto simp: raw.frame_iff)
  qed
qed

lemma ReadFull_frame: "ReadFull n c = (x, c') \<Longrightarrow> c_out c' = c_out c \<and> c_writes c' = c_writes c"
  by (auto simp: ReadFull_def split: if_splits)

lemma readAddress_frame:
  "readAddress t c = (x, c') \<Longrightarrow> c_out c' = c_out c \<and> c_writes c' = c_writes c"
  by (auto simp: readAddress_def split: if_splits prod.splits option.splits dest!: ReadFull_frame)

section \<open>Requests\<close>

text \<open>Every CONNECT reply is a well-formed RFC 1928 frame: the ATYP octet agrees with
  the number of address octets that follow, whatever address type the client asked for.\<close>

theorem reply_is_well_formed:
  "\<exists>atyp addr. reply_bytes code t = [socks5Version, code, 0, atyp] @ addr @ [0, 0]
     \<and> (atyp = addrIPv4 \<and> length addr = 4 \<or> atyp = addrIPv6 \<and> length addr = 16)"
  by (simp add: reply_bytes_def)

definition connect_request :: "dest \<Rightarrow> nat \<Rightarrow> bytes" where
  "connect_request d p = [socks5Version, cmdConnect, 0, dest_type d] @ dest_bytes d @ port_bytes p"

lemma processRequest_header:
  assumes "c_in c = [v, cmd, rsv, t] @ r"
  shows "ReadFull 4 c = (Some [v, cmd, rsv, t], c\<lparr>c_in := r\<rparr>)"
  by (rule ReadFull_append) (use assms in simp_all)

lemma dest_type_supported: "dest_type d \<in> {addrIPv4, addrDomain, addrIPv6}"
  by (cases d) simp_all

text \<open>A complete request, up to the dialler's answer.\<close>

lemma processRequest_connect:
  assumes "c_in c = connect_request d p @ r" and "valid_dest d" and "p < 65536"
  shows "processRequest dial cancelled c =
     (let c2 = c\<lparr>c_in := r\<rparr>; a = dest_text d p in
      case dial a of
        None \<Rightarrow> \<lparr>rr_err = Some ConnectToDestination,
                  rr_conn = snd (sendReply replyHostUnreachable (dest_type d) c2),
                  rr_dialled = Some a, rr_dest = None\<rparr>
      | Some destConn \<Rightarrow>
          (case sendReply replySuccess (dest_type d) c2 of
             (False, c3) \<Rightarrow> \<lparr>rr_err = Some SendReply, rr_conn = c3, rr_dialled = Some a,
                             rr_dest = Some (destConn\<lparr>c_closed := True\<rparr>)\<rparr>
           | (True, c3) \<Rightarrow>
               (let c4 = snd (SetDeadline NoDeadline c3); (c5, d5) = relay cancelled c4 destConn
                in \<lparr>rr_err = None, rr_conn = c5, rr_dialled = Some a,
                    rr_dest = Some (d5\<lparr>c_closed := True\<rparr>)\<rparr>)))"
proof -
  have h: "ReadFull 4 c = (Some [socks5Version, cmdConnect, 0, dest_type d],
      c\<lparr>c_in := dest_bytes d @ port_bytes p @ r\<rparr>)"
    by (rule processRequest_header) (use assms(1) in \<open>simp add: connect_request_def\<close>)
  have a: "readAddress (dest_type d) (c\<lparr>c_in := dest_bytes d @ port_bytes p @ r\<rparr>)
      = (Some (dest_text d p), c\<lparr>c_in := r\<rparr>)"
    using readAddress_complete [of d p "c\<lparr>c_in := dest_bytes d @ port_bytes p @ r\<rparr>" r] assms by simp
  show ?thesis
    using dest_type_supported [of d]
    by (simp add: processRequest_def h a Let_def cong: option.case_cong prod.case_cong)
qed

text \<open>C13: for a complete CONNECT request whose destination can be dialled, the client gets
  exactly one success reply followed by everything the destination sends, the destination
  gets exactly the bytes the client sent after its request, and the establishment
  deadline is lifted before the payload is relayed.\<close>

theorem connect_tunnels_payload:
  assumes "c_in c = connect_request d p @ payload" and "valid_dest d" and "p < 65536"
    and "dial (dest_text d p) = Some destConn" and "2 \<le> c_writes c" and "1 \<le> c_writes destConn"
    and "c_deadline_ok c"
  shows "\<exists>destConn'. processRequest dial False c =
       \<lparr>rr_err = None, rr_conn = c\<lparr>c_in := [], c_out := c_out c @ reply_bytes replySuccess (dest_type d) @ c_in destConn,
          c_writes := c_writes c - (if c_in destConn = [] then 1 else 2),
          c_deadline := NoDeadline, c_write_closed := True\<rparr>,
        rr_dialled = Some (dest_text d p), rr_dest = Some destConn'\<rparr>
     \<and> c_out destConn' = c_out destConn @ payload \<and> c_closed destConn'"
proof -
  define c3 where "c3 = c\<lparr>c_in := payload, c_out := c_out c @ reply_bytes replySuccess (dest_type d),
    c_writes := c_writes c - 1\<rparr>"
  have w: "sendReply replySuccess (dest_type d) (c\<lparr>c_in := payload\<rparr>) = (True, c3)"
    using assms(5) by (simp add: sendReply_def conn_Write_ok c3_def)
  have dl: "SetDeadline NoDeadline c3 = (True, c3\<lparr>c_deadline := NoDeadline\<rparr>)"
    using assms(7) by (simp add: SetDeadline_def c3_def)
  have "0 < c_writes c3" and "0 < c_writes destConn" using assms(5,6) by (simp_all add: c3_def)
  then show ?thesis
    unfolding processRequest_connect [OF assms(1-3)]
    by (simp add: assms(4) w dl relay_def copy_half_def conn_Write_ok Let_def) (auto simp: c3_def numeral_2_eq_2)
qed

definition idle_conn :: "bytes \<Rightarrow> conn" where
  "idle_conn bs = \<lparr>c_in = bs, c_out = [], c_writes = 9, c_deadline = NoDeadline, c_deadline_ok = True,
     c_write_closed = False, c_closed = False\<rparr>"

theorem connect_tunnels_payload_witness:
  "\<exists>d'. processRequest (\<lambda>_. Some (idle_conn [7, 8])) False
          (idle_conn (connect_request (DestDomain ''a.b'') 443 @ [1, 2, 3]))
     = \<lparr>rr_err = None, rr_conn = (idle_conn [])\<lparr>c_out := [5, 0, 0, 1, 0, 0, 0, 0, 0, 0, 7, 8], c_writes := 7,
          c_write_closed := True\<rparr>,
        rr_dialled = Some ''a.b:443'', rr_dest = Some d'\<rparr>
      \<and> c_out d' = [1, 2, 3]"
proof -
  have dt: "itoa_nat 443 = ''443''" by code_simp
  have r: "reply_bytes replySuccess addrDomain = [5, 0, 0, 1, 0, 0, 0, 0, 0, 0]" by code_simp
  show ?thesis
    using connect_tunnels_payload [of "idle_conn (connect_request (DestDomain ''a.b'') 443 @ [1, 2, 3])"
        "DestDomain ''a.b''" 443 "[1, 2, 3]" "\<lambda>_. Some (idle_conn [7, 8])" "idle_conn [7, 8]"]
    by (simp add: idle_conn_def dt r) blast
qed

text \<open>The reply codes of the failures, by error.\<close>

fun failure_reply :: "s5_error \<Rightarrow> byte option" where
  "failure_reply (UnsupportedCommand _) = Some replyCommandNotSupported"
| "failure_reply (UnsupportedAddressType _) = Some replyAddressNotSupported"
| "failure_reply ReadAddress = Some replyGeneralFailure"
| "failure_reply ConnectToDestination = Some replyHostUnreachable"
| "failure_reply _ = None"

lemma sendReply_out: "0 < c_writes c \<Longrightarrow> c_out (snd (sendReply code t c)) = c_out c @ reply_bytes code t"
  by (simp add: sendReply_def conn_Write_ok)



section \<open>Connections\<close>

lemma handleConnection_dialled:
  assumes "rr_dialled (handleConnection cfg dial cancelled c) = Some a"
  obtains c1 c2 where "SetDeadline (Armed (s5_Timeout cfg)) c = (True, c1)" "handshake cfg c1 = (None, c2)"
    "auth_required cfg \<Longrightarrow> \<exists>c3. authenticate cfg c2 = (None, c3)"
  using assms that
  by (auto simp: handleConnection_def finish_def failed_request_def split: prod.splits option.splits if_splits bool.splits)

text \<open>C8: when a user name or a password is configured, no destination is ever dialled for a
  connection unless its input starts with a greeting that offers username/password and
  the request carrying exactly the configured credentials.\<close>

theorem dial_requires_credentials:
  assumes "rr_dialled (handleConnection cfg dial cancelled c) = Some a" and "auth_required cfg"
  shows "\<exists>methods rest. length methods < 256 \<and> authPassword \<in> set methods
     \<and> c_in c = [socks5Version, word_of_nat (length methods)] @ methods
          @ auth_request (s5_Username cfg) (s5_Password cfg) @ rest"
proof -
  obtain c1 c2 where d: "SetDeadline (Armed (s5_Timeout cfg)) c = (True, c1)" and h: "handshake cfg c1 = (None, c2)"
    and au: "auth_required cfg \<Longrightarrow> \<exists>c3. authenticate cfg c2 = (None, c3)"
    using handleConnection_dialled [OF assms(1)] by blast
  obtain c3 where "authenticate cfg c2 = (None, c3)" using au assms(2) by blast
  then have "c_in c2 = auth_request (s5_Username cfg) (s5_Password cfg) @ c_in c3"
    using authenticate_ok_elim by blast
  moreover have "c_in c1 = c_in c" using d by (auto simp: SetDeadline_def split: if_splits)
  moreover have "required_method cfg = authPassword" using assms(2) by (simp add: required_method_def)
  ultimately show ?thesis using handshake_ok_elim [OF h] by metis
qed

definition admin_cfg :: s5_config where
  "admin_cfg = \<lparr>s5_ListenAddr = ''127.0.0.1:1080'', s5_Username = ''u'', s5_Password = ''p'', s5_Timeout = 30 * second\<rparr>"

theorem dial_requires_credentials_witness:
  "\<exists>methods rest. authPassword \<in> set methods
     \<and> [5, 1, 2, 1, 1, 117, 1, 112, 5, 1, 0, 1, 10, 0, 0, 1, 0, 80] =
         [socks5Version, word_of_nat (length methods)] @ methods @ auth_request ''u'' ''p'' @ rest"
proof -
  let ?c = "idle_conn [5, 1, 2, 1, 1, 117, 1, 112, 5, 1, 0, 1, 10, 0, 0, 1, 0, 80]"
  have "rr_dialled (handleConnection admin_cfg (\<lambda>_. None) False ?c) = Some ''10.0.0.1:80''" by code_simp
  moreover have "auth_required admin_cfg" by (simp add: auth_required_def admin_cfg_def)
  ultimately show ?thesis
    using dial_requires_credentials [of admin_cfg "\<lambda>_. None" False ?c "''10.0.0.1:80''"]
    by (auto simp: idle_conn_def admin_cfg_def)
qed

text \<open>Credentials that do not fit the length octet of the username/password request
  (more than 255 bytes) are accepted by the configuration but lock every client out.\<close>

theorem long_credentials_lock_out:
  assumes "255 < length (s5_Username cfg) \<or> 255 < length (s5_Password cfg)"
  shows "rr_dialled (handleConnection cfg dial cancelled c) = None"
proof (rule ccontr)
  assume "rr_dialled (handleConnection cfg dial cancelled c) \<noteq> None"
  then obtain a where "rr_dialled (handleConnection cfg dial cancelled c) = Some a" by blast
  then obtain c1 c2 where "auth_required cfg \<Longrightarrow> \<exists>c3. authenticate cfg c2 = (None, c3)"
    using handleConnection_dialled by blast
  moreover have "auth_required cfg" using assms by (auto simp: auth_required_def)
  ultimately show False using authenticate_ok_elim assms by fastforce
qed

theorem long_credentials_lock_out_witness:
  "rr_dialled (handleConnection (admin_cfg\<lparr>s5_Password := replicate 256 (CHR ''x'')\<rparr>) (\<lambda>_. None) False
     (idle_conn [5, 1, 2])) = None"
  by (rule long_credentials_lock_out) (simp add: admin_cfg_def)

text \<open>A turn that does not end the loop, and the connection it accepts.\<close>

definition live_turn :: "accept_turn \<Rightarrow> bool" where
  "live_turn t \<longleftrightarrow> \<not> at_done t \<and> \<not> (at_deadline_ok t \<and> at_accept t = AcceptError \<and> at_done_after t)"

definition accepted :: "accept_turn \<Rightarrow> conn list" where
  "accepted t = (if at_deadline_ok t then (case at_accept t of Accepted c \<Rightarrow> [c] | _ \<Rightarrow> []) else [])"

text \<open>The accept loop hands every accepted connection to a handler in order, survives
  accept errors and timeouts, and accepts nothing more once the server is stopped.\<close>

theorem acceptLoop_hands_over:
  "acceptLoop ts = (concat (map accepted (takeWhile live_turn ts)), \<not> list_all live_turn ts)"
  by (induction ts) (auto simp: live_turn_def accepted_def split: accept_outcome.splits)

section \<open>Witnesses\<close>

theorem handshake_negotiates_witness:
  "handshake admin_cfg (idle_conn [5, 2, 0, 2, 9])
     = (None, (idle_conn [9])\<lparr>c_out := [5, 2], c_writes := 8\<rparr>)"
  using handshake_negotiates [of "idle_conn [5, 2, 0, 2, 9]" "[0, 2]" "[9]" admin_cfg]
  by (simp add: idle_conn_def required_method_def auth_required_def admin_cfg_def)

theorem authenticate_iff_credentials_witness:
  "authenticate admin_cfg (idle_conn [1, 1, 117, 1, 112, 9])
     = (None, (idle_conn [9])\<lparr>c_out := [1, 0], c_writes := 8\<rparr>)"
proof -
  have "auth_request ''u'' ''p'' = [1, 1, 117, 1, 112]" by code_simp
  then show ?thesis
    using authenticate_iff_credentials [of "idle_conn [1, 1, 117, 1, 112, 9]" "''u''" "''p''" "[9]" admin_cfg]
    by (simp add: idle_conn_def admin_cfg_def)
qed

end
