(* ===== verification/Socks5Lifecycle.thy ===== *)
theory Socks5Lifecycle
  imports Socks5
begin

text \<open>
  Starting and stopping the SOCKS5 server of \<open>pkg/socks5/server.go\<close>: the accept loop, the handlers,
  the wait group and \<open>Stop\<close> as a transition system.  What a handler does with its connection is the
  subject of \<open>Socks5\<close>; here it is in one of three phases.  Time is left out: a step that a deadline
  forces is always enabled.
\<close>

section \<open>States and steps\<close>

datatype loop_phase = NotStarted | AtTop | InAccept | LoopDone

text \<open>\<open>Establishing\<close>: up to the reply to the request, under the connection deadline; \<open>Relaying\<close>: watched
  by the goroutine that closes both ends when the context is done; \<open>Closing\<close>: \<open>closeGracefully\<close>.\<close>

datatype handler_phase = Establishing | Relaying | Closing

datatype stop_phase = NotCalled | Waiting | StopDone

record server_run =
  sv_cancelled :: bool
  sv_listening :: bool
  sv_loop :: loop_phase
  sv_handlers :: "handler_phase multiset"
  sv_wg :: nat
  sv_stop :: stop_phase

definition new_server :: server_run where
  "new_server =
     \<lparr>sv_cancelled = False, sv_listening = False, sv_loop = NotStarted, sv_handlers = {#}, sv_wg = 0, sv_stop = NotCalled\<rparr>"

text \<open>The accept loop: the context is looked at before the listener is asked, and once more when it
  fails; a failure to set the accept deadline and a time-out go back to the top.\<close>

inductive loop_step :: "server_run \<Rightarrow> server_run \<Rightarrow> bool" where
  top_ends: "sv_loop s = AtTop \<Longrightarrow> sv_cancelled s \<Longrightarrow> loop_step s (s\<lparr>sv_loop := LoopDone, sv_wg := sv_wg s - 1\<rparr>)"
| top_goes_on: "sv_loop s = AtTop \<Longrightarrow> \<not> sv_cancelled s \<Longrightarrow> loop_step s (s\<lparr>sv_loop := InAccept\<rparr>)"
| retry: "sv_loop s = InAccept \<Longrightarrow> loop_step s (s\<lparr>sv_loop := AtTop\<rparr>)"
| accept_ends: "sv_loop s = InAccept \<Longrightarrow> sv_cancelled s \<Longrightarrow> loop_step s (s\<lparr>sv_loop := LoopDone, sv_wg := sv_wg s - 1\<rparr>)"
| accepted: "sv_loop s = InAccept \<Longrightarrow>
    loop_step s (s\<lparr>sv_loop := AtTop, sv_wg := Suc (sv_wg s), sv_handlers := add_mset Establishing (sv_handlers s)\<rparr>)"

text \<open>A handler: the request is granted, it fails or its deadline passes; the relay ends because the
  peers are done or because the watcher has closed both ends; the connection is drained and closed.\<close>

inductive handler_step :: "server_run \<Rightarrow> server_run \<Rightarrow> bool" where
  granted: "Establishing \<in># sv_handlers s \<Longrightarrow>
    handler_step s (s\<lparr>sv_handlers := add_mset Relaying (sv_handlers s - {#Establishing#})\<rparr>)"
| failed: "Establishing \<in># sv_handlers s \<Longrightarrow>
    handler_step s (s\<lparr>sv_handlers := add_mset Closing (sv_handlers s - {#Establishing#})\<rparr>)"
| relay_ends: "Relaying \<in># sv_handlers s \<Longrightarrow>
    handler_step s (s\<lparr>sv_handlers := add_mset Closing (sv_handlers s - {#Relaying#})\<rparr>)"
| closed: "Closing \<in># sv_handlers s \<Longrightarrow>
    handler_step s (s\<lparr>sv_handlers := sv_handlers s - {#Closing#}, sv_wg := sv_wg s - 1\<rparr>)"

text \<open>\<open>Start\<close> and \<open>Stop\<close>, each called once by the client: \<open>Stop\<close> cancels, closes the listener and waits.\<close>

inductive server_step :: "server_run \<Rightarrow> server_run \<Rightarrow> bool" where
  start: "sv_loop s = NotStarted \<Longrightarrow> sv_stop s = NotCalled \<Longrightarrow>
    server_step s (s\<lparr>sv_listening := True, sv_loop := AtTop, sv_wg := Suc (sv_wg s)\<rparr>)"
| stop: "sv_stop s = NotCalled \<Longrightarrow>
    server_step s (s\<lparr>sv_cancelled := True, sv_listening := False, sv_stop := Waiting\<rparr>)"
| stop_returns: "sv_stop s = Waiting \<Longrightarrow> sv_wg s = 0 \<Longrightarrow> server_step s (s\<lparr>sv_stop := StopDone\<rparr>)"
| loop: "loop_step s s' \<Longrightarrow> server_step s s'"
| handler: "handler_step s s' \<Longrightarrow> server_step s s'"

inductive_cases server_stepE: "server_step s s'"
inductive_cases loop_stepE: "loop_step s s'"
inductive_cases handler_stepE: "handler_step s s'"

abbreviation server_runs :: "server_run \<Rightarrow> server_run \<Rightarrow> bool" where
  "server_runs \<equiv> server_step\<^sup>*\<^sup>*"

section \<open>Invariant\<close>

text \<open>The wait group counts the accept loop and the handlers; \<open>Stop\<close> has cancelled before it waits, and
  has not returned before all are gone.\<close>

definition loop_alive :: "server_run \<Rightarrow> bool" where
  "loop_alive s \<longleftrightarrow> sv_loop s \<in> {AtTop, InAccept}"

definition server_inv :: "server_run \<Rightarrow> bool" where
  "server_inv s \<longleftrightarrow>
     sv_wg s = size (sv_handlers s) + (if loop_alive s then 1 else 0)
     \<and> (sv_cancelled s \<longleftrightarrow> sv_stop s \<noteq> NotCalled)
     \<and> (sv_cancelled s \<longrightarrow> \<not> sv_listening s)
     \<and> (sv_stop s = StopDone \<longrightarrow> sv_wg s = 0)"

lemma loop_inv: "loop_step s s' \<Longrightarrow> server_inv s \<Longrightarrow> server_inv s'"
  by (erule loop_stepE) (auto simp: server_inv_def loop_alive_def)

lemma handler_inv: "handler_step s s' \<Longrightarrow> server_inv s \<Longrightarrow> server_inv s'"
  by (erule handler_stepE) (auto simp: server_inv_def loop_alive_def size_Diff_singleton dest: multi_member_split)

lemma server_step_inv: "server_step s s' \<Longrightarrow> server_inv s \<Longrightarrow> server_inv s'"
  by (erule server_stepE; (erule loop_inv handler_inv)?) (auto simp: server_inv_def loop_alive_def)

lemma server_runs_inv: "server_runs s s' \<Longrightarrow> server_inv s \<Longrightarrow> server_inv s'"
  by (induction rule: rtranclp_induct) (auto intro: server_step_inv)

lemma new_server_inv: "server_inv new_server"
  by (simp add: server_inv_def new_server_def loop_alive_def)

section \<open>Stopping\<close>

text \<open>What is left to do: a measure that every step decreases once \<open>Stop\<close> has been called.\<close>

fun handler_todo :: "handler_phase \<Rightarrow> nat" where
  "handler_todo Establishing = 3"
| "handler_todo Relaying = 2"
| "handler_todo Closing = 1"

fun loop_todo :: "loop_phase \<Rightarrow> nat" where
  "loop_todo InAccept = 5"
| "loop_todo AtTop = 1"
| "loop_todo _ = 0"

definition server_todo :: "server_run \<Rightarrow> nat" where
  "server_todo s = loop_todo (sv_loop s) + (\<Sum>h \<in># sv_handlers s. handler_todo h) + (if sv_stop s = Waiting then 1 else 0)"

lemma loop_step_todo:
  "loop_step s s' \<Longrightarrow> sv_cancelled s \<Longrightarrow> server_todo s' < server_todo s \<and> sv_stop s' = sv_stop s"
  by (erule loop_stepE) (simp_all add: server_todo_def)

lemma handler_step_todo:
  "handler_step s s' \<Longrightarrow> server_todo s' < server_todo s \<and> sv_stop s' = sv_stop s"
  by (erule handler_stepE; drule multi_member_split; elim exE) (simp_all add: server_todo_def)

lemma step_todo:
  assumes "server_step s s'" and "sv_stop s \<noteq> NotCalled" and "server_inv s"
  shows "server_todo s' < server_todo s \<and> sv_stop s' \<noteq> NotCalled"
  using assms(1)
proof cases
  case stop_returns
  then show ?thesis by (simp add: server_todo_def)
next
  case loop
  with loop_step_todo assms(2,3) show ?thesis by (simp add: server_inv_def)
next
  case handler
  with handler_step_todo assms(2) show ?thesis by simp
qed (use assms(2) in simp_all)

lemma step_enabled:
  assumes "server_inv s" and "sv_stop s = Waiting"
  shows "\<exists>s'. server_step s s'"
proof (cases "sv_wg s = 0")
  case True
  with assms(2) show ?thesis by (blast intro: server_step.stop_returns)
next
  case False
  then consider "loop_alive s" | h where "h \<in># sv_handlers s"
    using assms(1) by (cases "loop_alive s"; cases "sv_handlers s") (auto simp: server_inv_def)
  then show ?thesis
  proof cases
    case 1
    then consider "sv_loop s = AtTop" | "sv_loop s = InAccept" by (auto simp: loop_alive_def)
    then show ?thesis by cases (blast intro: server_step.loop loop_step.intros)+
  next
    case 2
    then show ?thesis by (cases h) (blast intro: server_step.handler handler_step.intros)+
  qed
qed

text \<open>C29: When \<open>Stop\<close> has returned, the listener is closed and no accept loop and no handler of the server
  is left; until then the wait group counts exactly those.\<close>

theorem stopped_server_is_quiet:
  assumes "server_runs new_server s"
  shows "sv_wg s = size (sv_handlers s) + (if loop_alive s then 1 else 0)
     \<and> (sv_stop s = StopDone \<longrightarrow> sv_handlers s = {#} \<and> \<not> loop_alive s \<and> \<not> sv_listening s)"
  using server_runs_inv [OF assms new_server_inv] by (auto simp: server_inv_def split: if_splits)


definition waiting_server :: server_run where
  "waiting_server = new_server\<lparr>sv_listening := False, sv_loop := AtTop, sv_wg := 1, sv_cancelled := True, sv_stop := Waiting\<rparr>"

lemma waiting_server_reachable: "server_runs new_server waiting_server"
proof -
  let ?s = "new_server\<lparr>sv_listening := True, sv_loop := AtTop, sv_wg := 1\<rparr>"
  have "server_step new_server ?s" using server_step.start [of new_server] by (simp add: new_server_def)
  moreover have "server_step ?s waiting_server"
    using server_step.stop [of ?s] by (simp add: new_server_def waiting_server_def)
  ultimately show ?thesis by simp
qed

theorem stopped_server_is_quiet_witness:
  "sv_wg waiting_server = 1 \<and> loop_alive waiting_server"
  using stopped_server_is_quiet [OF waiting_server_reachable] by (simp add: waiting_server_def loop_alive_def new_server_def)


end
