(* ===== verification/Go_Base64.thy ===== *)
theory Go_Base64
  imports Go_Strings
begin

text \<open>
  \<open>encoding/base64\<close>: \<open>DecodeString\<close> for the standard, URL-safe and unpadded alphabets.
  As in Go, carriage returns and newlines are skipped anywhere, the trailing bits of a
  last group are not checked, and nothing may follow the padding.  The encoder is the
  reference for the round trip.
\<close>

datatype base64_encoding = StdEncoding | URLEncoding | RawStdEncoding

definition sextet_char :: "base64_encoding \<Rightarrow> nat \<Rightarrow> char" where
  "sextet_char e n =
     (if n < 26 then char_of (65 + n)
      else if n < 52 then char_of (71 + n)
      else if n < 62 then char_of (n - 4)
      else if n = 62 then (if e = URLEncoding then CHR ''-'' else CHR ''+'')
      else (if e = URLEncoding then CHR ''_'' else CHR ''/''))"

definition sextet_val :: "base64_encoding \<Rightarrow> char \<Rightarrow> nat option" where
  "sextet_val e c =
     (let n = (of_char c :: nat) in
      if 65 \<le> n \<and> n \<le> 90 then Some (n - 65)
      else if 97 \<le> n \<and> n \<le> 122 then Some (n - 71)
      else if 48 \<le> n \<and> n \<le> 57 then Some (n + 4)
      else if c = (if e = URLEncoding then CHR ''-'' else CHR ''+'') then Some 62
      else if c = (if e = URLEncoding then CHR ''_'' else CHR ''/'') then Some 63
      else None)"

definition padded :: "base64_encoding \<Rightarrow> bool" where
  "padded e \<longleftrightarrow> e \<noteq> RawStdEncoding"

definition byte1 :: "nat \<Rightarrow> nat \<Rightarrow> char" where "byte1 a b = char_of (a * 4 + b div 16)"
definition byte2 :: "nat \<Rightarrow> nat \<Rightarrow> char" where "byte2 b c = char_of (b mod 16 * 16 + c div 4)"
definition byte3 :: "nat \<Rightarrow> nat \<Rightarrow> char" where "byte3 c d = char_of (c mod 4 * 64 + d)"

fun decode_quads :: "base64_encoding \<Rightarrow> string \<Rightarrow> string option" where
  "decode_quads e [] = Some []"
| "decode_quads e [a] = None"
| "decode_quads e [a, b] =
     (if padded e then None
      else (case (sextet_val e a, sextet_val e b) of
              (Some va, Some vb) \<Rightarrow> Some [byte1 va vb] | _ \<Rightarrow> None))"
| "decode_quads e [a, b, c] =
     (if padded e then None
      else (case (sextet_val e a, sextet_val e b, sextet_val e c) of
              (Some va, Some vb, Some vc) \<Rightarrow> Some [byte1 va vb, byte2 vb vc] | _ \<Rightarrow> None))"
| "decode_quads e (a # b # c # d # rest) =
     (case (sextet_val e a, sextet_val e b) of
        (Some va, Some vb) \<Rightarrow>
          (if padded e \<and> c = CHR ''='' \<and> d = CHR ''='' then (if rest = [] then Some [byte1 va vb] else None)
           else
             (case sextet_val e c of
                None \<Rightarrow> None
              | Some vc \<Rightarrow>
                  (if padded e \<and> d = CHR ''='' then
                     (if rest = [] then Some [byte1 va vb, byte2 vb vc] else None)
                   else
                     (case sextet_val e d of
                        None \<Rightarrow> None
                      | Some vd \<Rightarrow>
                          map_option (\<lambda>bs. byte1 va vb # byte2 vb vc # byte3 vc vd # bs) (decode_quads e rest)))))
      | _ \<Rightarrow> None)"

definition is_newline :: "char \<Rightarrow> bool" where
  "is_newline c \<longleftrightarrow> c = CHR 0x0A \<or> c = CHR 0x0D"

definition DecodeString :: "base64_encoding \<Rightarrow> string \<Rightarrow> string option" where
  "DecodeString e s = decode_quads e (filter (\<lambda>c. \<not> is_newline c) s)"

fun EncodeToString :: "base64_encoding \<Rightarrow> string \<Rightarrow> string" where
  "EncodeToString e [] = []"
| "EncodeToString e [x] =
     (let a = of_char x in
      [sextet_char e (a div 4), sextet_char e (a mod 4 * 16)] @ (if padded e then ''=='' else []))"
| "EncodeToString e [x, y] =
     (let a = of_char x; b = of_char y in
      [sextet_char e (a div 4), sextet_char e (a mod 4 * 16 + b div 16), sextet_char e (b mod 16 * 4)]
        @ (if padded e then ''='' else []))"
| "EncodeToString e (x # y # z # rest) =
     (let a = of_char x; b = of_char y; c = of_char z in
      [sextet_char e (a div 4), sextet_char e (a mod 4 * 16 + b div 16),
       sextet_char e (b mod 16 * 4 + c div 64), sextet_char e (c mod 64)] @ EncodeToString e rest)"

section \<open>Round trip\<close>

lemma sextet_char_code:
  assumes "n < 64"
  shows "(of_char (sextet_char e n) :: nat) =
     (if n < 26 then 65 + n else if n < 52 then 71 + n else if n < 62 then n - 4
      else if n = 62 then (if e = URLEncoding then 45 else 43) else (if e = URLEncoding then 95 else 47))"
  using assms by (simp add: sextet_char_def)

lemma char_eq_code: "(c = d) \<longleftrightarrow> (of_char c :: nat) = of_char d"
  by simp

lemma sextet_val_char [simp]: "n < 64 \<Longrightarrow> sextet_val e (sextet_char e n) = Some n"
  unfolding sextet_val_def Let_def char_eq_code by (auto simp: sextet_char_code)

lemma sextet_char_plain:
  assumes "n < 64"
  shows "sextet_char e n \<noteq> CHR ''=''" "\<not> is_newline (sextet_char e n)" "\<not> is_space (sextet_char e n)"
  unfolding is_newline_def is_space_def insert_iff empty_iff char_eq_code
  using assms by (auto simp: sextet_char_code split: if_splits)

lemma octet_parts:
  fixes a :: nat
  assumes "a < 256"
  shows "a div 4 < 64" "a mod 4 * 16 < 64" "a div 16 < 16" "a mod 16 * 4 < 64" "a div 64 < 4" "a mod 64 < 64"
  using assms by (simp_all add: less_mult_imp_div_less)

lemma nat_parts:
  fixes a b q r :: nat
  shows "q < 16 \<Longrightarrow> (a * 16 + q) mod 16 = q" and "r < 4 \<Longrightarrow> (b * 4 + r) div 4 = b"
    and "r < 4 \<Longrightarrow> (b * 4 + r) mod 4 = r" and "q < 16 \<Longrightarrow> (a * 16 + q) div 16 = a"
    and "b div 4 * 4 + b mod 4 = b" and "b div 16 * 16 + b mod 16 = b" and "b div 64 * 64 + b mod 64 = b"
  by simp_all

lemma sextet_sums:
  fixes x y :: char
  shows "of_char x mod 4 * 16 + of_char y div 16 < (64 :: nat)"
    "of_char x mod 16 * 4 + of_char y div 64 < (64 :: nat)"
proof -
  have 1: "(of_char y :: nat) div 16 < 16" "(of_char y :: nat) div 64 < 4" by (simp_all add: octet_parts)
  have 2: "(of_char x :: nat) mod 4 < 4" "(of_char x :: nat) mod 16 < 16" by simp_all
  show "of_char x mod 4 * 16 + of_char y div 16 < (64 :: nat)" using 1(1) 2(1) by linarith
  show "of_char x mod 16 * 4 + of_char y div 64 < (64 :: nat)" using 1(2) 2(2) by linarith
qed

lemma byte1_encoded:
  assumes "q < 16"
  shows "byte1 (of_char x div 4) (of_char x mod 4 * 16 + q) = x"
  by (simp only: byte1_def nat_parts(4) [OF assms] nat_parts(5) char_of_char)

lemma byte2_encoded:
  assumes "r < 4"
  shows "byte2 (a * 16 + of_char y div 16) (of_char y mod 16 * 4 + r) = y"
proof -
  have "(of_char y :: nat) div 16 < 16" by (simp add: octet_parts)
  then show ?thesis by (simp only: byte2_def nat_parts(1) nat_parts(2) [OF assms] nat_parts(6) char_of_char)
qed

lemma byte3_encoded: "byte3 (b * 4 + of_char z div 64) (of_char z mod 64) = z"
proof -
  have "(of_char z :: nat) div 64 < 4" by (simp add: octet_parts)
  then show ?thesis by (simp only: byte3_def nat_parts(3) nat_parts(7) char_of_char)
qed

lemma byte_parts:
  fixes x y z :: char
  shows "byte1 (of_char x div 4) (of_char x mod 4 * 16) = x"
    and "byte1 (of_char x div 4) (of_char x mod 4 * 16 + of_char y div 16) = x"
    and "byte2 (a * 16 + of_char y div 16) (of_char y mod 16 * 4) = y"
    and "byte2 (a * 16 + of_char y div 16) (of_char y mod 16 * 4 + of_char z div 64) = y"
    and "byte3 (b * 4 + of_char z div 64) (of_char z mod 64) = z"
  using byte1_encoded [of 0 x] byte1_encoded [of "of_char y div 16" x] byte2_encoded [of 0 a y]
    byte2_encoded [of "of_char z div 64" a y] byte3_encoded [of b z]
  by (simp_all add: octet_parts)

lemma decode_quads_Encode: "decode_quads e (EncodeToString e s) = Some s"
proof (induction e s rule: EncodeToString.induct)
  case (2 e x)
  show ?case by (simp add: Let_def octet_parts sextet_sums sextet_char_plain byte_parts)
next
  case (3 e x y)
  show ?case
    by (simp add: Let_def octet_parts sextet_sums sextet_char_plain byte_parts)
next
  case (4 e x y z rest)
  show ?case
    by (simp add: Let_def octet_parts sextet_sums sextet_char_plain byte_parts 4)
qed simp

lemma pad_plain: "\<not> is_newline (CHR ''='')" "\<not> is_space (CHR ''='')"
  by (simp_all add: is_newline_def is_space_def)

lemma EncodeToString_plain: "c \<in> set (EncodeToString e s) \<Longrightarrow> \<not> is_newline c \<and> \<not> is_space c"
proof (induction e s rule: EncodeToString.induct)
  case (2 e x)
  then show ?case
    by (auto simp: Let_def octet_parts sextet_char_plain pad_plain split: if_splits)
next
  case (3 e x y)
  then show ?case
    by (auto simp: Let_def octet_parts sextet_sums sextet_char_plain pad_plain split: if_splits)
next
  case (4 e x y z rest)
  then show ?case
    by (auto simp: Let_def octet_parts sextet_sums sextet_char_plain)
qed simp

lemma EncodeToString_Nil_iff [simp]: "EncodeToString e s = [] \<longleftrightarrow> s = []"
  by (cases "(e, s)" rule: EncodeToString.cases) (simp_all add: Let_def)

lemma DecodeString_EncodeToString [simp]: "DecodeString e (EncodeToString e s) = Some s"
proof -
  have "filter (\<lambda>c. \<not> is_newline c) (EncodeToString e s) = EncodeToString e s"
    by (simp add: filter_id_conv EncodeToString_plain)
  then show ?thesis by (simp add: DecodeString_def decode_quads_Encode)
qed

text \<open>Decoding with another alphabet either fails or gives the encoded text too.\<close>

lemma sextet_val_other:
  "n < 64 \<Longrightarrow> sextet_val e' (sextet_char e n) = None \<or> sextet_val e' (sextet_char e n) = Some n"
  unfolding sextet_val_def Let_def char_eq_code by (auto simp: sextet_char_code)

lemma sextet_val_pad [simp]: "sextet_val e (CHR ''='') = None"
  by (simp add: sextet_val_def)

lemma decode_quads_other:
  "decode_quads e' (EncodeToString e s) = None \<or> decode_quads e' (EncodeToString e s) = Some s"
proof (induction e s rule: EncodeToString.induct)
  case (2 e x)
  have "sextet_val e' (sextet_char e (of_char x div 4)) \<in> {None, Some (of_char x div 4)}"
    and "sextet_val e' (sextet_char e (of_char x mod 4 * 16)) \<in> {None, Some (of_char x mod 4 * 16)}"
    using sextet_val_other by (simp_all add: octet_parts)
  then show ?case
    by (auto simp: Let_def octet_parts sextet_sums sextet_char_plain byte_parts split: option.splits)
next
  case (3 e x y)
  have "sextet_val e' (sextet_char e (of_char x div 4)) \<in> {None, Some (of_char x div 4)}"
    and "sextet_val e' (sextet_char e (of_char x mod 4 * 16 + of_char y div 16))
      \<in> {None, Some (of_char x mod 4 * 16 + of_char y div 16)}"
    and "sextet_val e' (sextet_char e (of_char y mod 16 * 4)) \<in> {None, Some (of_char y mod 16 * 4)}"
    using sextet_val_other by (simp_all add: octet_parts sextet_sums)
  then show ?case
    by (auto simp: Let_def octet_parts sextet_sums sextet_char_plain byte_parts split: option.splits)
next
  case (4 e x y z rest)
  have "sextet_val e' (sextet_char e (of_char x div 4)) \<in> {None, Some (of_char x div 4)}"
    and "sextet_val e' (sextet_char e (of_char x mod 4 * 16 + of_char y div 16))
      \<in> {None, Some (of_char x mod 4 * 16 + of_char y div 16)}"
    and "sextet_val e' (sextet_char e (of_char y mod 16 * 4 + of_char z div 64))
      \<in> {None, Some (of_char y mod 16 * 4 + of_char z div 64)}"
    and "sextet_val e' (sextet_char e (of_char z mod 64)) \<in> {None, Some (of_char z mod 64)}"
    using sextet_val_other by (simp_all add: octet_parts sextet_sums)
  with 4 show ?case
    by (auto simp: Let_def octet_parts sextet_sums sextet_char_plain byte_parts split: option.splits)
qed simp

lemma DecodeString_other:
  "DecodeString e' (EncodeToString e s) = None \<or> DecodeString e' (EncodeToString e s) = Some s"
proof -
  have "filter (\<lambda>c. \<not> is_newline c) (EncodeToString e s) = EncodeToString e s"
    by (simp add: filter_id_conv EncodeToString_plain)
  then show ?thesis by (simp add: DecodeString_def decode_quads_other)
qed

end
