(* ===== verification/Go_JSON.thy ===== *)
theory Go_JSON
  imports Go_Strings
begin

text \<open>
  \<open>encoding/json\<close>: the value grammar and \<open>Unmarshal\<close> into a structure whose fields are all
  strings, which is the only use the program makes of it.  As in Go the whole input is
  checked first; a string sets its field, \<open>null\<close> leaves it, any other value for a known
  field makes the call fail; unknown keys are ignored, a later duplicate wins, and keys
  match exactly or else case-insensitively (in ASCII).  Octets that are not valid UTF-8
  are kept (Go replaces them by U+FFFD) and nesting is not limited to 10000 levels.
\<close>

datatype json = JNull | JBool bool | JNum string | JStr string | JArr "json list" | JObj "(string \<times> json) list"

definition json_space :: "char \<Rightarrow> bool" where
  "json_space c \<longleftrightarrow> c \<in> {CHR 0x09, CHR 0x0A, CHR 0x0D, CHR 0x20}"

definition skip_ws :: "string \<Rightarrow> string" where
  "skip_ws s = dropWhile json_space s"

section \<open>Strings\<close>

definition hex_digit :: "char \<Rightarrow> nat option" where
  "hex_digit c =
     (let n = (of_char c :: nat) in
      if 48 \<le> n \<and> n \<le> 57 then Some (n - 48)
      else if 97 \<le> n \<and> n \<le> 102 then Some (n - 87)
      else if 65 \<le> n \<and> n \<le> 70 then Some (n - 55)
      else None)"

definition utf8 :: "nat \<Rightarrow> string" where
  "utf8 r =
     (if r < 128 then [char_of r]
      else if r < 2048 then [char_of (192 + r div 64), char_of (128 + r mod 64)]
      else if r < 65536 then
        [char_of (224 + r div 4096), char_of (128 + r div 64 mod 64), char_of (128 + r mod 64)]
      else
        [char_of (240 + r div 262144), char_of (128 + r div 4096 mod 64),
         char_of (128 + r div 64 mod 64), char_of (128 + r mod 64)])"

definition hex4 :: "string \<Rightarrow> nat option" where
  "hex4 s =
     (case map hex_digit (take 4 s) of
        [Some a, Some b, Some c, Some d] \<Rightarrow> Some (((a * 16 + b) * 16 + c) * 16 + d)
      | _ \<Rightarrow> None)"

definition simple_escape :: "char \<Rightarrow> char option" where
  "simple_escape c =
     (if c \<in> {CHR 0x22, CHR 0x5C, CHR ''/''} then Some c
      else if c = CHR ''b'' then Some (CHR 0x08)
      else if c = CHR ''f'' then Some (CHR 0x0C)
      else if c = CHR ''n'' then Some (CHR 0x0A)
      else if c = CHR ''r'' then Some (CHR 0x0D)
      else if c = CHR ''t'' then Some (CHR 0x09)
      else None)"

text \<open>The scalar an escape denotes and how much of the text after the first one it takes:
  a surrogate pair takes the second escape too, a lone surrogate becomes U+FFFD.\<close>

definition unicode_escape :: "nat \<Rightarrow> string \<Rightarrow> nat \<times> string" where
  "unicode_escape r rest =
     (if 55296 \<le> r \<and> r < 57344 then
        (case (r < 56320 \<and> HasPrefix rest [CHR 0x5C, CHR ''u''], hex4 (drop 2 rest)) of
           (True, Some r2) \<Rightarrow>
             (if 56320 \<le> r2 \<and> r2 < 57344
              then (65536 + (r - 55296) * 1024 + (r2 - 56320), drop 6 rest)
              else (65533, rest))
         | _ \<Rightarrow> (65533, rest))
      else (r, rest))"

lemma unicode_escape_shorter: "length (snd (unicode_escape r rest)) \<le> length rest"
  by (auto simp: unicode_escape_def split: option.splits bool.splits)

text \<open>The text after the opening quote, up to the closing one.\<close>

function json_string :: "string \<Rightarrow> (string \<times> string) option" where
  "json_string [] = None"
| "json_string (c # s) =
     (if c = CHR 0x22 then Some ([], s)
      else if (of_char c :: nat) < 32 then None
      else if c \<noteq> CHR 0x5C then map_option (\<lambda>(t, r). (c # t, r)) (json_string s)
      else
        (case s of
           [] \<Rightarrow> None
         | e # s' \<Rightarrow>
             (if e = CHR ''u'' then
                (case hex4 s' of
                   None \<Rightarrow> None
                 | Some r \<Rightarrow>
                     map_option (\<lambda>(t, rest). (utf8 (fst (unicode_escape r (drop 4 s'))) @ t, rest))
                       (json_string (snd (unicode_escape r (drop 4 s')))))
              else
                (case simple_escape e of
                   None \<Rightarrow> None
                 | Some d \<Rightarrow> map_option (\<lambda>(t, rest). (d # t, rest)) (json_string s')))))"
  by pat_completeness auto
termination
proof (relation "measure length", goal_cases)
  case (3 c s e s' r)
  have "length (snd (unicode_escape r (drop 4 s'))) \<le> length (drop 4 s')"
    by (rule unicode_escape_shorter)
  then show ?case using 3 by simp
qed auto

section \<open>Numbers\<close>

definition json_digit :: "char \<Rightarrow> bool" where "json_digit c = is_digit c"

definition json_frac :: "string \<Rightarrow> (string \<times> string) option" where
  "json_frac s =
     (if HasPrefix s ''.'' then
        (let ds = takeWhile is_digit (tl s) in
         if ds = [] then None else Some (CHR ''.'' # ds, dropWhile is_digit (tl s)))
      else Some ([], s))"

definition json_exp :: "string \<Rightarrow> (string \<times> string) option" where
  "json_exp s =
     (case s of
        [] \<Rightarrow> Some ([], s)
      | e # r \<Rightarrow>
          (if e = CHR ''e'' \<or> e = CHR ''E'' then
             (let sg = (if HasPrefix r ''+'' \<or> HasPrefix r ''-'' then take 1 r else []);
                  r' = drop (length sg) r; ds = takeWhile is_digit r' in
              if ds = [] then None else Some (e # sg @ ds, dropWhile is_digit r'))
           else Some ([], s)))"

definition json_int :: "string \<Rightarrow> (string \<times> string) option" where
  "json_int s =
     (let sg = (if HasPrefix s ''-'' then ''-'' else []); r = drop (length sg) s in
      if HasPrefix r ''0'' then Some (sg @ ''0'', tl r)
      else (let ds = takeWhile is_digit r in if ds = [] then None else Some (sg @ ds, dropWhile is_digit r)))"

definition json_number :: "string \<Rightarrow> (string \<times> string) option" where
  "json_number s =
     (case json_int s of
        None \<Rightarrow> None
      | Some (i, r1) \<Rightarrow>
          (case json_frac r1 of
             None \<Rightarrow> None
           | Some (f, r2) \<Rightarrow>
               (case json_exp r2 of None \<Rightarrow> None | Some (x, r3) \<Rightarrow> Some (i @ f @ x, r3))))"

section \<open>Values\<close>

text \<open>
  \<open>json_value n s\<close> reads a value from \<open>s\<close> (leading space skipped); \<open>json_elems\<close> and
  \<open>json_members\<close> read what follows a bracket or a comma.  Every call spends one unit of
  the first argument; a call that reads nothing is followed by one that reads a
  character, so twice the length of the input is enough.
\<close>

fun json_value :: "nat \<Rightarrow> string \<Rightarrow> (json \<times> string) option"
  and json_elems :: "nat \<Rightarrow> string \<Rightarrow> (json list \<times> string) option"
  and json_members :: "nat \<Rightarrow> string \<Rightarrow> ((string \<times> json) list \<times> string) option" where
  "json_value 0 s = None"
| "json_value (Suc n) s =
     (case skip_ws s of
        [] \<Rightarrow> None
      | c # r \<Rightarrow>
          (if c = CHR 0x22 then map_option (\<lambda>(t, r'). (JStr t, r')) (json_string r)
           else if c = CHR ''['' then
             (if HasPrefix (skip_ws r) '']'' then Some (JArr [], tl (skip_ws r))
              else map_option (\<lambda>(vs, r'). (JArr vs, r')) (json_elems n r))
           else if c = CHR ''{'' then
             (if HasPrefix (skip_ws r) ''}'' then Some (JObj [], tl (skip_ws r))
              else map_option (\<lambda>(ms, r'). (JObj ms, r')) (json_members n r))
           else if HasPrefix (c # r) ''true'' then Some (JBool True, drop 3 r)
           else if HasPrefix (c # r) ''false'' then Some (JBool False, drop 4 r)
           else if HasPrefix (c # r) ''null'' then Some (JNull, drop 3 r)
           else map_option (\<lambda>(t, r'). (JNum t, r')) (json_number (c # r))))"
| "json_elems 0 s = None"
| "json_elems (Suc n) s =
     (case json_value n s of
        None \<Rightarrow> None
      | Some (v, r) \<Rightarrow>
          (case skip_ws r of
             [] \<Rightarrow> None
           | c # r' \<Rightarrow>
               (if c = CHR '','' then map_option (\<lambda>(vs, r''). (v # vs, r'')) (json_elems n r')
                else if c = CHR '']'' then Some ([v], r')
                else None)))"
| "json_members 0 s = None"
| "json_members (Suc n) s =
     (case skip_ws s of
        [] \<Rightarrow> None
      | q # r \<Rightarrow>
          (if q \<noteq> CHR 0x22 then None
           else
             (case json_string r of
                None \<Rightarrow> None
              | Some (k, r1) \<Rightarrow>
                  (case skip_ws r1 of
                     [] \<Rightarrow> None
                   | c # r2 \<Rightarrow>
                       (if c \<noteq> CHR '':'' then None
                        else
                          (case json_value n r2 of
                             None \<Rightarrow> None
                           | Some (v, r3) \<Rightarrow>
                               (case skip_ws r3 of
                                  [] \<Rightarrow> None
                                | d # r4 \<Rightarrow>
                                    (if d = CHR '','' then
                                       map_option (\<lambda>(ms, r5). ((k, v) # ms, r5)) (json_members n r4)
                                     else if d = CHR ''}'' then Some ([(k, v)], r4)
                                     else None)))))))) "

definition json_parse :: "string \<Rightarrow> json option" where
  "json_parse s =
     (case json_value (2 * length s + 1) s of
        Some (v, r) \<Rightarrow> if skip_ws r = [] then Some v else None
      | None \<Rightarrow> None)"

section \<open>Unmarshal\<close>

text \<open>The field a key denotes: the exact name, else the first one equal up to case.\<close>

definition find_field :: "string list \<Rightarrow> string \<Rightarrow> string option" where
  "find_field fields k =
     (if k \<in> set fields then Some k else find (\<lambda>f. ToLower f = ToLower k) fields)"

text \<open>One member: the structure so far and whether every value fitted its field.\<close>

definition set_member ::
    "string list \<Rightarrow> string \<times> json \<Rightarrow> (string \<Rightarrow> string) \<times> bool \<Rightarrow> (string \<Rightarrow> string) \<times> bool" where
  "set_member fields m acc =
     (case find_field fields (fst m) of
        None \<Rightarrow> acc
      | Some f \<Rightarrow>
          (case snd m of
             JStr s \<Rightarrow> ((fst acc)(f := s), snd acc)
           | JNull \<Rightarrow> acc
           | _ \<Rightarrow> (fst acc, False)))"

text \<open>The structure is a map from field names to strings, initially empty strings.\<close>

definition Unmarshal :: "string list \<Rightarrow> string \<Rightarrow> (string \<Rightarrow> string) option" where
  "Unmarshal fields data =
     (case json_parse data of
        Some (JObj ms) \<Rightarrow>
          (case fold (set_member fields) ms (\<lambda>_. [], True) of (cfg, ok) \<Rightarrow> if ok then Some cfg else None)
      | Some JNull \<Rightarrow> Some (\<lambda>_. [])
      | _ \<Rightarrow> None)"

section \<open>Objects of plain strings\<close>

definition plain_text :: "string \<Rightarrow> bool" where
  "plain_text s \<longleftrightarrow> list_all (\<lambda>c. 32 \<le> (of_char c :: nat) \<and> c \<noteq> CHR 0x22 \<and> c \<noteq> CHR 0x5C) s"

definition json_quote :: "string \<Rightarrow> string" where
  "json_quote s = [CHR 0x22] @ s @ [CHR 0x22]"

fun members_text :: "(string \<times> string) list \<Rightarrow> string" where
  "members_text [] = []"
| "members_text [(k, v)] = json_quote k @ '':'' @ json_quote v"
| "members_text ((k, v) # ms) = json_quote k @ '':'' @ json_quote v @ '','' @ members_text ms"

definition json_object :: "(string \<times> string) list \<Rightarrow> string" where
  "json_object ms = ''{'' @ members_text ms @ ''}''"

lemma json_string_plain [wire]: "plain_text s \<Longrightarrow> json_string (s @ CHR 0x22 # r) = Some (s, r)"
  by (induction s) (auto simp: plain_text_def not_less)

lemma skip_ws_plain [wire]: "\<not> json_space c \<Longrightarrow> skip_ws (c # s) = c # s"
  by (simp add: skip_ws_def)

lemma json_punctuation [simp]:
  "\<not> json_space (CHR 0x22)" "\<not> json_space (CHR '':'')" "\<not> json_space (CHR '','')"
  "\<not> json_space (CHR ''{'')" "\<not> json_space (CHR ''}'')"
  by (simp_all add: json_space_def)

lemma json_value_plain:
  "0 < n \<Longrightarrow> plain_text s \<Longrightarrow> json_value n (CHR 0x22 # s @ CHR 0x22 # r) = Some (JStr s, r)"
  by (cases n) (simp_all add: skip_ws_plain json_string_plain)

lemma json_members_plain:
  assumes "ms \<noteq> []" and "list_all (\<lambda>(k, v). plain_text k \<and> plain_text v) ms" and "length ms < n"
  shows "json_members n (members_text ms @ CHR ''}'' # r) = Some (map (\<lambda>(k, v). (k, JStr v)) ms, r)"
  using assms
proof (induction ms arbitrary: n rule: members_text.induct)
  case (2 k v)
  then obtain m where "n = Suc m" and "0 < m" by (cases n) auto
  with 2 show ?case by (simp add: json_quote_def skip_ws_plain json_string_plain json_value_plain)
next
  case (3 k v m ms)
  from 3(4) obtain n' where n: "n = Suc n'" "0 < n'" by (cases n) auto
  have "json_members n' (members_text (m # ms) @ CHR ''}'' # r) = Some (map (\<lambda>(k, v). (k, JStr v)) (m # ms), r)"
    using 3(3,4) by (intro 3(1)) (simp_all add: n)
  with 3(3) show ?case by (simp add: n json_quote_def skip_ws_plain json_string_plain json_value_plain)
qed simp

lemma members_text_length: "2 * length ms \<le> length (members_text ms)"
  by (induction ms rule: members_text.induct) (simp_all add: json_quote_def)

lemma members_text_hd: "ms \<noteq> [] \<Longrightarrow> \<exists>t. members_text ms = CHR 0x22 # t"
  by (cases ms rule: members_text.cases) (simp_all add: json_quote_def)

theorem json_parse_object:
  assumes "ms \<noteq> []" and "list_all (\<lambda>(k, v). plain_text k \<and> plain_text v) ms"
  shows "json_parse (json_object ms) = Some (JObj (map (\<lambda>(k, v). (k, JStr v)) ms))"
proof -
  define n where "n = 2 * length (json_object ms)"
  have "length ms < n" using members_text_length [of ms] by (simp add: n_def json_object_def)
  then have m: "json_members n (members_text ms @ CHR ''}'' # []) = Some (map (\<lambda>(k, v). (k, JStr v)) ms, [])"
    by (rule json_members_plain [OF assms])
  obtain t where t: "members_text ms = CHR 0x22 # t" using members_text_hd [OF assms(1)] by blast
  have "json_value (Suc n) (json_object ms) = Some (JObj (map (\<lambda>(k, v). (k, JStr v)) ms), [])"
    using m by (simp add: json_object_def skip_ws_plain t HasPrefix_def)
  then show ?thesis by (simp add: json_parse_def n_def skip_ws_def)
qed

text \<open>Fields in lower case are found by the lower-case form of the key.\<close>

definition lower_fields :: "string list \<Rightarrow> bool" where
  "lower_fields fs \<longleftrightarrow> list_all (\<lambda>f. ToLower f = f) fs"

lemma find_field_lower:
  assumes "lower_fields fs"
  shows "find_field fs k = (if ToLower k \<in> set fs then Some (ToLower k) else None)"
proof (cases "k \<in> set fs")
  case True
  then have "ToLower k = k" using assms by (simp add: lower_fields_def list_all_iff)
  with True show ?thesis by (simp add: find_field_def)
next
  case False
  have "find (\<lambda>f. ToLower f = ToLower k) fs = (if ToLower k \<in> set fs then Some (ToLower k) else None)"
    using assms by (induction fs) (auto simp: lower_fields_def)
  with False show ?thesis by (simp add: find_field_def)
qed

lemma set_member_ok: "snd (set_member fs m a) \<Longrightarrow> snd a"
  by (auto simp: set_member_def split: option.splits json.splits)

lemma fold_set_member_ok: "snd (fold (set_member fs) ms a) \<Longrightarrow> snd a"
proof (induction ms arbitrary: a)
  case (Cons m ms)
  from Cons.IH [of "set_member fs m a"] Cons.prems show ?case using set_member_ok by simp
qed simp

text \<open>A structure with fewer fields accepts what one with more fields accepts, and agrees on
  the common ones.\<close>

lemma fold_set_member_sub:
  assumes "lower_fields fs" and "lower_fields gs" and "set gs \<subseteq> set fs"
    and "snd (fold (set_member fs) ms a)" and "snd b" and "\<forall>g \<in> set gs. fst a g = fst b g"
  shows "snd (fold (set_member gs) ms b)
     \<and> (\<forall>g \<in> set gs. fst (fold (set_member fs) ms a) g = fst (fold (set_member gs) ms b) g)"
  using assms(4-)
proof (induction ms arbitrary: a b)
  case (Cons m ms)
  have ok: "snd (set_member fs m a)" using Cons.prems(1) fold_set_member_ok by simp
  have "snd (set_member gs m b) \<and> (\<forall>g \<in> set gs. fst (set_member fs m a) g = fst (set_member gs m b) g)"
    using ok Cons.prems(2,3) assms(3)
    by (auto simp: set_member_def find_field_lower [OF assms(1)] find_field_lower [OF assms(2)]
        split: json.splits if_splits)
  with Cons.IH [of "set_member fs m a" "set_member gs m b"] Cons.prems(1) show ?case by simp
qed simp

lemma Unmarshal_sub:
  assumes "lower_fields fs" and "lower_fields gs" and "set gs \<subseteq> set fs" and "Unmarshal fs data = Some cfg"
  shows "\<exists>cfg'. Unmarshal gs data = Some cfg' \<and> (\<forall>g \<in> set gs. cfg' g = cfg g)"
proof (cases "json_parse data")
  case None
  with assms(4) show ?thesis by (simp add: Unmarshal_def)
next
  case (Some j)
  show ?thesis
  proof (cases j)
    case (JObj ms)
    with Some assms(4) have "snd (fold (set_member fs) ms (\<lambda>_. [], True))"
      and "cfg = fst (fold (set_member fs) ms (\<lambda>_. [], True))"
      by (auto simp: Unmarshal_def split: prod.splits if_splits)
    with fold_set_member_sub [OF assms(1-3), of ms "(\<lambda>_. [], True)" "(\<lambda>_. [], True)"] Some JObj
    show ?thesis by (auto simp: Unmarshal_def split: prod.splits)
  qed (use Some assms(4) in \<open>simp_all add: Unmarshal_def\<close>)
qed

text \<open>The object listing every field once gives each field its value.\<close>

lemma fold_set_member_strings:
  assumes "lower_fields fs" and "distinct (map fst ms)" and "set (map fst ms) \<subseteq> set fs"
  shows "fold (set_member fs) (map (\<lambda>(k, v). (k, JStr v)) ms) (cfg, True)
     = ((\<lambda>f. case map_of ms f of None \<Rightarrow> cfg f | Some v \<Rightarrow> v), True)"
  using assms(2,3)
proof (induction ms arbitrary: cfg)
  case (Cons m ms)
  obtain k v where m: "m = (k, v)" by (cases m)
  have "ToLower k = k" using Cons.prems assms(1) by (simp add: m lower_fields_def list_all_iff)
  then have "set_member fs (k, JStr v) (cfg, True) = (cfg(k := v), True)"
    using Cons.prems by (simp add: m set_member_def find_field_lower [OF assms(1)])
  moreover have "map_of ms k = None" using Cons.prems(1) by (simp add: m map_of_eq_None_iff)
  moreover have "(\<lambda>f. case map_of ms f of None \<Rightarrow> (cfg(k := v)) f | Some v \<Rightarrow> v)
      = (\<lambda>f. case map_of (m # ms) f of None \<Rightarrow> cfg f | Some v \<Rightarrow> v)"
    using calculation(2) by (auto simp: m fun_eq_iff split: option.split)
  moreover have "fold (set_member fs) (map (\<lambda>(k, v). (k, JStr v)) ms) (cfg(k := v), True)
      = ((\<lambda>f. case map_of ms f of None \<Rightarrow> (cfg(k := v)) f | Some v \<Rightarrow> v), True)"
    by (rule Cons.IH) (use Cons.prems in simp_all)
  ultimately show ?case by (simp only: m list.map prod.case fold_simps)
qed simp

end
