(* ===== verification/Go_URL.thy ===== *)
theory Go_URL
  imports Go_Net
begin

text \<open>
  \<open>net/url\<close>: what \<open>url.Parse\<close>, \<open>Hostname\<close> and \<open>Port\<close> answer for a URL with an authority,
  \<open>scheme://rest\<close>, as in Go 1.25: the fragment, the user information, the host and the
  path are checked for their escapes, a bracketed host must be an IPv6 address, and a
  port, if any, is a colon followed by digits.
\<close>

definition is_alnum :: "char \<Rightarrow> bool" where
  "is_alnum c =
     (let n = (of_char c :: nat) in (48 \<le> n \<and> n \<le> 57) \<or> (65 \<le> n \<and> n \<le> 90) \<or> (97 \<le> n \<and> n \<le> 122))"

text \<open>\<open>strings.Cut\<close> at the first, and the same at the last, occurrence of a character.\<close>

definition cut_first :: "char \<Rightarrow> string \<Rightarrow> (string \<times> string) option" where
  "cut_first c s =
     (if c \<in> set s then Some (takeWhile (\<lambda>x. x \<noteq> c) s, tl (dropWhile (\<lambda>x. x \<noteq> c) s)) else None)"

definition cut_last :: "char \<Rightarrow> string \<Rightarrow> (string \<times> string) option" where
  "cut_last c s = (if c \<in> set s then Some (before_last c s, after_last c s) else None)"

definition before_first :: "char \<Rightarrow> string \<Rightarrow> string" where
  "before_first c s = takeWhile (\<lambda>x. x \<noteq> c) s"

section \<open>Escapes\<close>

datatype encoding_mode = EncodePath | EncodeUserPassword | EncodeFragment | EncodeHost | EncodeZone

text \<open>Characters below 0x80 that may stand unescaped in a host.\<close>

definition host_char :: "char \<Rightarrow> bool" where
  "host_char c \<longleftrightarrow> is_alnum c
     \<or> c \<in> {CHR ''!'', CHR ''$'', CHR ''&'', CHR 0x27, CHR ''('', CHR '')'', CHR ''*'', CHR ''+'', CHR '','',
            CHR '';'', CHR ''='', CHR '':'', CHR ''['', CHR '']'', CHR ''<'', CHR ''>'', CHR 0x22,
            CHR ''-'', CHR ''_'', CHR ''.'', CHR ''~''}"

definition escape_ok :: "encoding_mode \<Rightarrow> nat \<Rightarrow> nat \<Rightarrow> bool" where
  "escape_ok m a b =
     (let v = 16 * a + b in
      case m of
        EncodeHost \<Rightarrow> 8 \<le> a \<or> v = 37
      | EncodeZone \<Rightarrow> v = 37 \<or> v = 32 \<or> host_char (char_of v)
      | _ \<Rightarrow> True)"

fun unescape :: "encoding_mode \<Rightarrow> string \<Rightarrow> string option" where
  "unescape m [] = Some []"
| "unescape m (c # s) =
     (if c = CHR ''%'' then
        (case s of
           x # y # r \<Rightarrow>
             (case (hex_val x, hex_val y) of
                (Some a, Some b) \<Rightarrow>
                  (if escape_ok m a b then map_option (\<lambda>t. char_of (16 * a + b) # t) (unescape m r) else None)
              | _ \<Rightarrow> None)
         | _ \<Rightarrow> None)
      else if (m = EncodeHost \<or> m = EncodeZone) \<and> (of_char c :: nat) < 128 \<and> \<not> host_char c then None
      else map_option (\<lambda>t. c # t) (unescape m s))"

section \<open>Authority\<close>

definition validOptionalPort :: "string \<Rightarrow> bool" where
  "validOptionalPort p \<longleftrightarrow> p = [] \<or> (hd p = CHR '':'' \<and> list_all is_digit (tl p))"

definition validUserinfo :: "string \<Rightarrow> bool" where
  "validUserinfo s \<longleftrightarrow> list_all (\<lambda>c. is_alnum c
     \<or> c \<in> {CHR ''-'', CHR ''.'', CHR ''_'', CHR '':'', CHR ''~'', CHR ''!'', CHR ''$'', CHR ''&'', CHR 0x27,
            CHR ''('', CHR '')'', CHR ''*'', CHR ''+'', CHR '','', CHR '';'', CHR ''='', CHR ''%'', CHR ''@''}) s"

text \<open>The host name between brackets: its zone, if any, starts at the first \<open>%25\<close>.\<close>

fun cut_zone :: "string \<Rightarrow> string \<times> string" where
  "cut_zone [] = ([], [])"
| "cut_zone (c # s) =
     (if HasPrefix (c # s) ''%25'' then ([], c # s) else (c # fst (cut_zone s), snd (cut_zone s)))"

definition parseHost :: "string \<Rightarrow> string option" where
  "parseHost host =
     (if CHR ''['' \<in> set host then
        (case cut_last (CHR '']'') host of
           None \<Rightarrow> None
         | Some (inner, colonPort) \<Rightarrow>
             (if \<not> validOptionalPort colonPort then None
              else
                (case cut_last (CHR ''['') inner of
                   None \<Rightarrow> None
                 | Some (_, name) \<Rightarrow>
                     (case (unescape EncodeHost (fst (cut_zone name)), unescape EncodeZone (snd (cut_zone name))) of
                        (Some a, Some z) \<Rightarrow>
                          (if parseIPv6 a = None \<or> length z = 1 then None
                           else Some (''['' @ a @ z @ '']'' @ colonPort))
                      | _ \<Rightarrow> None))))
      else if CHR '':'' \<in> set host \<and> \<not> validOptionalPort (CHR '':'' # after_last (CHR '':'') host) then None
      else unescape EncodeHost host)"

definition parseAuthority :: "string \<Rightarrow> string option" where
  "parseAuthority authority =
     (case cut_last (CHR ''@'') authority of
        None \<Rightarrow> parseHost authority
      | Some (userinfo, host) \<Rightarrow>
          (case parseHost host of
             None \<Rightarrow> None
           | Some h \<Rightarrow>
               (if validUserinfo userinfo \<and> unescape EncodeUserPassword userinfo \<noteq> None then Some h else None)))"

text \<open>\<open>getScheme\<close>: \<open>None\<close> for "missing protocol scheme", the empty scheme when there is none.\<close>

definition is_letter :: "char \<Rightarrow> bool" where
  "is_letter c = (let n = (of_char c :: nat) in (65 \<le> n \<and> n \<le> 90) \<or> (97 \<le> n \<and> n \<le> 122))"

definition scheme_char :: "char \<Rightarrow> bool" where
  "scheme_char c \<longleftrightarrow> is_alnum c \<or> c = CHR ''+'' \<or> c = CHR ''-'' \<or> c = CHR ''.''"

definition getScheme :: "string \<Rightarrow> (string \<times> string) option" where
  "getScheme s =
     (let pre = takeWhile scheme_char s; rest = dropWhile scheme_char s in
      if rest \<noteq> [] \<and> hd rest = CHR '':'' then
        (if pre = [] then None else if is_letter (hd pre) then Some (pre, tl rest) else Some ([], s))
      else Some ([], s))"

definition is_ctl :: "char \<Rightarrow> bool" where
  "is_ctl c \<longleftrightarrow> (of_char c :: nat) < 32 \<or> (of_char c :: nat) = 127"

record URL =
  u_Scheme :: string
  u_Host :: string
  u_Path :: string

text \<open>The authority and the path of what follows the scheme, its query cut off.\<close>

definition split_authority :: "string \<Rightarrow> string \<Rightarrow> string \<times> string" where
  "split_authority scheme rest =
     (if HasPrefix rest ''//'' \<and> (scheme \<noteq> [] \<or> \<not> HasPrefix rest ''///'')
      then (let authority = before_first (CHR ''/'') (drop 2 rest)
            in (authority, drop (length authority) (drop 2 rest)))
      else ([], rest))"

definition url_Parse :: "string \<Rightarrow> URL option" where
  "url_Parse s =
     (let u = before_first (CHR ''#'') s;
          frag = (case cut_first (CHR ''#'') s of None \<Rightarrow> [] | Some (_, f) \<Rightarrow> f) in
      if list_ex is_ctl u \<or> unescape EncodeFragment frag = None then None
      else
        (case getScheme u of
           None \<Rightarrow> None
         | Some (scheme, rest0) \<Rightarrow>
             (let rest = before_first (CHR ''?'') rest0 in
              if \<not> HasPrefix rest ''/'' \<and> scheme \<noteq> [] then
                Some \<lparr>u_Scheme = ToLower scheme, u_Host = [], u_Path = []\<rparr>
              else if \<not> HasPrefix rest ''/'' \<and> CHR '':'' \<in> set (before_first (CHR ''/'') rest) then None
              else
                (let (authority, path) = split_authority scheme rest in
                 case (parseAuthority authority, unescape EncodePath path) of
                   (Some host, Some p) \<Rightarrow> Some \<lparr>u_Scheme = ToLower scheme, u_Host = host, u_Path = p\<rparr>
                 | _ \<Rightarrow> None))))"

section \<open>Hostname and Port\<close>

definition splitHostPort :: "string \<Rightarrow> string \<times> string" where
  "splitHostPort hostPort =
     (let (host, port) =
        (if CHR '':'' \<in> set hostPort \<and> validOptionalPort (CHR '':'' # after_last (CHR '':'') hostPort)
         then (before_last (CHR '':'') hostPort, after_last (CHR '':'') hostPort)
         else (hostPort, []))
      in (if HasPrefix host ''['' \<and> host \<noteq> [] \<and> last host = CHR '']''
          then (butlast (tl host), port) else (host, port)))"

definition Hostname :: "string \<Rightarrow> string" where "Hostname host = fst (splitHostPort host)"
definition Port :: "string \<Rightarrow> string" where "Port host = snd (splitHostPort host)"

section \<open>Plain authorities\<close>

text \<open>Host names of letters, digits, dots and hyphens, and user names of letters, digits and
  hyphens, as in the links the program is given.\<close>

definition plain_host :: "string \<Rightarrow> bool" where
  "plain_host h \<longleftrightarrow> list_all (\<lambda>c. is_alnum c \<or> c = CHR ''.'' \<or> c = CHR ''-'') h"

lemma before_first_append [wire]: "c \<notin> set a \<Longrightarrow> before_first c (a @ c # b) = a"
  by (simp add: before_first_def takeWhile_append)

lemma before_first_id [wire]: "c \<notin> set a \<Longrightarrow> before_first c a = a"
  unfolding before_first_def takeWhile_eq_all_conv by auto

lemma cut_last_append [wire]: "c \<notin> set b \<Longrightarrow> cut_last c (a @ c # b) = Some (a, b)"
  by (simp add: cut_last_def last_split)

lemma is_digit_alnum: "is_digit c \<Longrightarrow> is_alnum c"
  by (simp add: is_digit_def is_alnum_def Let_def)

lemma alnum_plain:
  "is_alnum c \<Longrightarrow> c \<notin> {CHR ''%'', CHR ''@'', CHR ''/'', CHR ''?'', CHR ''#'', CHR ''['', CHR '']'', CHR '':''}"
  by (auto simp: is_alnum_def Let_def)

lemma alnum_not_ctl: "is_alnum c \<Longrightarrow> \<not> is_ctl c"
  by (auto simp: is_alnum_def is_ctl_def Let_def)

lemma plain_host_clean:
  assumes "plain_host h" and "c \<in> set h"
  shows "c \<notin> {CHR ''%'', CHR ''@'', CHR ''/'', CHR ''?'', CHR ''#'', CHR ''['', CHR '']'', CHR '':''}"
    and "\<not> is_ctl c" and "host_char c"
proof -
  consider "is_alnum c" | "c = CHR ''.''" | "c = CHR ''-''"
    using assms by (auto simp: plain_host_def list_all_iff)
  then show "c \<notin> {CHR ''%'', CHR ''@'', CHR ''/'', CHR ''?'', CHR ''#'', CHR ''['', CHR '']'', CHR '':''}"
    and "\<not> is_ctl c" and "host_char c"
    using alnum_plain [of c] alnum_not_ctl [of c] by (cases; simp add: is_ctl_def host_char_def)+
qed

lemma plain_host_notin:
  assumes "plain_host h"
  shows "CHR ''%'' \<notin> set h" "CHR ''@'' \<notin> set h" "CHR ''/'' \<notin> set h" "CHR ''?'' \<notin> set h"
    "CHR ''#'' \<notin> set h" "CHR ''['' \<notin> set h" "CHR '']'' \<notin> set h" "CHR '':'' \<notin> set h"
  using plain_host_clean(1) [OF assms] by blast+

lemma plain_host_no_ctl: "plain_host h \<Longrightarrow> list_all (\<lambda>c. \<not> is_ctl c) h"
  using plain_host_clean(2) [of h] by (simp add: list_all_iff)

lemma separators_plain [simp]:
  "host_char (CHR '':'')" "\<not> is_ctl (CHR '':'')" "\<not> is_ctl (CHR ''@'')" "\<not> is_ctl (CHR ''?'')"
  by (simp_all add: host_char_def is_ctl_def)

lemma unescape_plain:
  "(\<And>c. c \<in> set s \<Longrightarrow> c \<noteq> CHR ''%'' \<and> (host_char c \<or> (m \<noteq> EncodeHost \<and> m \<noteq> EncodeZone))) \<Longrightarrow>
   unescape m s = Some s"
  by (induction m s rule: unescape.induct) auto

lemma plain_host_unescape: "plain_host h \<Longrightarrow> unescape m h = Some h"
  by (rule unescape_plain) (use plain_host_clean [of h] in auto)

lemma plain_host_validUserinfo: "plain_host u \<Longrightarrow> validUserinfo u"
  by (auto simp: plain_host_def validUserinfo_def list_all_iff)

definition digits :: "string \<Rightarrow> bool" where
  "digits p \<longleftrightarrow> p \<noteq> [] \<and> list_all is_digit p"

lemma digits_plain: "digits p \<Longrightarrow> plain_host p"
  by (auto simp: digits_def plain_host_def list_all_iff is_digit_alnum)

lemma parseHost_plain:
  assumes "plain_host h" and "digits p"
  shows "parseHost (h @ CHR '':'' # p) = Some (h @ CHR '':'' # p)"
proof -
  note p = digits_plain [OF assms(2)]
  note notin = plain_host_notin [OF assms(1)] plain_host_notin [OF p]
  have port: "after_last (CHR '':'') (h @ CHR '':'' # p) = p" using notin by (intro last_split)
  have c: "c \<noteq> CHR ''%'' \<and> host_char c" if "c \<in> set (h @ CHR '':'' # p)" for c
    using that notin(1,9) plain_host_clean(3) [OF assms(1), of c] plain_host_clean(3) [OF p, of c] by auto
  have u: "unescape EncodeHost (h @ CHR '':'' # p) = Some (h @ CHR '':'' # p)"
    by (rule unescape_plain) (use c in blast)
  have v: "validOptionalPort (CHR '':'' # p)" using assms(2) by (simp add: validOptionalPort_def digits_def)
  have nb: "CHR ''['' \<notin> set (h @ CHR '':'' # p)" using notin by simp
  show ?thesis unfolding parseHost_def port using nb v u by (simp only: if_False simp_thms)
qed

lemma splitHostPort_plain:
  assumes "plain_host h" and "digits p"
  shows "splitHostPort (h @ CHR '':'' # p) = (h, p)"
proof -
  note notin = plain_host_notin [OF assms(1)] plain_host_notin [OF digits_plain [OF assms(2)]]
  have "after_last (CHR '':'') (h @ CHR '':'' # p) = p" and "before_last (CHR '':'') (h @ CHR '':'' # p) = h"
    using notin by (simp_all add: last_split)
  moreover have "\<not> HasPrefix h ''[''" using notin(6) by (cases h) (auto simp: HasPrefix_def)
  ultimately show ?thesis
    using assms(2) by (simp add: splitHostPort_def validOptionalPort_def digits_def)
qed

definition scheme_name :: "string \<Rightarrow> bool" where
  "scheme_name sch \<longleftrightarrow> sch \<noteq> [] \<and> list_all is_letter sch \<and> ToLower sch = sch"

lemma letter_alnum: "is_letter c \<Longrightarrow> is_alnum c"
  by (auto simp: is_letter_def is_alnum_def Let_def)

lemma getScheme_prefix:
  assumes "scheme_name sch"
  shows "getScheme (sch @ CHR '':'' # r) = Some (sch, r)"
proof -
  have "c \<in> set sch \<Longrightarrow> scheme_char c" for c
    using assms by (auto simp: scheme_name_def list_all_iff scheme_char_def letter_alnum)
  moreover have "\<not> scheme_char (CHR '':'')" by (simp add: scheme_char_def is_alnum_def)
  ultimately have "takeWhile scheme_char (sch @ CHR '':'' # r) = sch"
    and "dropWhile scheme_char (sch @ CHR '':'' # r) = CHR '':'' # r"
    by (simp_all add: takeWhile_append dropWhile_append)
  then show ?thesis using assms by (cases sch) (simp_all add: getScheme_def scheme_name_def)
qed

text \<open>The query runs to the fragment; neither is interpreted.\<close>

lemma url_Parse_plain:
  assumes sch: "scheme_name sch" and u: "plain_host u" and h: "plain_host h" and p: "digits p"
    and q: "CHR ''#'' \<notin> set q" "list_all (\<lambda>c. \<not> is_ctl c) q" and f: "unescape EncodeFragment f \<noteq> None"
  shows "url_Parse (sch @ ''://'' @ u @ ''@'' @ h @ '':'' @ p @ ''?'' @ q @ ''#'' @ f)
     = Some \<lparr>u_Scheme = sch, u_Host = h @ CHR '':'' # p, u_Path = []\<rparr>"
proof -
  let ?hp = "h @ CHR '':'' # p"
  let ?a = "u @ CHR ''@'' # ?hp"
  let ?h = "sch @ CHR '':'' # ''//'' @ ?a"
  have ps: "plain_host sch" using sch by (auto simp: scheme_name_def plain_host_def list_all_iff letter_alnum)
  note cs = plain_host_notin [OF ps] and cu = plain_host_notin [OF u] and ch = plain_host_notin [OF h]
    and cp = plain_host_notin [OF digits_plain [OF p]]
  have a: "CHR ''?'' \<notin> set (''//'' @ ?a)" "CHR ''#'' \<notin> set ?h" "CHR ''/'' \<notin> set ?a"
    using cs cu ch cp by simp_all
  have "\<not> is_ctl (CHR ''/'')" by (simp add: is_ctl_def)
  then have ctl: "list_all (\<lambda>c. \<not> is_ctl c) (?h @ CHR ''?'' # q)"
    using plain_host_no_ctl [OF ps] plain_host_no_ctl [OF u] plain_host_no_ctl [OF h]
      plain_host_no_ctl [OF digits_plain [OF p]] q(2) by simp
  have s: "sch @ ''://'' @ u @ ''@'' @ h @ '':'' @ p @ ''?'' @ q @ ''#'' @ f = (?h @ CHR ''?'' # q) @ CHR ''#'' # f"
    by simp
  have hash: "CHR ''#'' \<notin> set (?h @ CHR ''?'' # q)" using a(2) q(1) by simp
  have 1: "before_first (CHR ''#'') ((?h @ CHR ''?'' # q) @ CHR ''#'' # f) = ?h @ CHR ''?'' # q"
    by (rule before_first_append [OF hash])
  have 2: "before_first (CHR ''?'') ((''//'' @ ?a) @ CHR ''?'' # q) = ''//'' @ ?a"
    by (rule before_first_append [OF a(1)])
  have 3: "split_authority sch (''//'' @ ?a) = (?a, [])"
    using sch by (simp add: split_authority_def before_first_id [OF a(3)] HasPrefix_def scheme_name_def)
  have 4: "\<not> list_ex is_ctl (?h @ CHR ''?'' # q)" using ctl by (auto simp: list_ex_iff list_all_iff)
  have 5: "cut_last (CHR ''@'') ?a = Some (u, ?hp)"
    by (rule cut_last_append) (use ch cp in simp)
  have auth: "parseAuthority ?a = Some ?hp"
    using plain_host_validUserinfo [OF u] plain_host_unescape [OF u, of EncodeUserPassword]
    by (simp only: parseAuthority_def 5 option.case prod.case parseHost_plain [OF h p]) simp
  have 6: "cut_first (CHR ''#'') ((?h @ CHR ''?'' # q) @ CHR ''#'' # f) = Some (?h @ CHR ''?'' # q, f)"
    using hash unfolding cut_first_def by (simp add: takeWhile_append dropWhile_append)
  have 7: "getScheme (?h @ CHR ''?'' # q) = Some (sch, (''//'' @ ?a) @ CHR ''?'' # q)"
    using getScheme_prefix [OF sch] by simp
  have 8: "HasPrefix (''//'' @ ?a) ''/''" and 9: "ToLower sch = sch"
    using sch by (simp_all add: HasPrefix_def scheme_name_def)
  show ?thesis
    unfolding s
    by (simp only: url_Parse_def 1 6 Let_def 4 7 option.case prod.case 2 3 auth 8 9 f simp_thms if_False unescape.simps)
qed

end
