(* ===== verification/LinkParser.thy ===== *)
theory LinkParser
  imports Go_Base64 Go_JSON Go_URL
begin

text \<open>
  \<open>pkg/client/link_parser.go\<close> and the end-point extraction of
  \<open>pkg/client/server_selector.go\<close>: recognising VLESS and VMess links in a raw list, and
  finding the host and the port a link names.  Every error return is a value of
  \<open>link_error\<close>.
\<close>

section \<open>Links\<close>

datatype link_error =
    NotVMessLink | NotVLESSOrVMess | ParseURLError | MissingHostname | EmptyPayload
  | DecodeBase64Error | ParseJSONError | MissingAddress | MissingPort | InvalidLinkFormat

record VMessConfig =
  vm_V :: string
  vm_PS :: string
  vm_Add :: string
  vm_Port :: string
  vm_ID :: string
  vm_Aid :: string
  vm_Scy :: string
  vm_Net :: string
  vm_Type :: string
  vm_Host :: string
  vm_Path :: string
  vm_TLS :: string
  vm_SNI :: string
  vm_Alpn :: string

definition vmess_fields :: "string list" where
  "vmess_fields = [''v'', ''ps'', ''add'', ''port'', ''id'', ''aid'', ''scy'', ''net'', ''type'', ''host'',
     ''path'', ''tls'', ''sni'', ''alpn'']"

definition vmess_of :: "(string \<Rightarrow> string) \<Rightarrow> VMessConfig" where
  "vmess_of m = \<lparr>vm_V = m ''v'', vm_PS = m ''ps'', vm_Add = m ''add'', vm_Port = m ''port'', vm_ID = m ''id'',
     vm_Aid = m ''aid'', vm_Scy = m ''scy'', vm_Net = m ''net'', vm_Type = m ''type'', vm_Host = m ''host'',
     vm_Path = m ''path'', vm_TLS = m ''tls'', vm_SNI = m ''sni'', vm_Alpn = m ''alpn''\<rparr>"

text \<open>\<open>url.Parse\<close> of a link with the \<open>vless\<close> scheme: the host of the URL.\<close>

definition parse_vless_url :: "string \<Rightarrow> string option" where
  "parse_vless_url link = map_option u_Host (url_Parse link)"

definition isValidVLESSLink :: "string \<Rightarrow> bool" where
  "isValidVLESSLink link =
     (if \<not> HasPrefix link ''vless://'' then False
      else
        (case parse_vless_url link of
           None \<Rightarrow> False
         | Some u \<Rightarrow> if Hostname u = [] \<or> Port u = [] then False else True))"

definition vmess_payload :: "string \<Rightarrow> string" where
  "vmess_payload link = TrimSpace (TrimPrefix link ''vmess://'')"

definition decode_payload :: "string \<Rightarrow> string option" where
  "decode_payload payload =
     (case DecodeString StdEncoding payload of
        Some d \<Rightarrow> Some d
      | None \<Rightarrow>
          (case DecodeString URLEncoding payload of
             Some d \<Rightarrow> Some d
           | None \<Rightarrow> DecodeString RawStdEncoding payload))"

definition isValidVMessLink :: "string \<Rightarrow> bool" where
  "isValidVMessLink link =
     (if \<not> HasPrefix link ''vmess://'' then False
      else
        (let payload = vmess_payload link in
         if payload = [] then False
         else
           (case decode_payload payload of
              None \<Rightarrow> False
            | Some decoded \<Rightarrow>
                (case Unmarshal vmess_fields decoded of
                   None \<Rightarrow> False
                 | Some m \<Rightarrow>
                     (let cfg = vmess_of m in
                      if vm_Add cfg = [] then False else if vm_Port cfg = [] then False else True)))))"

definition link_line :: "string \<Rightarrow> string list" where
  "link_line line0 =
     (let line = TrimSpace line0 in
      if line = [] \<or> HasPrefix line ''#'' then []
      else if isValidVLESSLink line \<or> isValidVMessLink line then [line]
      else [])"

definition ParseLinksFromRaw :: "string \<Rightarrow> string list" where
  "ParseLinksFromRaw rawText = concat (map link_line (Split (CHR 0x0A) rawText))"

definition ParseVMessLink :: "string \<Rightarrow> link_error + VMessConfig" where
  "ParseVMessLink link0 =
     (let link = TrimSpace link0 in
      if \<not> HasPrefix link ''vmess://'' then Inl NotVMessLink
      else
        (case decode_payload (vmess_payload link) of
           None \<Rightarrow> Inl DecodeBase64Error
         | Some decoded \<Rightarrow>
             (case Unmarshal vmess_fields decoded of
                None \<Rightarrow> Inl ParseJSONError
              | Some m \<Rightarrow>
                  (let cfg = vmess_of m in
                   if vm_Add cfg = [] then Inl MissingAddress
                   else if vm_Port cfg = [] then Inl MissingPort
                   else Inr cfg))))"

definition ValidateLink :: "string \<Rightarrow> link_error option" where
  "ValidateLink link0 =
     (let link = TrimSpace link0 in
      if isValidVLESSLink link then None
      else if isValidVMessLink link then None
      else Some InvalidLinkFormat)"

section \<open>End points\<close>

definition extractHostPortVMess :: "string \<Rightarrow> link_error + string \<times> string" where
  "extractHostPortVMess link =
     (let payload = vmess_payload link in
      if payload = [] then Inl EmptyPayload
      else
        (case decode_payload payload of
           None \<Rightarrow> Inl DecodeBase64Error
         | Some decoded \<Rightarrow>
             (case Unmarshal [''add'', ''port''] decoded of
                None \<Rightarrow> Inl ParseJSONError
              | Some m \<Rightarrow>
                  (if m ''add'' = [] then Inl MissingAddress
                   else Inr (m ''add'', if m ''port'' = [] then ''443'' else m ''port'')))))"

definition extractHostPort :: "string \<Rightarrow> link_error + string \<times> string" where
  "extractHostPort link0 =
     (let link = TrimSpace link0 in
      if HasPrefix link ''vmess://'' then extractHostPortVMess link
      else if \<not> HasPrefix link ''vless://'' then Inl NotVLESSOrVMess
      else
        (case parse_vless_url link of
           None \<Rightarrow> Inl ParseURLError
         | Some u \<Rightarrow>
             (let host = Hostname u; port = Port u in
              if host = [] then Inl MissingHostname
              else Inr (host, if port = [] then ''443'' else port))))"

section \<open>Recognised links have an end point\<close>

definition recognised :: "string \<Rightarrow> bool" where
  "recognised link \<longleftrightarrow> isValidVLESSLink link \<or> isValidVMessLink link"

lemma vmess_lower: "lower_fields vmess_fields" "lower_fields [''add'', ''port'']"
  "set [''add'', ''port''] \<subseteq> set vmess_fields"
  by (simp_all add: lower_fields_def vmess_fields_def ToLower_def to_lower_char_def)

lemma vless_endpoint:
  assumes "isValidVLESSLink link" and "TrimSpace link = link"
  shows "\<exists>host port. extractHostPort link = Inr (host, port) \<and> host \<noteq> [] \<and> port \<noteq> []"
proof -
  have v: "HasPrefix link ''vless://''" and n: "\<not> HasPrefix link ''vmess://''"
    using assms(1) by (auto simp: isValidVLESSLink_def HasPrefix_iff split: if_splits)
  show ?thesis
    using assms by (auto simp: isValidVLESSLink_def extractHostPort_def v n Let_def split: option.splits if_splits)
qed

lemma vmess_endpoint:
  assumes "isValidVMessLink link" and "TrimSpace link = link"
  shows "\<exists>host port. extractHostPort link = Inr (host, port) \<and> host \<noteq> [] \<and> port \<noteq> []
     \<and> (\<exists>cfg. ParseVMessLink link = Inr cfg \<and> vm_Add cfg = host \<and> vm_Port cfg = port)"
proof -
  obtain decoded m where d: "HasPrefix link ''vmess://''" "vmess_payload link \<noteq> []"
      "decode_payload (vmess_payload link) = Some decoded"
    and m: "Unmarshal vmess_fields decoded = Some m" "m ''add'' \<noteq> []" "m ''port'' \<noteq> []"
    using assms(1) by (auto simp: isValidVMessLink_def vmess_of_def Let_def split: option.splits if_splits)
  obtain m' where "Unmarshal [''add'', ''port''] decoded = Some m'" "m' ''add'' = m ''add''" "m' ''port'' = m ''port''"
    using Unmarshal_sub [OF vmess_lower m(1)] by auto
  with d m assms(2) show ?thesis
    by (simp add: extractHostPort_def extractHostPortVMess_def ParseVMessLink_def vmess_of_def)
qed

lemma recognised_endpoint:
  "recognised link \<Longrightarrow> TrimSpace link = link \<Longrightarrow>
   \<exists>host port. extractHostPort link = Inr (host, port) \<and> host \<noteq> [] \<and> port \<noteq> []"
  using vless_endpoint vmess_endpoint unfolding recognised_def by blast

lemma Unmarshal_empty: "Unmarshal fs [] = None"
  by (simp add: Unmarshal_def json_parse_def skip_ws_def)

lemma recognised_iff_parsed:
  assumes "TrimSpace link = link"
  shows "isValidVMessLink link \<longleftrightarrow> (\<exists>cfg. ParseVMessLink link = Inr cfg)"
proof -
  have "decode_payload [] = Some []" by (simp add: decode_payload_def DecodeString_def)
  then show ?thesis
    using assms Unmarshal_empty [of vmess_fields]
    by (auto simp: isValidVMessLink_def ParseVMessLink_def Let_def split: option.splits if_splits)
qed

lemma link_line_filter:
  "link_line l0 = filter (\<lambda>l. l \<noteq> [] \<and> \<not> HasPrefix l ''#'' \<and> ValidateLink l = None) [TrimSpace l0]"
  by (simp add: link_line_def ValidateLink_def Let_def)

lemma ParseLinksFromRaw_filter:
  "ParseLinksFromRaw raw =
     filter (\<lambda>l. l \<noteq> [] \<and> \<not> HasPrefix l ''#'' \<and> ValidateLink l = None) (map TrimSpace (Split (CHR 0x0A) raw))"
proof -
  have "concat (map link_line ls) =
      filter (\<lambda>l. l \<noteq> [] \<and> \<not> HasPrefix l ''#'' \<and> ValidateLink l = None) (map TrimSpace ls)" for ls
    by (induction ls) (simp_all add: link_line_filter)
  then show ?thesis by (simp add: ParseLinksFromRaw_def)
qed

lemma parsed_endpoint:
  assumes "l \<in> set (ParseLinksFromRaw raw)"
  shows "\<exists>host port. extractHostPort l = Inr (host, port) \<and> host \<noteq> [] \<and> port \<noteq> []"
proof -
  have "TrimSpace l = l" and "ValidateLink l = None" using assms unfolding ParseLinksFromRaw_filter by auto
  then show ?thesis
    by (intro recognised_endpoint) (auto simp: recognised_def ValidateLink_def Let_def split: if_splits)
qed

text \<open>C24: the links parsed from a raw list are, in order and with duplicates, the trimmed
  lines that are not comments and are accepted by \<open>ValidateLink\<close>; each of them has an end
  point with a host and a port, so probing them never fails at the link.\<close>

theorem ParseLinksFromRaw_sound:
  "ParseLinksFromRaw raw =
     filter (\<lambda>l. l \<noteq> [] \<and> \<not> HasPrefix l ''#'' \<and> ValidateLink l = None) (map TrimSpace (Split (CHR 0x0A) raw))
   \<and> (\<forall>l \<in> set (ParseLinksFromRaw raw). \<exists>host port. extractHostPort l = Inr (host, port) \<and> host \<noteq> [] \<and> port \<noteq> [])"
  using ParseLinksFromRaw_filter parsed_endpoint by blast

theorem ParseLinksFromRaw_sound_witness:
  "\<exists>host port. extractHostPort ''vless://id@ex.org:443?type=tcp#a'' = Inr (host, port) \<and> host \<noteq> [] \<and> port \<noteq> []"
proof -
  have "''vless://id@ex.org:443?type=tcp#a''
      \<in> set (ParseLinksFromRaw (''# list'' @ [CHR 0x0A] @ '' vless://id@ex.org:443?type=tcp#a  '' @ [CHR 0x0A] @ ''junk''))"
    by code_simp
  then show ?thesis
    using ParseLinksFromRaw_sound
      [of "''# list'' @ [CHR 0x0A] @ '' vless://id@ex.org:443?type=tcp#a  '' @ [CHR 0x0A] @ ''junk''"] by blast
qed

section \<open>Round trips\<close>

text \<open>The end point of a VLESS link \<open>vless://user@host:port?query#name\<close> is the host and
  port written in it, whatever the query and the name are.\<close>

theorem vless_roundtrip:
  assumes "plain_host user" and "plain_host host" and "host \<noteq> []" and "digits port"
    and "CHR ''#'' \<notin> set query" and "list_all (\<lambda>c. \<not> is_ctl c) query"
    and "unescape EncodeFragment name \<noteq> None" and "name \<noteq> []" and "\<not> is_space (last name)"
    and "link = ''vless://'' @ user @ ''@'' @ host @ '':'' @ port @ ''?'' @ query @ ''#'' @ name"
  shows "extractHostPort link = Inr (host, port) \<and> ValidateLink link = None"
proof -
  have link: "link = ''vless'' @ ''://'' @ user @ ''@'' @ host @ '':'' @ port @ ''?'' @ query @ ''#'' @ name"
    using assms(10) by simp
  have "TrimSpace link = link"
    using assms(8,9) by (intro TrimSpace_fix) (simp_all add: link is_space_def)
  moreover have sch: "scheme_name ''vless''"
    by (simp add: scheme_name_def is_letter_def ToLower_def to_lower_char_def)
  have "parse_vless_url link = Some (host @ CHR '':'' # port)"
    unfolding parse_vless_url_def link url_Parse_plain [OF sch assms(1,2,4-7)] by simp
  moreover have "Hostname (host @ CHR '':'' # port) = host" and "Port (host @ CHR '':'' # port) = port"
    using splitHostPort_plain assms(2,4) by (simp_all add: Hostname_def Port_def)
  moreover have "HasPrefix link ''vless://''" and "\<not> HasPrefix link ''vmess://''"
    unfolding link by (simp_all add: HasPrefix_def)
  moreover have "port \<noteq> []" using assms(4) by (simp add: digits_def)
  ultimately show ?thesis
    using assms(3) by (simp add: extractHostPort_def ValidateLink_def isValidVLESSLink_def Let_def)
qed

theorem vless_roundtrip_witness:
  "extractHostPort ''vless://9f-1@ex.org:8443?type=ws&path=/a#DE 1'' = Inr (''ex.org'', ''8443'')"
  using vless_roundtrip [of "''9f-1''" "''ex.org''" "''8443''" "''type=ws&path=/a''" "''DE 1''"
      "''vless://9f-1@ex.org:8443?type=ws&path=/a#DE 1''"]
  by (simp add: plain_host_def is_alnum_def digits_def is_digit_def is_ctl_def is_space_def)

definition vmess_members :: "VMessConfig \<Rightarrow> (string \<times> string) list" where
  "vmess_members c =
     [(''v'', vm_V c), (''ps'', vm_PS c), (''add'', vm_Add c), (''port'', vm_Port c), (''id'', vm_ID c),
      (''aid'', vm_Aid c), (''scy'', vm_Scy c), (''net'', vm_Net c), (''type'', vm_Type c),
      (''host'', vm_Host c), (''path'', vm_Path c), (''tls'', vm_TLS c), (''sni'', vm_SNI c), (''alpn'', vm_Alpn c)]"

definition plain_vmess :: "VMessConfig \<Rightarrow> bool" where
  "plain_vmess c \<longleftrightarrow> list_all (\<lambda>(k, v). plain_text v) (vmess_members c)"

definition vmess_link :: "base64_encoding \<Rightarrow> VMessConfig \<Rightarrow> string" where
  "vmess_link e c = ''vmess://'' @ EncodeToString e (json_object (vmess_members c))"

lemma decode_payload_encoded [simp]: "decode_payload (EncodeToString e s) = Some s"
proof -
  have "DecodeString StdEncoding (EncodeToString e s) \<in> {None, Some s}"
    and "DecodeString URLEncoding (EncodeToString e s) \<in> {None, Some s}"
    using DecodeString_other by simp_all
  then show ?thesis
    using DecodeString_EncodeToString [of e s]
    by (cases e) (auto simp: decode_payload_def split: option.splits)
qed

lemma Unmarshal_vmess_members:
  assumes "plain_vmess c"
  shows "\<exists>m. Unmarshal vmess_fields (json_object (vmess_members c)) = Some m \<and> vmess_of m = c"
proof -
  have "list_all (\<lambda>(k, v). plain_text k \<and> plain_text v) (vmess_members c)"
    using assms by (simp add: plain_vmess_def vmess_members_def plain_text_def)
  then have "json_parse (json_object (vmess_members c)) = Some (JObj (map (\<lambda>(k, v). (k, JStr v)) (vmess_members c)))"
    by (intro json_parse_object) (simp_all add: vmess_members_def)
  moreover have "fold (set_member vmess_fields) (map (\<lambda>(k, v). (k, JStr v)) (vmess_members c)) (\<lambda>_. [], True)
      = ((\<lambda>f. case map_of (vmess_members c) f of None \<Rightarrow> [] | Some v \<Rightarrow> v), True)"
    by (rule fold_set_member_strings [OF vmess_lower(1)]) (simp_all add: vmess_members_def vmess_fields_def)
  ultimately show ?thesis by (simp add: Unmarshal_def vmess_of_def vmess_members_def)
qed

lemma vmess_link_parts:
  "HasPrefix (vmess_link e c) ''vmess://''" "vmess_payload (vmess_link e c) = EncodeToString e (json_object (vmess_members c))"
  "TrimSpace (vmess_link e c) = vmess_link e c" "EncodeToString e (json_object (vmess_members c)) \<noteq> []"
proof -
  let ?t = "EncodeToString e (json_object (vmess_members c))"
  show ne: "?t \<noteq> []" by (simp add: json_object_def)
  have sp: "x \<in> set ?t \<Longrightarrow> \<not> is_space x" for x using EncodeToString_plain by blast
  then have last: "\<not> is_space (last ?t)" and hd: "\<not> is_space (hd ?t)" using ne by simp_all
  show "HasPrefix (vmess_link e c) ''vmess://''" unfolding vmess_link_def by (rule HasPrefix_append)
  show "TrimSpace (vmess_link e c) = vmess_link e c"
    by (rule TrimSpace_fix) (use last ne in \<open>simp_all add: vmess_link_def is_space_def\<close>)
  show "vmess_payload (vmess_link e c) = ?t"
    unfolding vmess_payload_def vmess_link_def TrimPrefix_append by (rule TrimSpace_fix) (use hd last in simp_all)
qed


definition sample_vmess :: VMessConfig where
  "sample_vmess = (vmess_of (\<lambda>_. []))\<lparr>vm_Add := ''ex.org'', vm_Port := ''443'', vm_ID := ''9f''\<rparr>"


text \<open>On a trimmed link the three VMess decoders agree: \<open>ParseVMessLink\<close> succeeds exactly when
  the link validates as VMess, although \<open>extractHostPort\<close> also accepts links the validation
  refuses (a numeric \<open>"v"\<close>, which several providers write, makes the whole link invalid).\<close>

theorem vmess_decoders_agree:
  "(isValidVMessLink (TrimSpace link) \<longleftrightarrow> (\<exists>cfg. ParseVMessLink link = Inr cfg))
   \<and> (let l = ''vmess://'' @ EncodeToString StdEncoding (''{'' @ json_quote ''v'' @ '':2,'' @ json_quote ''add'' @ '':''
               @ json_quote ''a.b'' @ '','' @ json_quote ''port'' @ '':'' @ json_quote ''1'' @ ''}'')
      in ValidateLink l = Some InvalidLinkFormat \<and> extractHostPort l = Inr (''a.b'', ''1''))"
proof -
  have "ParseVMessLink link = ParseVMessLink (TrimSpace link)" by (simp add: ParseVMessLink_def)
  moreover have "(let l = ''vmess://'' @ EncodeToString StdEncoding (''{'' @ json_quote ''v'' @ '':2,'' @ json_quote ''add'' @ '':''
               @ json_quote ''a.b'' @ '','' @ json_quote ''port'' @ '':'' @ json_quote ''1'' @ ''}'')
      in ValidateLink l = Some InvalidLinkFormat \<and> extractHostPort l = Inr (''a.b'', ''1''))"
    by code_simp
  ultimately show ?thesis using recognised_iff_parsed [of "TrimSpace link"] by simp
qed

end
