(* ===== verification/ServerSelector.thy ===== *)
theory ServerSelector
  imports LinkParser Go_Float
begin

text \<open>
  \<open>pkg/client/server_selector.go\<close>: probing the servers of a list of links and ranking
  them.  The network is a parameter: \<open>dials i addr k\<close> is the outcome of the \<open>k\<close>-th
  connection attempt made for the \<open>i\<close>-th link, \<open>None\<close> for an error, else the time it took.
  The goroutines append to the shared slice in any order (\<open>arrive\<close>), and \<open>sort.Slice\<close>
  (\<open>srt\<close>) promises a sorted rearrangement and nothing more.
\<close>

section \<open>Data\<close>

record ServerInfo =
  si_Link :: string
  si_Host :: string
  si_Port :: string
  si_Latency :: duration
  si_Available :: bool
  si_PacketLoss :: real
  si_Score :: real

record ServerSelector =
  ss_timeout :: duration
  ss_maxConcurrent :: int

definition NewServerSelector :: "duration \<Rightarrow> int \<Rightarrow> ServerSelector" where
  "NewServerSelector timeout maxConcurrent =
     \<lparr>ss_timeout = (if timeout = 0 then 5 * second else timeout),
      ss_maxConcurrent = (if maxConcurrent = 0 then 10 else maxConcurrent)\<rparr>"

datatype selector_error =
    CreateRequestError | FetchError | UnexpectedStatus nat | ReadResponseError
  | ExtractError link_error | ConnectionFailed | NoLinks | NoServers | FetchLinks selector_error

datatype 'a selection = Panics | Fails selector_error | Selects 'a

type_synonym dialer = "string \<Rightarrow> nat \<Rightarrow> duration option"

section \<open>Fetching\<close>

text \<open>What the HTTP client answers to a GET.\<close>

datatype http_result = BadRequest | DoFailed | Response nat "string option"

definition FetchRawLinks :: "(string \<Rightarrow> http_result) \<Rightarrow> string \<Rightarrow> selector_error + string list" where
  "FetchRawLinks get rawURL =
     (case get rawURL of
        BadRequest \<Rightarrow> Inl CreateRequestError
      | DoFailed \<Rightarrow> Inl FetchError
      | Response status body \<Rightarrow>
          (if status \<noteq> 200 then Inl (UnexpectedStatus status)
           else
             (case body of
                None \<Rightarrow> Inl ReadResponseError
              | Some text \<Rightarrow> Inr (ParseLinksFromRaw text))))"

section \<open>Probing\<close>

definition CheckLatency :: "dialer \<Rightarrow> string \<Rightarrow> selector_error + duration" where
  "CheckLatency dial link =
     (case extractHostPort link of
        Inl e \<Rightarrow> Inl (ExtractError e)
      | Inr (host, port) \<Rightarrow>
          (case dial (JoinHostPort host port) 0 of
             None \<Rightarrow> Inl ConnectionFailed
           | Some latency \<Rightarrow> Inr latency))"

definition checkPacketLoss :: "dialer \<Rightarrow> string \<Rightarrow> string \<Rightarrow> real" where
  "checkPacketLoss dial host port =
     (let attempts = 5;
          successes = length (filter (\<lambda>i. dial (JoinHostPort host port) (Suc i) \<noteq> None) [0..<attempts])
      in f64 (real (attempts - successes) / real attempts))"

definition latency_score :: "duration \<Rightarrow> real" where
  "latency_score latency = f64 (1 - min (f64 (f64 (real_of_int (quot latency millisecond)) / 2000)) 1)"

definition weigh :: "real \<Rightarrow> real \<Rightarrow> real" where
  "weigh l r = f64 (f64 (l * (1 / 2)) + f64 (r * (1 / 2)))"

definition calculateScore :: "ServerInfo \<Rightarrow> real" where
  "calculateScore info =
     (let latencyScore = latency_score (si_Latency info);
          reliabilityScore = f64 (1 - si_PacketLoss info)
      in weigh latencyScore reliabilityScore)"

text \<open>The two results of \<open>CheckServerHealth\<close>: the information, nil when the link has no end
  point, and the error.\<close>

definition CheckServerHealth :: "dialer \<Rightarrow> string \<Rightarrow> ServerInfo option \<times> selector_error option" where
  "CheckServerHealth dial link =
     (case extractHostPort link of
        Inl e \<Rightarrow> (None, Some (ExtractError e))
      | Inr (host, port) \<Rightarrow>
          (let info = \<lparr>si_Link = link, si_Host = host, si_Port = port, si_Latency = 0, si_Available = False,
                       si_PacketLoss = 0, si_Score = 0\<rparr>
           in case CheckLatency dial link of
                Inl e \<Rightarrow> (Some info, Some e)
              | Inr latency \<Rightarrow>
                  (let info1 = info\<lparr>si_Latency := latency, si_Available := True\<rparr>;
                       info2 = info1\<lparr>si_PacketLoss := checkPacketLoss dial host port\<rparr>
                   in (Some (info2\<lparr>si_Score := calculateScore info2\<rparr>), None))))"

section \<open>Selection\<close>

text \<open>One goroutine of \<open>SelectAllByScore\<close>: it appends nothing, appends the server, or
  dereferences the nil information of a link without an end point.\<close>

definition score_worker :: "dialer \<Rightarrow> string \<Rightarrow> ServerInfo list option" where
  "score_worker dial link =
     (case CheckServerHealth dial link of
        (None, Some e) \<Rightarrow> None
      | (Some info, Some e) \<Rightarrow> Some []
      | (Some info, None) \<Rightarrow> if si_Available info then Some [info] else Some []
      | (None, None) \<Rightarrow> None)"

definition latency_worker :: "dialer \<Rightarrow> string \<Rightarrow> ServerInfo list" where
  "latency_worker dial link =
     (case extractHostPort link of
        Inl e \<Rightarrow> []
      | Inr (host, port) \<Rightarrow>
          (case CheckLatency dial link of
             Inl e \<Rightarrow> []
           | Inr latency \<Rightarrow>
               [\<lparr>si_Link = link, si_Host = host, si_Port = port, si_Latency = latency, si_Available = True,
                 si_PacketLoss = 0, si_Score = 0\<rparr>]))"

type_synonym sorter = "(ServerInfo \<Rightarrow> ServerInfo \<Rightarrow> bool) \<Rightarrow> ServerInfo list \<Rightarrow> ServerInfo list"

definition rank :: "sorter \<Rightarrow> (ServerInfo \<Rightarrow> ServerInfo \<Rightarrow> bool) \<Rightarrow> ServerInfo list \<Rightarrow> ServerInfo list selection" where
  "rank srt lt servers = (if servers = [] then Fails NoServers else Selects (srt lt servers))"

definition higher_score :: "ServerInfo \<Rightarrow> ServerInfo \<Rightarrow> bool" where
  "higher_score a b \<longleftrightarrow> si_Score b < si_Score a"

definition lower_latency :: "ServerInfo \<Rightarrow> ServerInfo \<Rightarrow> bool" where
  "lower_latency a b \<longleftrightarrow> si_Latency a < si_Latency b"

definition score_results :: "(nat \<Rightarrow> dialer) \<Rightarrow> string list \<Rightarrow> ServerInfo list option list" where
  "score_results dials links = map (\<lambda>i. score_worker (dials i) (links ! i)) [0..<length links]"

definition SelectAllByScore ::
    "sorter \<Rightarrow> (ServerInfo list \<Rightarrow> ServerInfo list) \<Rightarrow> (nat \<Rightarrow> dialer) \<Rightarrow> string list \<Rightarrow> ServerInfo list selection" where
  "SelectAllByScore srt arrive dials links =
     (if links = [] then Fails NoLinks
      else
        (let results = score_results dials links in
         if None \<in> set results then Panics
         else rank srt higher_score (arrive (concat (map the results)))))"

definition SelectAllByLatency ::
    "sorter \<Rightarrow> (ServerInfo list \<Rightarrow> ServerInfo list) \<Rightarrow> (nat \<Rightarrow> dialer) \<Rightarrow> string list \<Rightarrow> ServerInfo list selection" where
  "SelectAllByLatency srt arrive dials links =
     (if links = [] then Fails NoLinks
      else rank srt lower_latency
             (arrive (concat (map (\<lambda>i. latency_worker (dials i) (links ! i)) [0..<length links]))))"

definition SelectBest ::
    "sorter \<Rightarrow> (ServerInfo list \<Rightarrow> ServerInfo list) \<Rightarrow> (nat \<Rightarrow> dialer) \<Rightarrow> string list \<Rightarrow> ServerInfo selection" where
  "SelectBest srt arrive dials links =
     (case SelectAllByScore srt arrive dials links of
        Panics \<Rightarrow> Panics
      | Fails e \<Rightarrow> Fails e
      | Selects servers \<Rightarrow> Selects (servers ! 0))"

definition SelectBestFromURL ::
    "(string \<Rightarrow> http_result) \<Rightarrow> sorter \<Rightarrow> (ServerInfo list \<Rightarrow> ServerInfo list) \<Rightarrow> (nat \<Rightarrow> dialer) \<Rightarrow> string
     \<Rightarrow> ServerInfo selection" where
  "SelectBestFromURL get srt arrive dials rawURL =
     (case FetchRawLinks get rawURL of
        Inl e \<Rightarrow> Fails (FetchLinks e)
      | Inr links \<Rightarrow> SelectBest srt arrive dials links)"

section \<open>Ranking\<close>

text \<open>What \<open>sort.Slice\<close> promises for a strict weak order, and what is known of the order in
  which the goroutines append.\<close>

definition strict_weak :: "('a \<Rightarrow> 'a \<Rightarrow> bool) \<Rightarrow> bool" where
  "strict_weak lt \<longleftrightarrow> (\<forall>x. \<not> lt x x) \<and> (\<forall>x y z. lt x y \<longrightarrow> lt y z \<longrightarrow> lt x z)
     \<and> (\<forall>x y z. \<not> lt x y \<longrightarrow> \<not> lt y z \<longrightarrow> \<not> lt x z)"

locale ranking =
  fixes srt :: sorter and arrive :: "ServerInfo list \<Rightarrow> ServerInfo list"
  assumes sort_perm: "mset (srt lt xs) = mset xs"
    and sort_sorted: "strict_weak lt \<Longrightarrow> sorted_wrt (\<lambda>x y. \<not> lt y x) (srt lt xs)"
    and arrive_perm: "mset (arrive xs) = mset xs"
begin

lemma arrive_Nil_iff: "arrive xs = [] \<longleftrightarrow> xs = []"
  using arrive_perm [of xs] by (metis mset_zero_iff)

lemma rank_spec:
  assumes "strict_weak lt"
  shows "rank srt lt (arrive xs) = Fails NoServers \<and> xs = []
     \<or> (\<exists>ys. rank srt lt (arrive xs) = Selects ys \<and> mset ys = mset xs \<and> ys \<noteq> []
          \<and> sorted_wrt (\<lambda>x y. \<not> lt y x) ys)"
proof (cases "xs = []")
  case False
  have m: "mset (srt lt (arrive xs)) = mset xs" by (simp add: sort_perm arrive_perm)
  have "srt lt (arrive xs) \<noteq> []" using False m by auto
  then show ?thesis using False m sort_sorted [OF assms, of "arrive xs"] by (simp add: rank_def arrive_Nil_iff)
qed (simp add: rank_def arrive_Nil_iff)

end

text \<open>A stable insertion sort on a completion order that is the order of the links is one
  instance.\<close>

fun insert_by :: "('a \<Rightarrow> 'a \<Rightarrow> bool) \<Rightarrow> 'a \<Rightarrow> 'a list \<Rightarrow> 'a list" where
  "insert_by lt x [] = [x]"
| "insert_by lt x (y # ys) = (if lt y x then y # insert_by lt x ys else x # y # ys)"

definition sort_Slice :: "('a \<Rightarrow> 'a \<Rightarrow> bool) \<Rightarrow> 'a list \<Rightarrow> 'a list" where
  "sort_Slice lt xs = foldr (insert_by lt) xs []"

lemma mset_insert_by [simp]: "mset (insert_by lt x ys) = add_mset x (mset ys)"
  by (induction ys) auto

lemma set_insert_by [simp]: "set (insert_by lt x ys) = insert x (set ys)"
  by (induction ys) auto

lemma sorted_insert_by:
  assumes "strict_weak lt" and "sorted_wrt (\<lambda>x y. \<not> lt y x) ys"
  shows "sorted_wrt (\<lambda>x y. \<not> lt y x) (insert_by lt x ys)"
  using assms(2)
proof (induction ys)
  case (Cons y ys)
  have asym: "lt y x \<Longrightarrow> \<not> lt x y" and trans: "\<not> lt z y \<Longrightarrow> \<not> lt y x \<Longrightarrow> \<not> lt z x" for z
    using assms(1) unfolding strict_weak_def by blast+
  show ?case using Cons asym trans by auto
qed simp

interpretation insertion: ranking sort_Slice "\<lambda>xs. xs"
proof unfold_locales
  fix lt :: "ServerInfo \<Rightarrow> ServerInfo \<Rightarrow> bool" and xs :: "ServerInfo list"
  show "mset (sort_Slice lt xs) = mset xs" by (induction xs) (simp_all add: sort_Slice_def)
  show "sorted_wrt (\<lambda>x y. \<not> lt y x) (sort_Slice lt xs)" if "strict_weak lt"
    using that by (induction xs) (simp_all add: sort_Slice_def sorted_insert_by)
qed simp

lemma strict_weak_orders: "strict_weak higher_score" "strict_weak lower_latency"
  by (auto simp: strict_weak_def higher_score_def lower_latency_def)

section \<open>Scores\<close>

lemma latency_score_unit: "0 \<le> l \<Longrightarrow> 0 \<le> latency_score l \<and> latency_score l \<le> 1"
proof -
  assume "0 \<le> l"
  then have "0 \<le> quot l millisecond" by (simp add: quot_nonneg pos_imp_zdiv_nonneg_iff)
  then have "0 \<le> f64 (f64 (real_of_int (quot l millisecond)) / 2000)" by simp
  then show ?thesis unfolding latency_score_def by (intro dbl.fl_unit) auto
qed

lemma latency_score_antimono:
  assumes "0 \<le> k" and "k \<le> l"
  shows "latency_score l \<le> latency_score k"
proof -
  have "quot k millisecond \<le> quot l millisecond" using assms by (intro quot_mono) simp_all
  then have "f64 (f64 (real_of_int (quot k millisecond)) / 2000) \<le> f64 (f64 (real_of_int (quot l millisecond)) / 2000)"
    by (intro f64_mono divide_right_mono) simp_all
  then show ?thesis unfolding latency_score_def by (intro f64_mono) auto
qed

lemma weigh_mono: "l \<le> l' \<Longrightarrow> r \<le> r' \<Longrightarrow> weigh l r \<le> weigh l' r'"
  unfolding weigh_def by (intro f64_mono add_mono) simp_all

lemma weigh_unit: "0 \<le> l \<Longrightarrow> l \<le> 1 \<Longrightarrow> 0 \<le> r \<Longrightarrow> r \<le> 1 \<Longrightarrow> 0 \<le> weigh l r \<and> weigh l r \<le> 1"
proof -
  assume "0 \<le> l" "l \<le> 1" "0 \<le> r" "r \<le> 1"
  then have "weigh 0 0 \<le> weigh l r" and "weigh l r \<le> weigh 1 1" by (auto intro: weigh_mono)
  then show ?thesis by (simp add: weigh_def)
qed

lemma score_antimono:
  assumes "0 \<le> si_Latency a" and "si_Latency a \<le> si_Latency b"
    and "0 \<le> si_PacketLoss a" and "si_PacketLoss a \<le> si_PacketLoss b" and "si_PacketLoss b \<le> 1"
  shows "calculateScore b \<le> calculateScore a"
proof -
  have "latency_score (si_Latency b) \<le> latency_score (si_Latency a)"
    by (rule latency_score_antimono [OF assms(1,2)])
  moreover have "f64 (1 - si_PacketLoss b) \<le> f64 (1 - si_PacketLoss a)" using assms(4) by (intro f64_mono) simp
  ultimately show ?thesis by (simp add: calculateScore_def weigh_mono)
qed

lemma score_unit:
  assumes "0 \<le> si_Latency a" and "0 \<le> si_PacketLoss a" and "si_PacketLoss a \<le> 1"
  shows "0 \<le> calculateScore a \<and> calculateScore a \<le> 1"
proof -
  have "0 \<le> f64 (1 - si_PacketLoss a) \<and> f64 (1 - si_PacketLoss a) \<le> 1"
    using assms dbl.fl_unit [of "1 - si_PacketLoss a"] by simp
  with latency_score_unit [OF assms(1)] show ?thesis by (simp add: calculateScore_def weigh_unit)
qed

lemma latency_score_saturates:
  assumes "2 * second \<le> l"
  shows "latency_score l = 0"
proof -
  have "2000 \<le> quot l millisecond" using assms quot_mono [of millisecond "2 * second" l]
    by (simp add: quot_nonneg)
  then have "f64 2000 \<le> f64 (real_of_int (quot l millisecond))" by (intro f64_mono) simp
  moreover have "f64 2000 = 2000" using f64_of_int [of 2000] by simp
  ultimately have "f64 1 \<le> f64 (f64 (real_of_int (quot l millisecond)) / 2000)"
    by (intro f64_mono) simp
  then show ?thesis by (simp add: latency_score_def)
qed

text \<open>C38: in binary64 arithmetic the score of a server lies between 0 and 1, and a server that
  answers at least as fast and loses no more attempts never scores lower; every latency of
  two seconds or more scores alike.\<close>

theorem calculateScore_monotone:
  assumes "0 \<le> si_Latency a" and "si_Latency a \<le> si_Latency b"
    and "0 \<le> si_PacketLoss a" and "si_PacketLoss a \<le> si_PacketLoss b" and "si_PacketLoss b \<le> 1"
  shows "0 \<le> calculateScore b \<and> calculateScore b \<le> calculateScore a \<and> calculateScore a \<le> 1
     \<and> (2 * second \<le> si_Latency a \<longrightarrow> latency_score (si_Latency a) = 0)"
  using score_antimono [OF assms] score_unit [of a] score_unit [of b] latency_score_saturates assms by simp

definition sample_server :: "duration \<Rightarrow> real \<Rightarrow> ServerInfo" where
  "sample_server l p = \<lparr>si_Link = '''', si_Host = ''h'', si_Port = ''1'', si_Latency = l, si_Available = True,
     si_PacketLoss = p, si_Score = 0\<rparr>"

theorem calculateScore_monotone_witness:
  "calculateScore (sample_server (3 * second) (1 / 2)) \<le> calculateScore (sample_server (2 * second) 0)
   \<and> latency_score (2 * second) = 0"
  using calculateScore_monotone [of "sample_server (2 * second) 0" "sample_server (3 * second) (1 / 2)"]
  by (simp add: sample_server_def)

section \<open>Selection by score\<close>

lemma score_worker_None_iff: "score_worker dial link = None \<longleftrightarrow> isl (extractHostPort link)"
  by (auto simp: score_worker_def CheckServerHealth_def Let_def split: sum.splits prod.splits)

lemma score_worker_info:
  "score_worker dial link = Some xs \<Longrightarrow> s \<in> set xs \<Longrightarrow>
   si_Available s \<and> si_Link s = link \<and> extractHostPort link = Inr (si_Host s, si_Port s)
   \<and> dial (JoinHostPort (si_Host s) (si_Port s)) 0 = Some (si_Latency s)
   \<and> si_PacketLoss s = checkPacketLoss dial (si_Host s) (si_Port s) \<and> si_Score s = calculateScore s"
  by (auto simp: score_worker_def CheckServerHealth_def CheckLatency_def calculateScore_def Let_def
      split: sum.splits prod.splits option.splits)

lemma score_panic_iff: "None \<in> set (score_results dials links) \<longleftrightarrow> (\<exists>l \<in> set links. isl (extractHostPort l))"
  unfolding score_results_def in_set_map_iff bex_nth_iff [of links] score_worker_None_iff by auto

text \<open>C35: \<open>SelectAllByScore\<close> panics exactly when some link has no end point: the worker logs the
  host of the nil information it got.  The links of a parsed raw list never make it
  panic.\<close>

theorem SelectAllByScore_panics_iff:
  "(SelectAllByScore srt arrive dials links = Panics \<longleftrightarrow> (\<exists>l \<in> set links. isl (extractHostPort l)))
   \<and> SelectAllByScore srt arrive dials (ParseLinksFromRaw raw) \<noteq> Panics"
proof -
  have iff: "SelectAllByScore srt arrive dials ls = Panics \<longleftrightarrow> (\<exists>l \<in> set ls. isl (extractHostPort l))" for ls
    by (cases "ls = []") (simp_all add: SelectAllByScore_def score_panic_iff rank_def Let_def)
  have "\<not> isl (extractHostPort l)" if "l \<in> set (ParseLinksFromRaw raw)" for l
    using parsed_endpoint [OF that] by auto
  then have "SelectAllByScore srt arrive dials (ParseLinksFromRaw raw) \<noteq> Panics"
    unfolding iff by blast
  then show ?thesis using iff [of links] by (rule conjI [rotated])
qed

text \<open>The servers that answered, in the order of the links.\<close>

definition scored_servers :: "(nat \<Rightarrow> dialer) \<Rightarrow> string list \<Rightarrow> ServerInfo list" where
  "scored_servers dials links = concat (map the (score_results dials links))"

lemma SelectAllByScore_rank:
  "links \<noteq> [] \<Longrightarrow> \<not> (\<exists>l \<in> set links. isl (extractHostPort l)) \<Longrightarrow>
   SelectAllByScore srt arrive dials links = rank srt higher_score (arrive (scored_servers dials links))"
  by (simp add: SelectAllByScore_def score_panic_iff scored_servers_def Let_def)

lemma scored_servers_info:
  assumes "s \<in> set (scored_servers dials links)" and "\<not> (\<exists>l \<in> set links. isl (extractHostPort l))"
  shows "\<exists>i < length links. si_Available s \<and> si_Link s = links ! i
     \<and> dials i (JoinHostPort (si_Host s) (si_Port s)) 0 = Some (si_Latency s)
     \<and> si_PacketLoss s = checkPacketLoss (dials i) (si_Host s) (si_Port s) \<and> si_Score s = calculateScore s"
proof -
  obtain i where i: "i < length links" "s \<in> set (the (score_worker (dials i) (links ! i)))"
    using assms(1) by (auto simp: scored_servers_def score_results_def)
  obtain xs where "score_worker (dials i) (links ! i) = Some xs"
    using assms(2) i(1) by (metis not_None_eq nth_mem score_worker_None_iff)
  with i score_worker_info show ?thesis by (intro exI [of _ i]) auto
qed

lemma checkPacketLoss_unit: "0 \<le> checkPacketLoss dial h p \<and> checkPacketLoss dial h p \<le> 1"
  unfolding checkPacketLoss_def Let_def by (intro dbl.fl_unit) (simp_all add: of_nat_diff)


definition two_links :: "string list" where
  "two_links = [''vless://a@x.org:443?#n'', ''vless://b@y.org:443?#n'']"

definition two_dials :: "nat \<Rightarrow> dialer" where
  "two_dials i addr k = (if i = 0 then None else Some (100 * millisecond))"

lemma two_links_extract:
  "extractHostPort ''vless://a@x.org:443?#n'' = Inr (''x.org'', ''443'')"
  "extractHostPort ''vless://b@y.org:443?#n'' = Inr (''y.org'', ''443'')"
  by code_simp+

lemma two_packet_loss: "checkPacketLoss (two_dials (Suc 0)) h p = 0"
proof -
  have "[0..<5] = [0, 1, 2, 3, 4 :: nat]" by code_simp
  then show ?thesis by (simp add: checkPacketLoss_def two_dials_def)
qed

lemma two_dial: "two_dials 0 addr k = None" "two_dials (Suc 0) addr k = Some (100 * millisecond)"
  by (simp_all add: two_dials_def)

lemma two_workers:
  "score_worker (two_dials 0) ''vless://a@x.org:443?#n'' = Some []"
  "score_worker (two_dials 1) ''vless://b@y.org:443?#n'' = Some [(sample_server (100 * millisecond) 0)
     \<lparr>si_Link := ''vless://b@y.org:443?#n'', si_Host := ''y.org'', si_Port := ''443'',
      si_Score := calculateScore (sample_server (100 * millisecond) 0)\<rparr>]"
  by (simp_all add: score_worker_def CheckServerHealth_def CheckLatency_def two_links_extract two_packet_loss two_dial
      sample_server_def calculateScore_def)

lemma two_scored:
  "scored_servers two_dials two_links = [(sample_server (100 * millisecond) 0)
     \<lparr>si_Link := ''vless://b@y.org:443?#n'', si_Host := ''y.org'', si_Port := ''443'',
      si_Score := calculateScore (sample_server (100 * millisecond) 0)\<rparr>]"
proof -
  have "[0..<length two_links] = [0, 1]" by code_simp
  then have "score_results two_dials two_links = [score_worker (two_dials 0) ''vless://a@x.org:443?#n'',
      score_worker (two_dials 1) ''vless://b@y.org:443?#n'']"
    unfolding score_results_def by (simp add: two_links_def)
  then show ?thesis unfolding two_workers scored_servers_def by simp
qed

lemma two_links_ok: "two_links \<noteq> []" "\<not> (\<exists>l \<in> set two_links. isl (extractHostPort l))"
  by (simp_all add: two_links_def two_links_extract)


text \<open>The server \<open>SelectBest\<close> picks scores at least as high as every server that answered,
  so none of them that is at least as fast and loses no more attempts scores differently.\<close>

theorem SelectBest_is_undominated:
  assumes "ranking srt arrive" and "SelectBest srt arrive dials links = Selects best"
    and "t \<in> set (scored_servers dials links)" and "\<And>i addr k l. dials i addr k = Some l \<Longrightarrow> 0 \<le> l"
  shows "best \<in> set (scored_servers dials links) \<and> si_Score t \<le> si_Score best
     \<and> (si_Latency t \<le> si_Latency best \<longrightarrow> si_PacketLoss t \<le> si_PacketLoss best \<longrightarrow> si_Score t = si_Score best)"
proof -
  have ne: "links \<noteq> []" using assms(3) by (auto simp: scored_servers_def score_results_def)
  obtain servers where sel: "SelectAllByScore srt arrive dials links = Selects servers" and best: "best = servers ! 0"
    using assms(2) by (auto simp: SelectBest_def split: selection.splits)
  have ok: "\<not> (\<exists>l \<in> set links. isl (extractHostPort l))"
    using sel ne by (auto simp: SelectAllByScore_def score_panic_iff Let_def split: if_splits)
  have "servers \<noteq> []" and m: "mset servers = mset (scored_servers dials links)"
    and so: "sorted_wrt (\<lambda>x y. si_Score y \<le> si_Score x) servers"
    using ranking.rank_spec [OF assms(1) strict_weak_orders(1), of "scored_servers dials links"] sel
    unfolding SelectAllByScore_rank [OF ne ok] higher_score_def not_less by auto
  have set: "set servers = set (scored_servers dials links)" using m by (metis set_mset_mset)
  obtain rest where rest: "servers = best # rest" using \<open>servers \<noteq> []\<close> best by (cases servers) auto
  have b: "best \<in> set (scored_servers dials links)" using set rest by auto
  have le: "si_Score t \<le> si_Score best" using so assms(3) unfolding set [symmetric] rest by auto
  have "si_Score best \<le> si_Score t"
    if "si_Latency t \<le> si_Latency best" and "si_PacketLoss t \<le> si_PacketLoss best"
  proof -
    have "0 \<le> si_Latency t" using scored_servers_info [OF assms(3) ok] assms(4) by blast
    moreover have "0 \<le> si_PacketLoss t" and "si_PacketLoss best \<le> 1"
      using scored_servers_info [OF assms(3) ok] scored_servers_info [OF b ok] checkPacketLoss_unit by metis+
    ultimately have "calculateScore best \<le> calculateScore t" using that by (intro score_antimono) simp_all
    then show ?thesis
      using scored_servers_info [OF assms(3) ok] scored_servers_info [OF b ok] by metis
  qed
  with b le show ?thesis by fastforce
qed

theorem SelectBest_is_undominated_witness:
  "\<exists>best. SelectBest sort_Slice (\<lambda>xs. xs) two_dials two_links = Selects best
     \<and> (\<forall>t. t = best \<longrightarrow> si_Score t \<le> si_Score best)"
proof -
  let ?s = "(sample_server (100 * millisecond) 0)\<lparr>si_Link := ''vless://b@y.org:443?#n'', si_Host := ''y.org'',
      si_Port := ''443'', si_Score := calculateScore (sample_server (100 * millisecond) 0)\<rparr>"
  have b: "SelectBest sort_Slice (\<lambda>xs. xs) two_dials two_links = Selects ?s"
    by (simp add: SelectBest_def SelectAllByScore_rank two_links_ok two_scored rank_def sort_Slice_def)
  moreover have "0 \<le> l" if "two_dials i addr k = Some l" for i addr k l
    using that by (simp add: two_dials_def split: if_splits)
  ultimately have "si_Score ?s \<le> si_Score ?s"
    using SelectBest_is_undominated [OF insertion.ranking_axioms b, of ?s] by (simp add: two_scored)
  with b show ?thesis by blast
qed

section \<open>Selection by latency\<close>

definition reachable_servers :: "(nat \<Rightarrow> dialer) \<Rightarrow> string list \<Rightarrow> ServerInfo list" where
  "reachable_servers dials links = concat (map (\<lambda>i. latency_worker (dials i) (links ! i)) [0..<length links])"

text \<open>The two workers measure the same servers, those of links without an end point apart.\<close>

lemma latency_worker_eq:
  "latency_worker dial link = (case score_worker dial link of None \<Rightarrow> []
     | Some xs \<Rightarrow> map (\<lambda>s. s\<lparr>si_PacketLoss := 0, si_Score := 0\<rparr>) xs)"
  by (auto simp: latency_worker_def score_worker_def CheckServerHealth_def CheckLatency_def Let_def
      split: sum.splits prod.splits option.splits)

lemma SelectAllByLatency_rank:
  "links \<noteq> [] \<Longrightarrow>
   SelectAllByLatency srt arrive dials links = rank srt lower_latency (arrive (reachable_servers dials links))"
  by (simp add: SelectAllByLatency_def reachable_servers_def)

lemma same_servers:
  assumes "\<not> (\<exists>l \<in> set links. isl (extractHostPort l))"
  shows "map si_Link (reachable_servers dials links) = map si_Link (scored_servers dials links)"
proof -
  have "map si_Link (latency_worker (dials i) (links ! i)) = map si_Link (the (score_worker (dials i) (links ! i)))"
    if "i \<in> set [0..<length links]" for i
  proof -
    have "score_worker (dials i) (links ! i) \<noteq> None"
      using assms that unfolding score_worker_None_iff by simp
    then show ?thesis by (auto simp: latency_worker_eq)
  qed
  then have "map (\<lambda>i. map si_Link (latency_worker (dials i) (links ! i))) [0..<length links]
      = map (\<lambda>i. map si_Link (the (score_worker (dials i) (links ! i)))) [0..<length links]"
    by (intro map_cong [OF refl])
  then show ?thesis
    by (simp only: reachable_servers_def scored_servers_def score_results_def map_concat map_map comp_def)
qed

text \<open>\<open>SelectAllByLatency\<close> never panics: links without an end point are skipped.  It returns
  the servers that answered, fastest first, and these are the servers \<open>SelectAllByScore\<close>
  ranks when every link has an end point.\<close>

theorem SelectAllByLatency_ranks:
  assumes "ranking srt arrive" and "links \<noteq> []"
  shows "(SelectAllByLatency srt arrive dials links = Fails NoServers \<and> reachable_servers dials links = []
     \<or> (\<exists>servers. SelectAllByLatency srt arrive dials links = Selects servers \<and> servers \<noteq> []
          \<and> mset servers = mset (reachable_servers dials links)
          \<and> sorted_wrt (\<lambda>x y. si_Latency x \<le> si_Latency y) servers))
     \<and> (\<not> (\<exists>l \<in> set links. isl (extractHostPort l)) \<longrightarrow>
          map si_Link (reachable_servers dials links) = map si_Link (scored_servers dials links))"
  using ranking.rank_spec [OF assms(1) strict_weak_orders(2), of "reachable_servers dials links"]
    same_servers [of links dials]
  unfolding SelectAllByLatency_rank [OF assms(2)] lower_latency_def not_less by blast

theorem SelectAllByLatency_ranks_witness:
  "\<exists>s. SelectAllByLatency sort_Slice (\<lambda>xs. xs) two_dials two_links = Selects [s]"
proof -
  have "map si_Link (reachable_servers two_dials two_links) = map si_Link (scored_servers two_dials two_links)"
    using SelectAllByLatency_ranks [OF insertion.ranking_axioms, of two_links two_dials] two_links_ok by blast
  then obtain s where s: "reachable_servers two_dials two_links = [s]"
    by (auto simp: two_scored)
  then have "SelectAllByLatency sort_Slice (\<lambda>xs. xs) two_dials two_links = Selects [s]"
    using SelectAllByLatency_ranks [OF insertion.ranking_axioms, of two_links two_dials] two_links_ok by auto
  then show ?thesis by blast
qed

section \<open>From a raw list\<close>

text \<open>Selecting from a URL is total: it fails with the fetch error, or because the list has no
  link, or because no server answered, and otherwise returns a server of the list that
  answered; it never panics.\<close>

theorem SelectBestFromURL_total:
  assumes "ranking srt arrive"
  shows "(\<exists>e. FetchRawLinks get url = Inl e \<and> SelectBestFromURL get srt arrive dials url = Fails (FetchLinks e))
     \<or> (\<exists>links. FetchRawLinks get url = Inr links
         \<and> (links = [] \<and> SelectBestFromURL get srt arrive dials url = Fails NoLinks
            \<or> scored_servers dials links = [] \<and> SelectBestFromURL get srt arrive dials url = Fails NoServers
            \<or> (\<exists>best \<in> set (scored_servers dials links).
                 si_Link best \<in> set links \<and> SelectBestFromURL get srt arrive dials url = Selects best)))"
proof (cases "FetchRawLinks get url")
  case (Inl e)
  then show ?thesis by (simp add: SelectBestFromURL_def)
next
  case (Inr links)
  then obtain body where links: "links = ParseLinksFromRaw body"
    by (auto simp: FetchRawLinks_def split: http_result.splits if_splits option.splits)
  have ok: "\<not> (\<exists>l \<in> set links. isl (extractHostPort l))"
    using parsed_endpoint unfolding links by fastforce
  show ?thesis
  proof (cases "links = []")
    case True
    then show ?thesis using Inr by (simp add: SelectBestFromURL_def SelectBest_def SelectAllByScore_def)
  next
    case False
    note sel = SelectAllByScore_rank [OF False ok, of srt arrive dials]
    consider "scored_servers dials links = []" "rank srt higher_score (arrive (scored_servers dials links)) = Fails NoServers"
      | servers where "rank srt higher_score (arrive (scored_servers dials links)) = Selects servers"
          "mset servers = mset (scored_servers dials links)" "servers \<noteq> []"
      using ranking.rank_spec [OF assms strict_weak_orders(1), of "scored_servers dials links"] by blast
    then show ?thesis
    proof cases
      case 1
      then show ?thesis using Inr sel by (simp add: SelectBestFromURL_def SelectBest_def)
    next
      case 2
      have "servers ! 0 \<in> set (scored_servers dials links)"
        using 2(2,3) by (metis length_greater_0_conv nth_mem set_mset_mset)
      moreover from this have "si_Link (servers ! 0) \<in> set links"
        using scored_servers_info [OF _ ok] by fastforce
      moreover have "SelectBestFromURL get srt arrive dials url = Selects (servers ! 0)"
        using Inr sel 2(1) by (simp add: SelectBestFromURL_def SelectBest_def)
      ultimately show ?thesis using Inr by blast
    qed
  qed
qed

theorem SelectBestFromURL_total_witness:
  "SelectBestFromURL (\<lambda>_. Response 404 None) sort_Slice (\<lambda>xs. xs) two_dials ''http://x'' = Fails (FetchLinks (UnexpectedStatus 404))"
  using SelectBestFromURL_total [OF insertion.ranking_axioms, of "\<lambda>_. Response 404 None" "''http://x''" two_dials]
  by (simp add: FetchRawLinks_def)

end
