(* ===== verification/HealthChecker.thy ===== *)
theory HealthChecker
  imports Socks5 Go_URL
begin

text \<open>
  \<open>pkg/client/health_checker.go\<close>: the state machine that turns check results into one
  failover per outage, and the two checks themselves.  A probe connection is the list of
  chunks the proxy's answers arrive in and what was written to it; \<open>conn.Read\<close> returns the
  next chunk, cut to the size of the buffer, and leaves the rest of the buffer zero.
\<close>

section \<open>State\<close>

record HealthChecker =
  hc_checkInterval :: duration
  hc_timeout :: duration
  hc_maxRetries :: int
  hc_e2eCheckURL :: string
  hc_e2eCheckHost :: string
  hc_e2eRequestStr :: string
  hc_isHealthy :: bool
  hc_lastCheck :: int
  hc_consecutiveFailures :: int
  hc_stopChan :: bool

definition NewHealthChecker :: "duration \<Rightarrow> duration \<Rightarrow> int \<Rightarrow> HealthChecker" where
  "NewHealthChecker checkInterval timeout maxRetries =
     \<lparr>hc_checkInterval = checkInterval, hc_timeout = timeout, hc_maxRetries = maxRetries,
      hc_e2eCheckURL = [], hc_e2eCheckHost = [], hc_e2eRequestStr = [],
      hc_isHealthy = True, hc_lastCheck = 0, hc_consecutiveFailures = 0, hc_stopChan = False\<rparr>"

definition crlf :: string where "crlf = [CHR 0x0D, CHR 0x0A]"

definition e2e_request :: "string \<Rightarrow> string \<Rightarrow> string" where
  "e2e_request path host = ''GET '' @ path @ '' HTTP/1.1'' @ crlf @ ''Host: '' @ host @ crlf
     @ ''User-Agent: GoXRayHealthCheck/1.0'' @ crlf @ ''Connection: close'' @ crlf @ crlf"

definition NewHealthCheckerWithE2E :: "duration \<Rightarrow> duration \<Rightarrow> int \<Rightarrow> string \<Rightarrow> HealthChecker" where
  "NewHealthCheckerWithE2E checkInterval timeout maxRetries e2eCheckURL =
     (let hc = NewHealthChecker checkInterval timeout maxRetries in
      if e2eCheckURL = [] then hc
      else
        (case url_Parse e2eCheckURL of
           None \<Rightarrow> hc\<lparr>hc_e2eCheckURL := []\<rparr>
         | Some u \<Rightarrow>
             (let host = Hostname (u_Host u);
                  port = (if Port (u_Host u) = [] then (if u_Scheme u = ''https'' then ''443'' else ''80'')
                          else Port (u_Host u));
                  path = (if u_Path u = [] then ''/'' else u_Path u)
              in hc\<lparr>hc_e2eCheckURL := e2eCheckURL, hc_e2eCheckHost := JoinHostPort host port,
                    hc_e2eRequestStr := e2e_request path host\<rparr>)))"

definition hc_Stop :: "HealthChecker \<Rightarrow> HealthChecker" where
  "hc_Stop h = (if hc_stopChan h then h else h\<lparr>hc_stopChan := True\<rparr>)"

definition IsHealthy :: "HealthChecker \<Rightarrow> bool" where
  "IsHealthy h = hc_isHealthy h"

section \<open>Outcomes\<close>

text \<open>The state after a failed check and whether the failover callback is called; a nil
  callback (\<open>has_callback\<close> false) is not.\<close>

definition handleUnhealthy :: "bool \<Rightarrow> HealthChecker \<Rightarrow> HealthChecker \<times> bool" where
  "handleUnhealthy has_callback h0 =
     (let h = h0\<lparr>hc_consecutiveFailures := hc_consecutiveFailures h0 + 1\<rparr>;
          failures = hc_consecutiveFailures h in
      if hc_maxRetries h \<le> failures then
        (let wasHealthy = hc_isHealthy h in
         (h\<lparr>hc_isHealthy := False\<rparr>, wasHealthy \<and> has_callback))
      else (h, False))"

definition markHealthy :: "int \<Rightarrow> HealthChecker \<Rightarrow> HealthChecker" where
  "markHealthy now h = h\<lparr>hc_isHealthy := True, hc_consecutiveFailures := 0, hc_lastCheck := now\<rparr>"

text \<open>
  One turn of the loop: the context or the stop channel ends it, at the select or when a
  tick finds one of them closed; else the check runs and passes or fails.
\<close>

datatype loop_event = LoopDone | TickDone | TickPassed int | TickFailed

fun healthCheckLoop :: "bool \<Rightarrow> loop_event list \<Rightarrow> HealthChecker \<Rightarrow> HealthChecker \<times> nat" where
  "healthCheckLoop cb [] h = (h, 0)"
| "healthCheckLoop cb (LoopDone # es) h = (h, 0)"
| "healthCheckLoop cb (TickDone # es) h = (h, 0)"
| "healthCheckLoop cb (TickPassed now # es) h = healthCheckLoop cb es (markHealthy now h)"
| "healthCheckLoop cb (TickFailed # es) h =
     (let (h1, triggered) = handleUnhealthy cb h; (h2, n) = healthCheckLoop cb es h1
      in (h2, (if triggered then 1 else 0) + n))"

definition hc_GetStatus :: "HealthChecker \<Rightarrow> bool \<times> int \<times> int \<times> duration \<times> int \<times> bool \<times> string option" where
  "hc_GetStatus h =
     (hc_isHealthy h, hc_consecutiveFailures h, hc_lastCheck h, hc_checkInterval h, hc_maxRetries h,
      hc_e2eCheckURL h = [], if hc_e2eCheckURL h \<noteq> [] then Some (hc_e2eCheckURL h) else None)"

section \<open>Probe connections\<close>

record probe_conn =
  pc_chunks :: "bytes list"
  pc_out :: bytes
  pc_writes :: nat
  pc_deadline_ok :: bool

definition pc_Write :: "bytes \<Rightarrow> probe_conn \<Rightarrow> probe_conn option" where
  "pc_Write bs c = (if pc_writes c = 0 then None
     else Some (c\<lparr>pc_out := pc_out c @ bs, pc_writes := pc_writes c - 1\<rparr>))"

text \<open>One \<open>Read\<close> into a fresh buffer of \<open>n\<close> octets; empty chunks do not occur on a stream.\<close>

fun next_chunk :: "bytes list \<Rightarrow> (bytes \<times> bytes list) option" where
  "next_chunk [] = None"
| "next_chunk (c # cs) = (if c = [] then next_chunk cs else Some (c, cs))"

definition pc_Read :: "nat \<Rightarrow> probe_conn \<Rightarrow> (bytes \<times> probe_conn) option" where
  "pc_Read n c =
     (case next_chunk (pc_chunks c) of
        None \<Rightarrow> None
      | Some (chunk, cs) \<Rightarrow>
          Some (take n (chunk @ replicate n 0),
                c\<lparr>pc_chunks := (if length chunk \<le> n then cs else drop n chunk # cs)\<rparr>))"

text \<open>\<open>reader.ReadString('\n')\<close> on what is left of the stream.\<close>

definition pc_ReadLine :: "probe_conn \<Rightarrow> string option" where
  "pc_ReadLine c =
     (let s = string_of_bytes (concat (pc_chunks c)) in
      if CHR 0x0A \<in> set s then Some (takeWhile (\<lambda>x. x \<noteq> CHR 0x0A) s @ [CHR 0x0A]) else None)"

datatype health_error =
    SOCKSDialFailed | SetDeadlineError | GreetingWrite | GreetingRead | InvalidSOCKSResponse byte byte
  | InvalidTarget | ConnectWrite | ConnectRead | ConnectBadVersion byte | ConnectRejected byte
  | RequestWrite | ResponseRead | InvalidHTTPResponse string

definition checkSOCKSProxy :: "probe_conn option \<Rightarrow> health_error option" where
  "checkSOCKSProxy dialled =
     (case dialled of
        None \<Rightarrow> Some SOCKSDialFailed
      | Some c0 \<Rightarrow>
          (if \<not> pc_deadline_ok c0 then Some SetDeadlineError
           else
             (case pc_Write [5, 1, 0] c0 of
                None \<Rightarrow> Some GreetingWrite
              | Some c1 \<Rightarrow>
                  (case pc_Read 2 c1 of
                     None \<Rightarrow> Some GreetingRead
                   | Some (buf, c2) \<Rightarrow>
                       (if buf ! 0 \<noteq> 5 \<or> buf ! 1 \<noteq> 0 then Some (InvalidSOCKSResponse (buf ! 0) (buf ! 1))
                        else None)))))"

text \<open>The CONNECT request for a target \<open>host:port\<close>; a port that is no number counts as 0.\<close>

definition connect_bytes :: "string \<Rightarrow> string \<Rightarrow> bytes" where
  "connect_bytes hostname targetPort =
     (let req = (case ParseIP hostname of
                   Some ip \<Rightarrow>
                     (case To4 ip of
                        Some ip4 \<Rightarrow> [5, 1, 0, 1] @ ip4
                      | None \<Rightarrow> [5, 1, 0, 4] @ (case To16 ip of Some ip16 \<Rightarrow> ip16 | None \<Rightarrow> []))
                 | None \<Rightarrow> [5, 1, 0, 3, word_of_nat (length hostname)] @ bytes_of_string hostname);
          portInt = (case sscanf_d targetPort of None \<Rightarrow> 0 | Some p \<Rightarrow> p)
      in req @ [word_of_int (portInt div 256), word_of_int portInt])"

definition checkTrafficThroughSOCKS :: "HealthChecker \<Rightarrow> probe_conn option \<Rightarrow> health_error option" where
  "checkTrafficThroughSOCKS h dialled =
     (case dialled of
        None \<Rightarrow> Some SOCKSDialFailed
      | Some c0 \<Rightarrow>
          (if \<not> pc_deadline_ok c0 then Some SetDeadlineError
           else
             (case pc_Write [5, 1, 0] c0 of
                None \<Rightarrow> Some GreetingWrite
              | Some c1 \<Rightarrow>
                  (case pc_Read 2 c1 of
                     None \<Rightarrow> Some GreetingRead
                   | Some (buf, c2) \<Rightarrow>
                       (if buf ! 0 \<noteq> 5 \<or> buf ! 1 \<noteq> 0 then Some (InvalidSOCKSResponse (buf ! 0) (buf ! 1))
                        else
                          (case SplitHostPort (hc_e2eCheckHost h) of
                             None \<Rightarrow> Some InvalidTarget
                           | Some (hostname, targetPort) \<Rightarrow>
                               (case pc_Write (connect_bytes hostname targetPort) c2 of
                                  None \<Rightarrow> Some ConnectWrite
                                | Some c3 \<Rightarrow>
                                    (case pc_Read 10 c3 of
                                       None \<Rightarrow> Some ConnectRead
                                     | Some (resp, c4) \<Rightarrow>
                                         (if resp ! 0 \<noteq> 5 then Some (ConnectBadVersion (resp ! 0))
                                          else if resp ! 1 \<noteq> 0 then Some (ConnectRejected (resp ! 1))
                                          else
                                            (case pc_Write (bytes_of_string (hc_e2eRequestStr h)) c4 of
                                               None \<Rightarrow> Some RequestWrite
                                             | Some c5 \<Rightarrow>
                                                 (case pc_ReadLine c5 of
                                                    None \<Rightarrow> Some ResponseRead
                                                  | Some line \<Rightarrow>
                                                      (if \<not> HasPrefix (TrimSpace line) ''HTTP/''
                                                       then Some (InvalidHTTPResponse (TrimSpace line))
                                                       else None))))))))))))"

definition checkHealth :: "HealthChecker \<Rightarrow> probe_conn option \<Rightarrow> probe_conn option \<Rightarrow> health_error option" where
  "checkHealth h dialled1 dialled2 =
     (case checkSOCKSProxy dialled1 of
        Some e \<Rightarrow> Some e
      | None \<Rightarrow>
          (if hc_e2eCheckURL h \<noteq> [] \<and> hc_e2eCheckHost h \<noteq> [] then checkTrafficThroughSOCKS h dialled2 else None))"

section \<open>One failover per outage\<close>

text \<open>The length of the run of failures that ends at each check.\<close>

fun failure_runs :: "nat \<Rightarrow> loop_event list \<Rightarrow> nat list" where
  "failure_runs k [] = []"
| "failure_runs k (TickFailed # es) = Suc k # failure_runs (Suc k) es"
| "failure_runs k (TickPassed now # es) = 0 # failure_runs 0 es"
| "failure_runs k (e # es) = []"

definition threshold :: "int \<Rightarrow> nat" where
  "threshold m = nat (max 1 m)"

text \<open>The invariant of the loop: the counter is the current run, and the checker is unhealthy
  exactly when the run has reached the threshold.\<close>

definition hc_inv :: "HealthChecker \<Rightarrow> bool" where
  "hc_inv h \<longleftrightarrow> 0 \<le> hc_consecutiveFailures h
     \<and> (hc_isHealthy h \<longleftrightarrow> hc_consecutiveFailures h < int (threshold (hc_maxRetries h)))"

lemma int_threshold: "int (threshold m) = max 1 m"
  by (simp add: threshold_def)

lemma handleUnhealthy_inv [steps]:
  assumes "hc_inv h"
  shows "handleUnhealthy cb h =
     (h\<lparr>hc_consecutiveFailures := hc_consecutiveFailures h + 1,
        hc_isHealthy := hc_consecutiveFailures h + 1 < int (threshold (hc_maxRetries h))\<rparr>,
      cb \<and> hc_consecutiveFailures h + 1 = int (threshold (hc_maxRetries h)))"
  using assms unfolding handleUnhealthy_def hc_inv_def int_threshold
  by (cases h) (auto simp: Let_def)

lemma hc_inv_step:
  assumes "hc_inv h"
  shows "hc_inv (fst (handleUnhealthy cb h))" and "hc_inv (markHealthy now h)"
    and "hc_maxRetries (fst (handleUnhealthy cb h)) = hc_maxRetries h"
  using assms by (simp_all add: handleUnhealthy_inv hc_inv_def markHealthy_def int_threshold)

lemma healthCheckLoop_failed [steps]:
  "healthCheckLoop cb (TickFailed # es) h =
     (fst (healthCheckLoop cb es (fst (handleUnhealthy cb h))),
      (if snd (handleUnhealthy cb h) then 1 else 0) + snd (healthCheckLoop cb es (fst (handleUnhealthy cb h))))"
  by (cases "handleUnhealthy cb h"; cases "healthCheckLoop cb es (fst (handleUnhealthy cb h))") simp

lemma healthCheckLoop_counts:
  assumes "hc_inv h"
  shows "hc_inv (fst (healthCheckLoop True es h))
    \<and> snd (healthCheckLoop True es h)
       = count_list (failure_runs (nat (hc_consecutiveFailures h)) es) (threshold (hc_maxRetries h))
    \<and> hc_consecutiveFailures (fst (healthCheckLoop True es h))
       = int (last (nat (hc_consecutiveFailures h) # failure_runs (nat (hc_consecutiveFailures h)) es))"
  using assms
proof (induction es arbitrary: h)
  case (Cons e es)
  show ?case
  proof (cases e)
    case (TickPassed now)
    have "hc_inv (markHealthy now h)" by (rule hc_inv_step(2) [OF Cons.prems])
    from Cons.IH [OF this] TickPassed show ?thesis
      by (auto simp: markHealthy_def threshold_def)
  next
    case TickFailed
    define h1 where "h1 = fst (handleUnhealthy True h)"
    have inv: "hc_inv h1" and m: "hc_maxRetries h1 = hc_maxRetries h"
      unfolding h1_def by (rule hc_inv_step [OF Cons.prems])+
    have pos: "0 \<le> hc_consecutiveFailures h" using Cons.prems by (simp add: hc_inv_def)
    have n: "nat (hc_consecutiveFailures h1) = Suc (nat (hc_consecutiveFailures h))"
      using pos by (simp add: h1_def handleUnhealthy_inv [OF Cons.prems] nat_add_distrib)
    have t: "snd (handleUnhealthy True h) \<longleftrightarrow> Suc (nat (hc_consecutiveFailures h)) = threshold (hc_maxRetries h)"
      using pos by (auto simp: handleUnhealthy_inv [OF Cons.prems] threshold_def)
    show ?thesis
      unfolding TickFailed healthCheckLoop_failed h1_def [symmetric] using Cons.IH [OF inv] by (simp add: m n t)
  qed (use Cons.prems in \<open>simp_all add: hc_inv_def\<close>)
qed (simp add: hc_inv_def)

lemma handleUnhealthy_maxRetries [simp]: "hc_maxRetries (fst (handleUnhealthy cb h)) = hc_maxRetries h"
  by (simp add: handleUnhealthy_def Let_def)

lemma healthCheckLoop_maxRetries: "hc_maxRetries (fst (healthCheckLoop cb es h)) = hc_maxRetries h"
proof (induction es arbitrary: h)
  case (Cons e es)
  have "hc_maxRetries (fst (healthCheckLoop cb es (fst (handleUnhealthy cb h)))) = hc_maxRetries h"
    using Cons.IH [of "fst (handleUnhealthy cb h)"] by simp
  then show ?case using Cons.IH by (cases e) (simp_all add: healthCheckLoop_failed markHealthy_def del: healthCheckLoop.simps(5))
qed simp

lemma NewHealthChecker_inv: "hc_inv (NewHealthCheckerWithE2E i t m u)"
  by (simp add: NewHealthCheckerWithE2E_def NewHealthChecker_def hc_inv_def int_threshold less_max_iff_disj Let_def split: option.split)

lemma NewHealthChecker_fields:
  "hc_consecutiveFailures (NewHealthCheckerWithE2E i t m u) = 0" "hc_maxRetries (NewHealthCheckerWithE2E i t m u) = m"
  by (simp_all add: NewHealthCheckerWithE2E_def NewHealthChecker_def Let_def split: option.split)

text \<open>C20: over any sequence of checks the failover callback is called exactly once per outage, at the
  check that makes the run of consecutive failures reach \<open>maxRetries\<close> (the first failure
  when it is below 1); at the end the counter is the length of the last run and the
  checker is healthy exactly when that run is shorter.\<close>

theorem failover_once_per_outage:
  "case healthCheckLoop True es (NewHealthCheckerWithE2E i t m u) of
     (h, calls) \<Rightarrow>
       calls = count_list (failure_runs 0 es) (threshold m)
       \<and> hc_consecutiveFailures h = int (last (0 # failure_runs 0 es))
       \<and> (hc_isHealthy h \<longleftrightarrow> last (0 # failure_runs 0 es) < threshold m)"
proof -
  let ?h = "fst (healthCheckLoop True es (NewHealthCheckerWithE2E i t m u))"
  note m = healthCheckLoop_maxRetries
  show ?thesis
    using healthCheckLoop_counts [OF NewHealthChecker_inv, of es i t m u] m [of True es "NewHealthCheckerWithE2E i t m u"]
    by (auto simp: NewHealthChecker_fields hc_inv_def split: prod.splits)
qed

section \<open>What the checks accept\<close>

lemma pc_Read_2:
  "pc_Read 2 c = (case next_chunk (pc_chunks c) of None \<Rightarrow> None
     | Some (chunk, cs) \<Rightarrow> Some (take 2 (chunk @ [0, 0]),
         c\<lparr>pc_chunks := (if length chunk \<le> 2 then cs else drop 2 chunk # cs)\<rparr>))"
proof -
  have "replicate 2 (0 :: byte) = [0, 0]" by (simp add: numeral_2_eq_2)
  then show ?thesis by (simp only: pc_Read_def)
qed

lemma pc_Read_2_chunk:
  assumes "next_chunk (pc_chunks c) = Some (b # rest, cs)"
  shows "\<exists>c2. pc_Read 2 c = Some ([b, if rest = [] then 0 else hd rest], c2)"
proof -
  have "take 2 ((b # rest) @ [0, 0]) = [b, if rest = [] then 0 else hd rest]"
    by (cases rest) (simp_all add: numeral_2_eq_2)
  then show ?thesis unfolding pc_Read_2 assms by (simp only: option.case prod.case) blast
qed

lemma next_chunk_not_Nil: "next_chunk cs = Some (c, r) \<Longrightarrow> c \<noteq> []"
  by (induction cs rule: next_chunk.induct) (auto split: if_splits)

text \<open>The proxy check passes exactly when the proxy can be reached and the first chunk it
  answers with starts with the version 5 and, unless the chunk ends there, the method 0: a
  single octet 5 is enough, because \<open>conn.Read\<close> may return less than the two octets asked
  for and the rest of the buffer is zero.\<close>

theorem checkSOCKSProxy_accepts_iff:
  "checkSOCKSProxy dialled = None \<longleftrightarrow>
     (\<exists>c rest cs. dialled = Some c \<and> pc_deadline_ok c \<and> pc_writes c \<noteq> 0
        \<and> next_chunk (pc_chunks c) = Some (5 # rest, cs) \<and> (rest = [] \<or> hd rest = 0))"
proof (cases dialled)
  case (Some c)
  show ?thesis
  proof (cases "next_chunk (pc_chunks c)")
    case None
    then show ?thesis using Some by (simp add: checkSOCKSProxy_def pc_Write_def pc_Read_2)
  next
    case (Some p)
    obtain chunk cs where p: "p = (chunk, cs)" by (cases p)
    obtain b rest where c: "chunk = b # rest"
      using next_chunk_not_Nil [of "pc_chunks c" chunk cs] Some p by (cases chunk) auto
    obtain c2 where "pc_Read 2 (c\<lparr>pc_out := pc_out c @ [5, 1, 0], pc_writes := pc_writes c - 1\<rparr>)
        = Some ([b, if rest = [] then 0 else hd rest], c2)"
      using pc_Read_2_chunk [of "c\<lparr>pc_out := pc_out c @ [5, 1, 0], pc_writes := pc_writes c - 1\<rparr>" b rest cs]
        Some p c by auto
    then have "checkSOCKSProxy (Some c) = None \<longleftrightarrow> pc_deadline_ok c \<and> pc_writes c \<noteq> 0 \<and> b = 5 \<and> (rest = [] \<or> hd rest = 0)"
      by (auto simp: checkSOCKSProxy_def pc_Write_def)
    then show ?thesis using \<open>dialled = Some c\<close> Some p c by auto
  qed
qed (simp add: checkSOCKSProxy_def)

section \<open>Checking this program's own server\<close>

lemma ParseIP_length: "ParseIP s = Some ip \<Longrightarrow> length ip = 16"
  by (auto simp: ParseIP_def To16_def v4InV6Prefix_def split: option.splits if_splits)

lemma To4_length: "To4 ip = Some ip4 \<Longrightarrow> length ip4 = 4"
  by (auto simp: To4_def split: if_splits)

text \<open>The destination the check names for a target host.\<close>

definition target_dest :: "string \<Rightarrow> dest" where
  "target_dest host =
     (case ParseIP host of
        None \<Rightarrow> DestDomain host
      | Some ip \<Rightarrow> (case To4 ip of Some ip4 \<Rightarrow> DestIPv4 ip4 | None \<Rightarrow> DestIPv6 ip))"

lemma target_dest_valid: "length host < 256 \<Longrightarrow> valid_dest (target_dest host)"
  by (auto simp: target_dest_def ParseIP_length To4_length split: option.splits)

lemma connect_bytes_request:
  assumes "p < 65536"
  shows "connect_bytes host (itoa_nat p) = connect_request (target_dest host) p"
proof -
  have "sscanf_d (itoa_nat p) = Some (int p)" using assms by (intro sscanf_d_itoa_nat) simp
  moreover have "int p div 256 = int (p div 256)" by (simp add: zdiv_int)
  then have "(word_of_int (int p div 256) :: byte) = word_of_nat (p div 256)" by simp
  moreover have "(word_of_int (int p) :: byte) = word_of_nat (p mod 256)"
    by (simp add: word_of_nat_eq_iff take_bit_eq_mod)
  ultimately show ?thesis
    by (simp add: connect_bytes_def connect_request_def target_dest_def port_bytes_def enc_lp_def To16_def
        ParseIP_length split: option.splits)
qed

text \<open>C27: the request of the end-to-end check is understood by the SOCKS5 server: for a target
  \<open>host:port\<close> with a host below 256 bytes, a server without credentials that receives the
  greeting and the CONNECT request of the check dials exactly that host (or the address it
  is the text of) and port.\<close>

theorem e2e_request_understood:
  assumes "CHR ''['' \<notin> set host" and "CHR '']'' \<notin> set host" and "length host < 256" and "p < 65536"
    and "SplitHostPort (JoinHostPort host (itoa_nat p)) = Some (hostname, port)"
    and "\<not> auth_required cfg" and "c_deadline_ok c" and "0 < c_writes c"
    and "c_in c = [5, 1, 0] @ connect_bytes hostname port @ r"
  shows "hostname = host
     \<and> rr_dialled (handleConnection cfg dial cancelled c) = Some (dest_text (target_dest host) p)"
proof -
  have "CHR '':'' \<notin> set (itoa_nat p)" "CHR ''['' \<notin> set (itoa_nat p)" "CHR '']'' \<notin> set (itoa_nat p)"
    using itoa_nat_clean by blast+
  with assms(1,2,5) have h: "hostname = host" "port = itoa_nat p"
    using SplitHostPort_JoinHostPort by auto
  let ?c1 = "c\<lparr>c_deadline := Armed (s5_Timeout cfg)\<rparr>"
  let ?c2 = "?c1\<lparr>c_in := connect_request (target_dest host) p @ r, c_out := c_out c @ [5, 0], c_writes := c_writes c - 1\<rparr>"
  have "handshake cfg ?c1 = (None, ?c2)"
    using assms(6,8,9) handshake_on [of ?c1 "[0]" "connect_request (target_dest host) p @ r" cfg]
    by (simp add: h connect_bytes_request [OF assms(4)] required_method_def)
  moreover have "rr_dialled (processRequest dial cancelled ?c2) = Some (dest_text (target_dest host) p)"
    by (subst processRequest_connect [of _ "target_dest host" p r])
      (use assms(3,4) target_dest_valid in \<open>auto simp: Let_def split: option.splits prod.splits bool.splits\<close>)
  ultimately show ?thesis
    using assms(6,7) h by (simp add: handleConnection_def finish_def SetDeadline_def)
qed

theorem e2e_request_understood_witness:
  "rr_dialled (handleConnection (admin_cfg\<lparr>s5_Username := [], s5_Password := []\<rparr>) (\<lambda>_. None) False
     (idle_conn ([5, 1, 0] @ connect_bytes ''ipinfo.io'' ''80''))) = Some ''ipinfo.io:80''"
proof -
  have "SplitHostPort (JoinHostPort ''ipinfo.io'' (itoa_nat 80)) = Some (''ipinfo.io'', ''80'')" by code_simp
  moreover have "dest_text (target_dest ''ipinfo.io'') 80 = ''ipinfo.io:80''" by code_simp
  ultimately show ?thesis
    using e2e_request_understood [of "''ipinfo.io''" 80 "''ipinfo.io''" "''80''"
        "admin_cfg\<lparr>s5_Username := [], s5_Password := []\<rparr>"
        "idle_conn ([5, 1, 0] @ connect_bytes ''ipinfo.io'' ''80'')" "[]" "\<lambda>_. None" False]
    by (simp add: auth_required_def admin_cfg_def idle_conn_def)
qed



end
