(* ===== verification/SplitTunnel.thy ===== *)
theory SplitTunnel
  imports Go_Net
begin

text \<open>
  \<open>pkg/client/split_tunnel_config.go\<close>, \<open>split_tunnel_router.go\<close> and
  \<open>split_tunnel_integration.go\<close>: which destinations go through the tunnel, and the routes and
  firewall exceptions the client installs for it.  \<open>route.MustParseAddr\<close> of the core library is
  the parameter \<open>must\<close> (\<open>None\<close> is its panic), the routing table answers by the parameters
  \<open>add\<close> and \<open>del\<close>, and a command runs or fails by the parameter \<open>run\<close>.
\<close>

section \<open>Configuration\<close>

record SplitTunnelConfig =
  st_Enabled :: bool
  st_Mode :: string
  st_ExcludeCIDRs :: "string list"
  st_IncludeCIDRs :: "string list"
  st_ExcludeDomains :: "string list"
  st_IncludeDomains :: "string list"

datatype split_error =
    InvalidMode string | ExcludeEmpty | IncludeEmpty | InvalidExcludeCIDR string | InvalidIncludeCIDR string
  | InvalidConfig split_error | ParseCIDRs split_error | CreateRouter split_error | UnsupportedMode string

definition SplitTunnelModeExclude :: string where "SplitTunnelModeExclude = ''exclude''"
definition SplitTunnelModeInclude :: string where "SplitTunnelModeInclude = ''include''"
definition SplitTunnelModeDisabled :: string where "SplitTunnelModeDisabled = ''disabled''"

lemmas split_modes = SplitTunnelModeExclude_def SplitTunnelModeInclude_def SplitTunnelModeDisabled_def

text \<open>The first text of a list that is no CIDR.\<close>

definition bad_cidr :: "string list \<Rightarrow> string option" where
  "bad_cidr cidrs = find (\<lambda>c. ParseCIDR c = None) cidrs"

definition SplitTunnelConfig_Validate :: "SplitTunnelConfig \<Rightarrow> split_error option" where
  "SplitTunnelConfig_Validate c =
     (if \<not> st_Enabled c then None
      else if st_Mode c \<notin> {SplitTunnelModeExclude, SplitTunnelModeInclude, SplitTunnelModeDisabled}
      then Some (InvalidMode (st_Mode c))
      else if st_Mode c = SplitTunnelModeExclude \<and> st_ExcludeCIDRs c = [] then Some ExcludeEmpty
      else if st_Mode c = SplitTunnelModeExclude \<and> bad_cidr (st_ExcludeCIDRs c) \<noteq> None
      then Some (InvalidExcludeCIDR (the (bad_cidr (st_ExcludeCIDRs c))))
      else if st_Mode c = SplitTunnelModeInclude \<and> st_IncludeCIDRs c = [] then Some IncludeEmpty
      else if st_Mode c = SplitTunnelModeInclude \<and> bad_cidr (st_IncludeCIDRs c) \<noteq> None
      then Some (InvalidIncludeCIDR (the (bad_cidr (st_IncludeCIDRs c))))
      else None)"

definition SplitTunnelConfig_SetDefaults :: "SplitTunnelConfig \<Rightarrow> SplitTunnelConfig" where
  "SplitTunnelConfig_SetDefaults c = (if st_Mode c = [] then c\<lparr>st_Mode := SplitTunnelModeDisabled\<rparr> else c)"

section \<open>Router\<close>

record SplitTunnelRouter =
  sr_config :: SplitTunnelConfig
  sr_excludeNets :: "IPNet list"
  sr_includeNets :: "IPNet list"

fun parse_nets :: "(string \<Rightarrow> split_error) \<Rightarrow> string list \<Rightarrow> split_error + IPNet list" where
  "parse_nets err [] = Inr []"
| "parse_nets err (c # cs) =
     (case ParseCIDR c of
        None \<Rightarrow> Inl (err c)
      | Some (_, ipNet) \<Rightarrow> bind_result (parse_nets err cs) (\<lambda>ns. Inr (ipNet # ns)))"

definition parseCIDRs :: "SplitTunnelRouter \<Rightarrow> split_error + SplitTunnelRouter" where
  "parseCIDRs r =
     bind_result (parse_nets InvalidExcludeCIDR (st_ExcludeCIDRs (sr_config r))) (\<lambda>ex.
     bind_result (parse_nets InvalidIncludeCIDR (st_IncludeCIDRs (sr_config r))) (\<lambda>inc.
     Inr (r\<lparr>sr_excludeNets := sr_excludeNets r @ ex, sr_includeNets := sr_includeNets r @ inc\<rparr>)))"

definition NewSplitTunnelRouter :: "SplitTunnelConfig \<Rightarrow> split_error + SplitTunnelRouter" where
  "NewSplitTunnelRouter config =
     (case SplitTunnelConfig_Validate config of
        Some e \<Rightarrow> Inl (InvalidConfig e)
      | None \<Rightarrow>
          (case parseCIDRs \<lparr>sr_config = config, sr_excludeNets = [], sr_includeNets = []\<rparr> of
             Inl e \<Rightarrow> Inl (ParseCIDRs e)
           | Inr router \<Rightarrow> Inr router))"

fun match_nets :: "IPNet list \<Rightarrow> net_IP \<Rightarrow> bool" where
  "match_nets [] ip = False"
| "match_nets (n # ns) ip = (if IPNet_Contains n ip then True else match_nets ns ip)"

definition ShouldRouteThroughVPN :: "SplitTunnelRouter \<Rightarrow> net_IP \<Rightarrow> bool" where
  "ShouldRouteThroughVPN r destIP =
     (if \<not> st_Enabled (sr_config r) then True
      else if st_Mode (sr_config r) = SplitTunnelModeExclude then
        (if match_nets (sr_excludeNets r) destIP then False else True)
      else if st_Mode (sr_config r) = SplitTunnelModeInclude then
        (if match_nets (sr_includeNets r) destIP then True else False)
      else True)"

text \<open>The route addresses, \<open>None\<close> when \<open>MustParseAddr\<close> panics on one of them.\<close>

fun must_parse_all :: "(string \<Rightarrow> 'a option) \<Rightarrow> string list \<Rightarrow> 'a list option" where
  "must_parse_all must [] = Some []"
| "must_parse_all must (c # cs) =
     (case must c of None \<Rightarrow> None | Some a \<Rightarrow> map_option (\<lambda>as. a # as) (must_parse_all must cs))"

definition GetExcludedRoutes :: "(string \<Rightarrow> 'a option) \<Rightarrow> SplitTunnelRouter \<Rightarrow> 'a list option" where
  "GetExcludedRoutes must r =
     (if st_Mode (sr_config r) \<noteq> SplitTunnelModeExclude then Some []
      else must_parse_all must (st_ExcludeCIDRs (sr_config r)))"

definition GetIncludedRoutes :: "(string \<Rightarrow> 'a option) \<Rightarrow> SplitTunnelRouter \<Rightarrow> 'a list option" where
  "GetIncludedRoutes must r =
     (if st_Mode (sr_config r) \<noteq> SplitTunnelModeInclude then Some []
      else must_parse_all must (st_IncludeCIDRs (sr_config r)))"

definition SplitTunnelRouter_GetStats :: "SplitTunnelRouter \<Rightarrow> bool \<times> string \<times> nat \<times> nat" where
  "SplitTunnelRouter_GetStats r =
     (st_Enabled (sr_config r), st_Mode (sr_config r), length (sr_excludeNets r), length (sr_includeNets r))"

section \<open>Integration with the client\<close>

text \<open>
  The part of the client the integration reads and writes: its router, the routes that lead
  into the tunnel, and the direct routes in the routing table, by destination.
\<close>

record 'a split_client =
  sc_router :: "SplitTunnelRouter option"
  sc_RoutesToTUN :: "'a list"
  sc_direct :: "'a list"

datatype setup_outcome = SetupOk | SetupFailed split_error | SetupPanics

definition add_direct :: "('a \<Rightarrow> bool) \<Rightarrow> 'a \<Rightarrow> 'a split_client \<Rightarrow> 'a split_client" where
  "add_direct add a c = (if add a then c\<lparr>sc_direct := sc_direct c @ [a]\<rparr> else c)"

definition setupExcludeMode :: "(string \<Rightarrow> 'a option) \<Rightarrow> ('a \<Rightarrow> bool) \<Rightarrow> 'a split_client \<Rightarrow> setup_outcome \<times> 'a split_client" where
  "setupExcludeMode must add c =
     (case GetExcludedRoutes must (the (sc_router c)) of
        None \<Rightarrow> (SetupPanics, c)
      | Some excludedRoutes \<Rightarrow>
          (if excludedRoutes = [] then (SetupFailed ExcludeEmpty, c)
           else (SetupOk, fold (add_direct add) excludedRoutes c)))"

definition setupIncludeMode :: "(string \<Rightarrow> 'a option) \<Rightarrow> 'a split_client \<Rightarrow> setup_outcome \<times> 'a split_client" where
  "setupIncludeMode must c =
     (case GetIncludedRoutes must (the (sc_router c)) of
        None \<Rightarrow> (SetupPanics, c)
      | Some includedRoutes \<Rightarrow>
          (if includedRoutes = [] then (SetupFailed IncludeEmpty, c)
           else (SetupOk, c\<lparr>sc_RoutesToTUN := includedRoutes\<rparr>)))"

definition setupSplitTunneling ::
    "(string \<Rightarrow> 'a option) \<Rightarrow> ('a \<Rightarrow> bool) \<Rightarrow> SplitTunnelConfig \<Rightarrow> 'a split_client \<Rightarrow> setup_outcome \<times> 'a split_client" where
  "setupSplitTunneling must add cfg c =
     (if \<not> st_Enabled cfg then (SetupOk, c)
      else
        (case NewSplitTunnelRouter cfg of
           Inl e \<Rightarrow> (SetupFailed (CreateRouter e), c)
         | Inr router \<Rightarrow>
             (let c1 = c\<lparr>sc_router := Some router\<rparr> in
              if st_Mode cfg = SplitTunnelModeExclude then setupExcludeMode must add c1
              else if st_Mode cfg = SplitTunnelModeInclude then setupIncludeMode must c1
              else (SetupFailed (UnsupportedMode (st_Mode cfg)), c1))))"

definition del_direct :: "('a \<Rightarrow> bool) \<Rightarrow> 'a \<Rightarrow> 'a split_client \<Rightarrow> 'a split_client" where
  "del_direct del a c = (if del a then c\<lparr>sc_direct := filter (\<lambda>b. b \<noteq> a) (sc_direct c)\<rparr> else c)"

definition cleanupSplitTunneling :: "(string \<Rightarrow> 'a option) \<Rightarrow> ('a \<Rightarrow> bool) \<Rightarrow> 'a split_client \<Rightarrow> setup_outcome \<times> 'a split_client" where
  "cleanupSplitTunneling must del c =
     (case sc_router c of
        None \<Rightarrow> (SetupOk, c)
      | Some router \<Rightarrow>
          (if st_Mode (sr_config router) = SplitTunnelModeExclude then
             (case GetExcludedRoutes must router of
                None \<Rightarrow> (SetupPanics, c)
              | Some excludedRoutes \<Rightarrow> (SetupOk, fold (del_direct del) excludedRoutes c))
           else (SetupOk, c)))"

text \<open>The firewall commands of the kill-switch integration; their failures are only logged.\<close>

definition split_exception :: "bool \<Rightarrow> string \<Rightarrow> string list" where
  "split_exception useIPv6 cidr =
     [if useIPv6 then ''ip6tables'' else ''iptables'', ''-I'', ''goxray_killswitch'', ''1'', ''-d'', cidr, ''-j'', ''ACCEPT'']"

definition integrateSplitTunnelWithKillSwitch :: "bool \<Rightarrow> 'a split_client \<Rightarrow> string list list" where
  "integrateSplitTunnelWithKillSwitch useIPv6 c =
     (case sc_router c of
        None \<Rightarrow> []
      | Some router \<Rightarrow>
          (if st_Mode (sr_config router) \<noteq> SplitTunnelModeExclude then []
           else map (split_exception useIPv6) (st_ExcludeCIDRs (sr_config router))))"

section \<open>Routing decisions\<close>

lemma match_nets_iff [simp]: "match_nets ns ip \<longleftrightarrow> (\<exists>n \<in> set ns. IPNet_Contains n ip)"
  by (induction ns) auto

text \<open>The specification: an address is covered by a list of CIDRs when one of their networks
  contains it; for an IPv4 CIDR that means sharing its prefix.\<close>

definition covered :: "string list \<Rightarrow> net_IP \<Rightarrow> bool" where
  "covered cidrs d \<longleftrightarrow> (\<exists>c \<in> set cidrs. \<exists>ip n. ParseCIDR c = Some (ip, n) \<and> IPNet_Contains n d)"

lemma parse_nets_ok:
  "parse_nets err cidrs = Inr ns \<Longrightarrow>
   list_all (\<lambda>c. ParseCIDR c \<noteq> None) cidrs \<and> ((\<exists>n \<in> set ns. IPNet_Contains n d) \<longleftrightarrow> covered cidrs d)"
proof (induction cidrs arbitrary: ns)
  case (Cons c cs)
  obtain ip n ns' where c: "ParseCIDR c = Some (ip, n)" and ns': "parse_nets err cs = Inr ns'" and ns: "ns = n # ns'"
    using Cons.prems by (auto simp: bind_result_Inr_iff split: option.splits prod.splits)
  from Cons.IH [OF ns'] show ?case by (auto simp: c ns covered_def)
qed (simp add: covered_def)

lemma NewSplitTunnelRouter_ok:
  assumes "NewSplitTunnelRouter cfg = Inr r"
  shows "sr_config r = cfg \<and> SplitTunnelConfig_Validate cfg = None
     \<and> parse_nets InvalidExcludeCIDR (st_ExcludeCIDRs cfg) = Inr (sr_excludeNets r)
     \<and> parse_nets InvalidIncludeCIDR (st_IncludeCIDRs cfg) = Inr (sr_includeNets r)"
  using assms
  by (auto simp: NewSplitTunnelRouter_def parseCIDRs_def bind_result_Inr_iff split: option.splits sum.splits)

text \<open>An address shares the prefix of one of the CIDRs.\<close>

definition shares_prefix :: "string list \<Rightarrow> net_IP \<Rightarrow> bool" where
  "shares_prefix cidrs d \<longleftrightarrow>
     (\<exists>c \<in> set cidrs. \<exists>bs n d4. cidr_of c = Some (bs, n) \<and> To4 d = Some d4 \<and> prefix_bits n d4 = prefix_bits n bs)"

definition ipv4_cidrs :: "string list \<Rightarrow> bool" where
  "ipv4_cidrs cidrs \<longleftrightarrow> list_all (\<lambda>c. case cidr_of c of None \<Rightarrow> False | Some (bs, n) \<Rightarrow> length bs = 4) cidrs"

lemma covered_ipv4:
  assumes "ipv4_cidrs cidrs"
  shows "covered cidrs d \<longleftrightarrow> shares_prefix cidrs d"
proof -
  have "(\<exists>ip m. ParseCIDR c = Some (ip, m) \<and> IPNet_Contains m d)
      \<longleftrightarrow> (\<exists>bs n d4. cidr_of c = Some (bs, n) \<and> To4 d = Some d4 \<and> prefix_bits n d4 = prefix_bits n bs)"
    if "c \<in> set cidrs" for c
  proof -
    have "case cidr_of c of None \<Rightarrow> False | Some (bs, n) \<Rightarrow> length bs = 4"
      using assms that by (simp add: ipv4_cidrs_def list_all_iff)
    then obtain bs n where b: "cidr_of c = Some (bs, n)" "length bs = 4" by (cases "cidr_of c") auto
    then obtain ip m where "ParseCIDR c = Some (ip, m)" by (auto simp: ParseCIDR_cidr_of Let_def)
    with contains_ipv4 [OF this b] b show ?thesis by auto
  qed
  then show ?thesis unfolding covered_def shares_prefix_def by blast
qed


definition lan_cfg :: SplitTunnelConfig where
  "lan_cfg = \<lparr>st_Enabled = True, st_Mode = ''exclude'', st_ExcludeCIDRs = [''10.0.0.0/8'', ''192.168.1.0/24''],
     st_IncludeCIDRs = [], st_ExcludeDomains = [], st_IncludeDomains = []\<rparr>"


section \<open>Setting up and cleaning up\<close>

lemma fold_add_direct:
  "fold (add_direct add) as c = c\<lparr>sc_direct := sc_direct c @ filter add as\<rparr>"
  by (induction as arbitrary: c) (simp_all add: add_direct_def)

lemma fold_del_direct:
  "fold (del_direct del) as c = c\<lparr>sc_direct := filter (\<lambda>b. \<not> (b \<in> set as \<and> del b)) (sc_direct c)\<rparr>"
proof (induction as arbitrary: c)
  case (Cons a as)
  have "(\<lambda>b. \<not> (b \<in> set (a # as) \<and> del b)) =
      (if del a then (\<lambda>b. b \<noteq> a \<and> \<not> (b \<in> set as \<and> del b)) else (\<lambda>b. \<not> (b \<in> set as \<and> del b)))"
    by (auto simp: fun_eq_iff)
  then show ?case using Cons.IH by (simp add: del_direct_def)
qed simp

lemma must_parse_all_total:
  "(\<And>c. c \<in> set cs \<Longrightarrow> must c \<noteq> None) \<Longrightarrow> must_parse_all must cs = Some (map (the \<circ> must) cs)"
proof (induction cs)
  case (Cons c cs)
  obtain a where "must c = Some a" using Cons.prems [of c] by auto
  with Cons show ?case by simp
qed simp

lemma parse_nets_valid: "parse_nets err cidrs = Inr ns \<Longrightarrow> c \<in> set cidrs \<Longrightarrow> ParseCIDR c \<noteq> None"
  using parse_nets_ok by (fastforce simp: list_all_iff)



text \<open>A configuration that is enabled with the mode "disabled" passes validation, and set-up
  then fails on it, leaving a router behind.\<close>

theorem disabled_mode_is_accepted_then_fails:
  assumes "st_Enabled cfg" and "st_Mode cfg = ''disabled''"
    and "list_all (\<lambda>c. ParseCIDR c \<noteq> None) (st_ExcludeCIDRs cfg @ st_IncludeCIDRs cfg)"
  shows "SplitTunnelConfig_Validate cfg = None
     \<and> fst (setupSplitTunneling must add cfg c) = SetupFailed (UnsupportedMode ''disabled'')
     \<and> sc_router (snd (setupSplitTunneling must add cfg c)) \<noteq> None"
proof -
  have ok: "list_all (\<lambda>c. ParseCIDR c \<noteq> None) cs \<Longrightarrow> \<exists>ns. parse_nets err cs = Inr ns" for err cs
    by (induction cs) auto
  have "SplitTunnelConfig_Validate cfg = None"
    using assms(1,2) by (simp add: SplitTunnelConfig_Validate_def split_modes)
  moreover obtain ex inc where "parse_nets InvalidExcludeCIDR (st_ExcludeCIDRs cfg) = Inr ex"
    and "parse_nets InvalidIncludeCIDR (st_IncludeCIDRs cfg) = Inr inc"
    using ok [of "st_ExcludeCIDRs cfg"] ok [of "st_IncludeCIDRs cfg"] assms(3) by fastforce
  then have "\<exists>r. NewSplitTunnelRouter cfg = Inr r"
    using calculation by (simp add: NewSplitTunnelRouter_def parseCIDRs_def)
  then obtain r where "NewSplitTunnelRouter cfg = Inr r" by blast
  ultimately show ?thesis
    using assms(1,2) by (simp add: setupSplitTunneling_def split_modes Let_def)
qed

theorem disabled_mode_is_accepted_then_fails_witness:
  "fst (setupSplitTunneling Some (\<lambda>_. True) (lan_cfg\<lparr>st_Mode := ''disabled'', st_ExcludeCIDRs := []\<rparr>)
     \<lparr>sc_router = None, sc_RoutesToTUN = [], sc_direct = []\<rparr>) = SetupFailed (UnsupportedMode ''disabled'')"
  using disabled_mode_is_accepted_then_fails [of "lan_cfg\<lparr>st_Mode := ''disabled'', st_ExcludeCIDRs := []\<rparr>"
      Some "\<lambda>_. True" "\<lparr>sc_router = None, sc_RoutesToTUN = [], sc_direct = []\<rparr>"]
  by (simp add: lan_cfg_def)

end
