(* ===== verification/Go_Time.thy ===== *)
theory Go_Time
  imports Go_Strings Go_Float
begin

text \<open>
  \<open>time.ParseDuration\<close>: an optional sign and a sequence of decimal numbers with units.  The
  integer part is a \<open>uint64\<close> that may not exceed \<open>2 ^ 63\<close>; the digits of a fraction that no
  longer fit are dropped; the fraction is scaled in binary64.
\<close>

definition unit_of :: "string \<Rightarrow> nat option" where
  "unit_of u =
     (if u = ''ns'' then Some 1
      else if u = ''us'' \<or> u = [CHR 0xC2, CHR 0xB5, CHR ''s''] \<or> u = [CHR 0xCE, CHR 0xBC, CHR ''s''] then Some 1000
      else if u = ''ms'' then Some 1000000
      else if u = ''s'' then Some 1000000000
      else if u = ''m'' then Some 60000000000
      else if u = ''h'' then Some 3600000000000
      else None)"

text \<open>\<open>leadingInt\<close>: \<open>None\<close> on overflow.\<close>

fun leadingInt :: "nat \<Rightarrow> string \<Rightarrow> (nat \<times> string) option" where
  "leadingInt x [] = Some (x, [])"
| "leadingInt x (c # s) =
     (if \<not> is_digit c then Some (x, c # s)
      else if x > 2 ^ 63 div 10 then None
      else if x * 10 + digit_val c > 2 ^ 63 then None
      else leadingInt (x * 10 + digit_val c) s)"

text \<open>\<open>leadingFraction\<close>: the value, its number of digits and the rest.\<close>

fun leadingFraction :: "nat \<Rightarrow> nat \<Rightarrow> bool \<Rightarrow> string \<Rightarrow> nat \<times> nat \<times> string" where
  "leadingFraction x k overflow [] = (x, k, [])"
| "leadingFraction x k overflow (c # s) =
     (if \<not> is_digit c then (x, k, c # s)
      else if overflow \<or> x > (2 ^ 63 - 1) div 10 \<or> x * 10 + digit_val c > 2 ^ 63 then leadingFraction x k True s
      else leadingFraction (x * 10 + digit_val c) (Suc k) False s)"

lemma leadingInt_shorter: "leadingInt x s = Some (v, r) \<Longrightarrow> length r \<le> length s"
  by (induction x s rule: leadingInt.induct) (auto split: if_splits)

lemma leadingFraction_shorter: "leadingFraction x k b s = (f, n, r) \<Longrightarrow> length r \<le> length s"
  by (induction x k b s rule: leadingFraction.induct) (auto split: if_splits)

definition number_char :: "char \<Rightarrow> bool" where
  "number_char c \<longleftrightarrow> c = CHR ''.'' \<or> is_digit c"

text \<open>The fraction, its digits and the rest, if a point follows.\<close>

definition opt_fraction :: "string \<Rightarrow> nat \<times> nat \<times> string" where
  "opt_fraction s = (if HasPrefix s ''.'' then leadingFraction 0 0 False (tl s) else (0, 0, s))"

lemma opt_fraction_shorter: "opt_fraction s = (f, n, r) \<Longrightarrow> length r \<le> length s"
  using leadingFraction_shorter [of 0 0 False "tl s" f n r] by (auto simp: opt_fraction_def split: if_splits)

text \<open>One number with its unit: its nanoseconds and the rest.\<close>

definition duration_part :: "string \<Rightarrow> (nat \<times> string) option" where
  "duration_part s =
     (if s = [] \<or> \<not> number_char (hd s) then None
      else
        (case leadingInt 0 s of
           None \<Rightarrow> None
         | Some (v, s1) \<Rightarrow>
             (let (f, k, s2) = opt_fraction s1;
                  pre = (length s \<noteq> length s1);
                  post = (HasPrefix s1 ''.'' \<and> length (tl s1) \<noteq> length s2);
                  u = takeWhile (\<lambda>c. \<not> number_char c) s2;
                  s3 = drop (length u) s2
              in if \<not> pre \<and> \<not> post then None
                 else if u = [] then None
                 else
                   (case unit_of u of
                      None \<Rightarrow> None
                    | Some unit \<Rightarrow>
                        (if v > 2 ^ 63 div unit then None
                         else if f = 0 then Some (v * unit, s3)
                         else
                           (let v' = v * unit + nat (trunc_real (f64 (f64 (real f) * f64 (real unit / 10 ^ k))))
                            in if v' > 2 ^ 63 then None else Some (v', s3)))))))"

lemma duration_part_shorter: "duration_part s = Some (v, r) \<Longrightarrow> length r < length s"
proof -
  assume p: "duration_part s = Some (v, r)"
  obtain x s1 where i: "leadingInt 0 s = Some (x, s1)"
    using p by (cases "leadingInt 0 s") (auto simp: duration_part_def split: if_splits)
  obtain f k s2 where f: "opt_fraction s1 = (f, k, s2)" by (cases "opt_fraction s1")
  define u where "u = takeWhile (\<lambda>c. \<not> number_char c) s2"
  have "u \<noteq> [] \<and> r = drop (length u) s2"
    using p unfolding duration_part_def i f u_def [symmetric] Let_def
    by (auto simp: f u_def [symmetric] split: if_splits option.splits)
  moreover have "length u \<le> length s2" unfolding u_def by (rule length_takeWhile_le)
  ultimately show ?thesis
    using leadingInt_shorter [OF i] opt_fraction_shorter [OF f] by (cases u) auto
qed

function duration_loop :: "nat \<Rightarrow> string \<Rightarrow> nat option" where
  "duration_loop d s =
     (if s = [] then Some d
      else
        (case duration_part s of
           None \<Rightarrow> None
         | Some (v, r) \<Rightarrow> (if d + v > 2 ^ 63 then None else duration_loop (d + v) r)))"
  by pat_completeness auto
termination
  by (relation "measure (length \<circ> snd)") (auto dest: duration_part_shorter)

declare duration_loop.simps [simp del]

definition ParseDuration :: "string \<Rightarrow> duration option" where
  "ParseDuration s =
     (let neg = HasPrefix s ''-'';
          s' = (if neg \<or> HasPrefix s ''+'' then tl s else s)
      in if s' = ''0'' then Some 0
         else if s' = [] then None
         else
           (case duration_loop 0 s' of
              None \<Rightarrow> None
            | Some d \<Rightarrow>
                (if neg then Some (wrap64 (- int d))
                 else if d > 2 ^ 63 - 1 then None
                 else Some (int d))))"

section \<open>Whole seconds\<close>

lemma foldl_digits_ge: "(x :: nat) \<le> foldl (\<lambda>acc c. acc * 10 + digit_val c) x ds"
proof (induction ds arbitrary: x)
  case (Cons c ds)
  have "x \<le> x * 10 + digit_val c" by simp
  also have "\<dots> \<le> foldl (\<lambda>acc c. acc * 10 + digit_val c) (x * 10 + digit_val c) ds" by (rule Cons.IH)
  finally show ?case by simp
qed simp

lemma leadingInt_digits:
  assumes "list_all is_digit ds" and "s = [] \<or> \<not> is_digit (hd s)"
    and "foldl (\<lambda>acc c. acc * 10 + digit_val c) x ds \<le> 2 ^ 63"
  shows "leadingInt x (ds @ s) = Some (foldl (\<lambda>acc c. acc * 10 + digit_val c) x ds, s)"
  using assms
proof (induction ds arbitrary: x)
  case Nil
  then show ?case by (cases s) simp_all
next
  case (Cons c ds)
  let ?y = "x * 10 + digit_val c"
  have y: "?y \<le> 2 ^ 63" using Cons.prems(3) foldl_digits_ge [of ?y ds] by simp
  then have "x \<le> 2 ^ 63 div 10" by simp
  with y Cons show ?case by simp
qed

lemma leadingInt_itoa:
  assumes "n \<le> 2 ^ 63" and "s = [] \<or> \<not> is_digit (hd s)"
  shows "leadingInt 0 (itoa_nat n @ s) = Some (n, s)"
proof -
  have "list_all is_digit (itoa_nat n)" using itoa_nat_clean by (simp add: list_all_iff)
  then show ?thesis
    using leadingInt_digits [of "itoa_nat n" s 0] assms digits_value_itoa_nat [of n]
    by (simp add: digits_value_def)
qed

text \<open>A whole number with a unit denotes its product.\<close>

lemma ParseDuration_whole:
  assumes "unit_of u = Some k" and "list_all (\<lambda>c. \<not> number_char c) u" and "n * k < 2 ^ 63" and "0 < k"
  shows "ParseDuration (itoa_nat n @ u) = Some (int (n * k))"
proof -
  have u: "u \<noteq> []" "\<not> is_digit (hd u)" "hd u \<noteq> CHR ''.''"
    using assms(1,2) by (cases u; auto simp: unit_of_def number_char_def)+
  have n: "n \<le> 2 ^ 63 div k" using assms(3,4) by (simp add: less_eq_div_iff_mult_less_eq)
  have "2 ^ 63 div k \<le> (2 ^ 63 :: nat)" by (rule div_le_dividend)
  then have i: "leadingInt 0 (itoa_nat n @ u) = Some (n, u)" using n u by (intro leadingInt_itoa) linarith+
  obtain c cs where t: "itoa_nat n = c # cs" by (cases "itoa_nat n") auto
  then have c: "is_digit c" "c \<noteq> CHR ''-''" "c \<noteq> CHR ''+''" using itoa_nat_clean [of c n] by auto
  have f: "opt_fraction u = (0, 0, u)" using u by (cases u) (simp_all add: opt_fraction_def HasPrefix_def)
  have w: "takeWhile (\<lambda>c. \<not> number_char c) u = u" using assms(2) by (simp add: takeWhile_eq_all_conv list_all_iff)
  have p: "duration_part (itoa_nat n @ u) = Some (n * k, [])"
  proof -
    have "number_char c" using c(1) by (simp add: number_char_def)
    then show ?thesis using n u(1) unfolding duration_part_def i by (simp add: t f w assms(1))
  qed
  have "duration_loop 0 (itoa_nat n @ u) = Some (n * k)"
    using assms(3) by (subst duration_loop.simps) (simp add: p duration_loop.simps [of _ "[]"])
  moreover have "itoa_nat n @ u \<noteq> ''0''" using u by (cases u) (auto simp: t is_digit_def append_eq_Cons_conv)
  moreover have "\<not> HasPrefix (itoa_nat n @ u) ''-''" "\<not> HasPrefix (itoa_nat n @ u) ''+''"
    using c by (simp_all add: t HasPrefix_def)
  ultimately show ?thesis using assms(3) u(1) by (simp add: ParseDuration_def t Let_def)
qed

lemma seconds_unit: "unit_of ''s'' = Some 1000000000" "list_all (\<lambda>c. \<not> number_char c) ''s''"
  by (simp_all add: unit_of_def number_char_def is_digit_def)

lemma ParseDuration_seconds:
  "n < 9223372036 \<Longrightarrow> ParseDuration (itoa_nat n @ ''s'') = Some (int n * second)"
  using ParseDuration_whole [OF seconds_unit, of n] by simp

lemma itoa_small: "itoa_nat 5 = ''5''" "itoa_nat 10 = ''10''" "itoa_nat 30 = ''30''" "itoa_nat 0 = ''0''"
  by code_simp+

lemma default_durations:
  "ParseDuration ''5s'' = Some (5 * second)" "ParseDuration ''10s'' = Some (10 * second)"
  "ParseDuration ''30s'' = Some (30 * second)" "ParseDuration ''0s'' = Some 0"
  using ParseDuration_seconds [of 5] ParseDuration_seconds [of 10] ParseDuration_seconds [of 30]
    ParseDuration_seconds [of 0] by (simp_all add: itoa_small)

end
