(* ===== verification/Config.thy ===== *)
theory Config
  imports Reconnector SplitTunnel Go_Time
begin

text \<open>
  \<open>pkg/client/config.go\<close>: the configuration structures, their defaults and their
  validation.  Reading the file and decoding the YAML are outside; \<open>LoadConfig\<close> takes their
  result.
\<close>

section \<open>Structures\<close>

record SOCKS5Config =
  sk_Enabled :: bool
  sk_ListenAddr :: string
  sk_Username :: string
  sk_Password :: string
  sk_Timeout :: string

record ConnectionConfig =
  cn_Link :: string
  cn_FromRaw :: string
  cn_FromRawURLs :: "string list"
  cn_EnableIPv6 :: bool
  cn_EnableDNSProtection :: bool
  cn_TLSAllowInsecure :: bool
  cn_EnableKillSwitch :: bool
  cn_MetricsPort :: int
  cn_E2ECheckURL :: string

record ServerSelectionConfig =
  sl_RefreshInterval :: string
  sl_MaxServers :: int
  sl_Timeout :: string

record LoggingConfig =
  lg_Format :: string
  lg_Level :: string
  lg_File :: string
  lg_MaxSize :: int
  lg_MaxBackups :: int
  lg_MaxAge :: int

record HealthMonitoringConfig =
  hm_CheckInterval :: string
  hm_Timeout :: string
  hm_MaxRetries :: int

text \<open>\<open>MinBackoffStr\<close> and \<open>MaxBackoffStr\<close> of the reconnection settings sit beside the other
  fields of \<^typ>\<open>ReconnectionConfig\<close>.\<close>

record AppConfig =
  ac_Connection :: ConnectionConfig
  ac_ServerSelection :: ServerSelectionConfig
  ac_Reconnection :: ReconnectionConfig
  ac_Logging :: LoggingConfig
  ac_HealthMonitoring :: HealthMonitoringConfig
  ac_SplitTunnel :: SplitTunnelConfig
  ac_SOCKS5 :: SOCKS5Config

datatype config_error =
    NoConnectionMethod | LinkWithRaw | RawAndRawURLs | BadLogFormat string | BadLogLevel string
  | BadRefreshInterval | BadSelectionTimeout | BadCheckInterval | BadHealthTimeout
  | MaxServersNotPositive | MaxSizeNotPositive | MaxBackupsNegative | MaxAgeNegative | HealthRetriesNotPositive
  | ReconnectRetriesNegative | BadMinBackoff | BadMaxBackoff | BadBackoffFactor
  | SplitTunnelError split_error | Socks5ListenMissing | Socks5BadTimeout | Socks5HalfCredentials
  | ReadFileError | ParseFileError | ValidateError config_error

section \<open>SOCKS5 settings\<close>

definition SOCKS5Config_SetDefaults :: "SOCKS5Config \<Rightarrow> SOCKS5Config" where
  "SOCKS5Config_SetDefaults c =
     c\<lparr>sk_ListenAddr := (if sk_ListenAddr c = [] then ''0.0.0.0:1080'' else sk_ListenAddr c),
       sk_Timeout := (if sk_Timeout c = [] then ''30s'' else sk_Timeout c)\<rparr>"

definition SOCKS5Config_GetTimeout :: "SOCKS5Config \<Rightarrow> duration option" where
  "SOCKS5Config_GetTimeout c = (if sk_Timeout c = [] then Some (30 * second) else ParseDuration (sk_Timeout c))"

definition SOCKS5Config_Validate :: "SOCKS5Config \<Rightarrow> config_error option" where
  "SOCKS5Config_Validate c =
     (if \<not> sk_Enabled c then None
      else if sk_ListenAddr c = [] then Some Socks5ListenMissing
      else if sk_Timeout c \<noteq> [] \<and> ParseDuration (sk_Timeout c) = None then Some Socks5BadTimeout
      else if (sk_Username c \<noteq> [] \<and> sk_Password c = []) \<or> (sk_Username c = [] \<and> sk_Password c \<noteq> [])
      then Some Socks5HalfCredentials
      else None)"

section \<open>Defaults\<close>

definition selection_defaults :: "ServerSelectionConfig \<Rightarrow> ServerSelectionConfig" where
  "selection_defaults s =
     s\<lparr>sl_MaxServers := (if sl_MaxServers s = 0 then 10 else sl_MaxServers s),
       sl_Timeout := (if sl_Timeout s = [] then ''5s'' else sl_Timeout s)\<rparr>"

definition logging_defaults :: "LoggingConfig \<Rightarrow> LoggingConfig" where
  "logging_defaults l =
     l\<lparr>lg_Format := (if lg_Format l = [] then ''text'' else lg_Format l),
       lg_Level := (if lg_Level l = [] then ''info'' else lg_Level l),
       lg_MaxSize := (if lg_MaxSize l = 0 then 100 else lg_MaxSize l),
       lg_MaxBackups := (if lg_MaxBackups l = 0 then 3 else lg_MaxBackups l),
       lg_MaxAge := (if lg_MaxAge l = 0 then 28 else lg_MaxAge l)\<rparr>"

definition health_defaults :: "HealthMonitoringConfig \<Rightarrow> HealthMonitoringConfig" where
  "health_defaults h =
     h\<lparr>hm_CheckInterval := (if hm_CheckInterval h = [] then ''10s'' else hm_CheckInterval h),
       hm_Timeout := (if hm_Timeout h = [] then ''5s'' else hm_Timeout h),
       hm_MaxRetries := (if hm_MaxRetries h = 0 then 3 else hm_MaxRetries h)\<rparr>"

definition setDefaults :: "AppConfig \<Rightarrow> AppConfig" where
  "setDefaults c =
     c\<lparr>ac_ServerSelection := selection_defaults (ac_ServerSelection c),
       ac_Reconnection := ReconnectionConfig_SetDefaults (ac_Reconnection c),
       ac_Logging := logging_defaults (ac_Logging c),
       ac_HealthMonitoring := health_defaults (ac_HealthMonitoring c),
       ac_SplitTunnel := SplitTunnelConfig_SetDefaults (ac_SplitTunnel c),
       ac_SOCKS5 := SOCKS5Config_SetDefaults (ac_SOCKS5 c)\<rparr>"

section \<open>Validation\<close>

text \<open>The first failing check of a list of checks and their errors.\<close>

fun first_error :: "(bool \<times> 'e) list \<Rightarrow> 'e option" where
  "first_error [] = None"
| "first_error ((bad, e) # cs) = (if bad then Some e else first_error cs)"

definition check_connection :: "ConnectionConfig \<Rightarrow> config_error option" where
  "check_connection c =
     (let hasLink = cn_Link c \<noteq> []; hasFromRaw = cn_FromRaw c \<noteq> []; hasFromRawURLs = 0 < length (cn_FromRawURLs c)
      in first_error
        [(\<not> hasLink \<and> \<not> hasFromRaw \<and> \<not> hasFromRawURLs, NoConnectionMethod),
         (hasLink \<and> (hasFromRaw \<or> hasFromRawURLs), LinkWithRaw),
         (hasFromRaw \<and> hasFromRawURLs, RawAndRawURLs)])"

definition check_settings :: "AppConfig \<Rightarrow> config_error option" where
  "check_settings c =
     (let l = ac_Logging c; s = ac_ServerSelection c; h = ac_HealthMonitoring c in
      first_error
        [(lg_Format l \<noteq> ''text'' \<and> lg_Format l \<noteq> ''json'', BadLogFormat (lg_Format l)),
         (lg_Level l \<notin> {''debug'', ''info'', ''warn'', ''error''}, BadLogLevel (lg_Level l)),
         (sl_RefreshInterval s \<noteq> [] \<and> ParseDuration (sl_RefreshInterval s) = None, BadRefreshInterval),
         (ParseDuration (sl_Timeout s) = None, BadSelectionTimeout),
         (ParseDuration (hm_CheckInterval h) = None, BadCheckInterval),
         (ParseDuration (hm_Timeout h) = None, BadHealthTimeout),
         (sl_MaxServers s \<le> 0, MaxServersNotPositive),
         (lg_MaxSize l \<le> 0, MaxSizeNotPositive),
         (lg_MaxBackups l < 0, MaxBackupsNegative),
         (lg_MaxAge l < 0, MaxAgeNegative),
         (hm_MaxRetries h \<le> 0, HealthRetriesNotPositive)])"

definition check_reconnection :: "ReconnectionConfig \<Rightarrow> config_error option" where
  "check_reconnection r =
     first_error
       [(rc_MaxRetries r < 0, ReconnectRetriesNegative),
        (rc_MinBackoff r \<le> 0 \<and> rc_MinBackoffStr r \<noteq> [] \<and> ParseDuration (rc_MinBackoffStr r) = None, BadMinBackoff),
        (rc_MaxBackoff r \<le> 0 \<and> rc_MaxBackoffStr r \<noteq> [] \<and> ParseDuration (rc_MaxBackoffStr r) = None, BadMaxBackoff),
        (rc_BackoffFactor r \<le> 1 \<and> rc_BackoffFactor r \<noteq> 0, BadBackoffFactor)]"

definition Validate :: "AppConfig \<Rightarrow> config_error option" where
  "Validate c =
     (case check_connection (ac_Connection c) of
        Some e \<Rightarrow> Some e
      | None \<Rightarrow>
          (case check_settings c of
             Some e \<Rightarrow> Some e
           | None \<Rightarrow>
               (case check_reconnection (ac_Reconnection c) of
                  Some e \<Rightarrow> Some e
                | None \<Rightarrow>
                    (case SplitTunnelConfig_Validate (ac_SplitTunnel c) of
                       Some e \<Rightarrow> Some (SplitTunnelError e)
                     | None \<Rightarrow> SOCKS5Config_Validate (ac_SOCKS5 c)))))"

text \<open>\<open>data\<close>: the file's bytes, if it can be read; \<open>decode\<close>: \<open>yaml.Unmarshal\<close>.\<close>

definition LoadConfig :: "bytes option \<Rightarrow> (bytes \<Rightarrow> AppConfig option) \<Rightarrow> config_error + AppConfig" where
  "LoadConfig data decode =
     (case data of
        None \<Rightarrow> Inl ReadFileError
      | Some d \<Rightarrow>
          (case decode d of
             None \<Rightarrow> Inl ParseFileError
           | Some config0 \<Rightarrow>
               (let config = setDefaults config0 in
                case Validate config of
                  Some e \<Rightarrow> Inl (ValidateError e)
                | None \<Rightarrow> Inr config)))"

section \<open>Getters\<close>

definition GetRefreshInterval :: "ServerSelectionConfig \<Rightarrow> duration option" where
  "GetRefreshInterval c = (if sl_RefreshInterval c = [] then Some 0 else ParseDuration (sl_RefreshInterval c))"

definition GetTimeout :: "ServerSelectionConfig \<Rightarrow> duration option" where
  "GetTimeout c = ParseDuration (sl_Timeout c)"

definition GetCheckInterval :: "HealthMonitoringConfig \<Rightarrow> duration option" where
  "GetCheckInterval c = ParseDuration (hm_CheckInterval c)"

definition GetHealthTimeout :: "HealthMonitoringConfig \<Rightarrow> duration option" where
  "GetHealthTimeout c = ParseDuration (hm_Timeout c)"

section \<open>What a loaded configuration promises\<close>

lemma first_error_None_iff: "first_error cs = None \<longleftrightarrow> list_all (\<lambda>(bad, e). \<not> bad) cs"
  by (induction cs) (auto split: if_splits)

lemma Validate_None_iff:
  "Validate c = None \<longleftrightarrow> check_connection (ac_Connection c) = None \<and> check_settings c = None
     \<and> check_reconnection (ac_Reconnection c) = None \<and> SplitTunnelConfig_Validate (ac_SplitTunnel c) = None
     \<and> SOCKS5Config_Validate (ac_SOCKS5 c) = None"
  by (auto simp: Validate_def split: option.splits)

lemma LoadConfig_ok_iff:
  "LoadConfig data decode = Inr cfg \<longleftrightarrow>
     (\<exists>d c. data = Some d \<and> decode d = Some c \<and> cfg = setDefaults c \<and> Validate cfg = None)"
  by (auto simp: LoadConfig_def Let_def split: option.splits)

text \<open>The three ways to name servers.\<close>

definition one_connection_method :: "ConnectionConfig \<Rightarrow> bool" where
  "one_connection_method c \<longleftrightarrow>
     length (filter id [cn_Link c \<noteq> [], cn_FromRaw c \<noteq> [], cn_FromRawURLs c \<noteq> []]) = 1"

lemma check_connection_iff: "check_connection c = None \<longleftrightarrow> one_connection_method c"
  by (auto simp: check_connection_def one_connection_method_def Let_def)


definition sample_config :: AppConfig where
  "sample_config =
     \<lparr>ac_Connection = \<lparr>cn_Link = ''vless://a@b:1#n'', cn_FromRaw = [], cn_FromRawURLs = [], cn_EnableIPv6 = False,
        cn_EnableDNSProtection = False, cn_TLSAllowInsecure = False, cn_EnableKillSwitch = False,
        cn_MetricsPort = 0, cn_E2ECheckURL = []\<rparr>,
      ac_ServerSelection = \<lparr>sl_RefreshInterval = [], sl_MaxServers = 0, sl_Timeout = []\<rparr>,
      ac_Reconnection = \<lparr>rc_MaxRetries = 0, rc_MinBackoffStr = ''soon'', rc_MinBackoff = 0, rc_MaxBackoffStr = [],
        rc_MaxBackoff = 0, rc_BackoffFactor = 0\<rparr>,
      ac_Logging = \<lparr>lg_Format = [], lg_Level = [], lg_File = [], lg_MaxSize = 0, lg_MaxBackups = 0, lg_MaxAge = 0\<rparr>,
      ac_HealthMonitoring = \<lparr>hm_CheckInterval = [], hm_Timeout = [], hm_MaxRetries = 0\<rparr>,
      ac_SplitTunnel = \<lparr>st_Enabled = False, st_Mode = [], st_ExcludeCIDRs = [], st_IncludeCIDRs = [],
        st_ExcludeDomains = [], st_IncludeDomains = []\<rparr>,
      ac_SOCKS5 = \<lparr>sk_Enabled = False, sk_ListenAddr = [], sk_Username = [], sk_Password = [], sk_Timeout = []\<rparr>\<rparr>"

lemma reconnection_checks_None:
  "rc_MinBackoff r < 2 ^ 62 \<Longrightarrow> check_reconnection (ReconnectionConfig_SetDefaults r) = None"
  using SetDefaults_wf [of r] by (simp add: check_reconnection_def ReconnectionConfig_wf_def)

lemma sample_config_valid: "Validate (setDefaults sample_config) = None"
proof -
  have "check_reconnection (ReconnectionConfig_SetDefaults (ac_Reconnection sample_config)) = None"
    by (rule reconnection_checks_None) (simp add: sample_config_def)
  then show ?thesis
    unfolding Validate_None_iff
    by (simp add: sample_config_def setDefaults_def check_connection_def check_settings_def selection_defaults_def
        logging_defaults_def health_defaults_def default_durations SplitTunnelConfig_SetDefaults_def
        SplitTunnelConfig_Validate_def SOCKS5Config_SetDefaults_def SOCKS5Config_Validate_def)
qed


text \<open>Filling in the defaults twice is filling them in once, and every setting that is given
  (non-zero, non-empty, and for the reconnection settings already in order) is kept.\<close>

theorem setDefaults_idempotent:
  assumes "rc_MinBackoff (ac_Reconnection c) < 2 ^ 62"
  shows "setDefaults (setDefaults c) = setDefaults c
     \<and> ac_Connection (setDefaults c) = ac_Connection c
     \<and> (ReconnectionConfig_wf (ac_Reconnection c) \<longrightarrow> ac_Reconnection (setDefaults c) = ac_Reconnection c)
     \<and> (sl_MaxServers (ac_ServerSelection c) \<noteq> 0 \<longrightarrow>
          sl_MaxServers (ac_ServerSelection (setDefaults c)) = sl_MaxServers (ac_ServerSelection c))
     \<and> (lg_Level (ac_Logging c) \<noteq> [] \<longrightarrow> lg_Level (ac_Logging (setDefaults c)) = lg_Level (ac_Logging c))"
proof -
  have "ReconnectionConfig_SetDefaults (ReconnectionConfig_SetDefaults (ac_Reconnection c))
      = ReconnectionConfig_SetDefaults (ac_Reconnection c)"
    by (rule SetDefaults_fix [OF SetDefaults_wf [OF assms]])
  moreover have "selection_defaults (selection_defaults s) = selection_defaults s" for s
    by (simp add: selection_defaults_def)
  moreover have "logging_defaults (logging_defaults l) = logging_defaults l" for l
    by (simp add: logging_defaults_def Let_def)
  moreover have "health_defaults (health_defaults h) = health_defaults h" for h
    by (simp add: health_defaults_def Let_def)
  moreover have "SplitTunnelConfig_SetDefaults (SplitTunnelConfig_SetDefaults s) = SplitTunnelConfig_SetDefaults s" for s
    by (simp add: SplitTunnelConfig_SetDefaults_def split_modes)
  moreover have "SOCKS5Config_SetDefaults (SOCKS5Config_SetDefaults s) = SOCKS5Config_SetDefaults s" for s
    by (simp add: SOCKS5Config_SetDefaults_def Let_def)
  ultimately have "setDefaults (setDefaults c) = setDefaults c" by (simp add: setDefaults_def)
  then show ?thesis
    by (simp add: setDefaults_def SetDefaults_fix selection_defaults_def logging_defaults_def Let_def)
qed

theorem setDefaults_idempotent_witness:
  "setDefaults (setDefaults sample_config) = setDefaults sample_config"
  using setDefaults_idempotent [of sample_config] by (simp add: sample_config_def)

text \<open>The checks of the reconnection settings can never fail on a loaded configuration, since
  the defaults are filled in first: neither a negative limit, nor a factor below 1, nor a
  malformed \<open>min_backoff\<close> or \<open>max_backoff\<close> text is reported, and the two texts have no
  effect at all on the backoffs used.\<close>

theorem reconnection_checks_are_dead:
  assumes "rc_MinBackoff (ac_Reconnection c) < 2 ^ 62"
  shows "check_reconnection (ac_Reconnection (setDefaults c)) = None
     \<and> (Validate (setDefaults (c\<lparr>ac_Reconnection := (ac_Reconnection c)\<lparr>rc_MinBackoffStr := a, rc_MaxBackoffStr := b\<rparr>\<rparr>)) = None
          \<longleftrightarrow> Validate (setDefaults c) = None)
     \<and> rc_MinBackoff (ac_Reconnection (setDefaults (c\<lparr>ac_Reconnection :=
          (ac_Reconnection c)\<lparr>rc_MinBackoffStr := a, rc_MaxBackoffStr := b\<rparr>\<rparr>))) = rc_MinBackoff (ac_Reconnection (setDefaults c))"
proof -
  let ?r = "(ac_Reconnection c)\<lparr>rc_MinBackoffStr := a, rc_MaxBackoffStr := b\<rparr>"
  have "rc_MinBackoff ?r < 2 ^ 62" using assms by simp
  then have n: "check_reconnection (ReconnectionConfig_SetDefaults ?r) = None"
      "check_reconnection (ReconnectionConfig_SetDefaults (ac_Reconnection c)) = None"
    using assms by (blast intro: reconnection_checks_None)+
  have "rc_MinBackoff (ReconnectionConfig_SetDefaults ?r) = rc_MinBackoff (ReconnectionConfig_SetDefaults (ac_Reconnection c))"
    by (simp add: ReconnectionConfig_SetDefaults_def Let_def)
  with n show ?thesis
    by (simp add: Validate_None_iff setDefaults_def check_settings_def)
qed

theorem reconnection_checks_are_dead_witness:
  "ParseDuration ''soon'' = None \<and> check_reconnection (ac_Reconnection (setDefaults sample_config)) = None"
proof -
  have "duration_part ''soon'' = None"
    by (simp add: duration_part_def number_char_def is_digit_def)
  then have "ParseDuration ''soon'' = None"
    by (simp add: ParseDuration_def HasPrefix_def duration_loop.simps Let_def)
  then show ?thesis using reconnection_checks_are_dead [of sample_config] by (simp add: sample_config_def)
qed

end
