(* ===== verification/VPNConnector.thy ===== *)
theory VPNConnector
  imports ServerSelector HealthChecker Reconnector
begin

text \<open>
  \<open>pkg/client/vpn_connector.go\<close>: connecting to the first server that works, and failing over
  to the next one when the health checker reports an outage.  The client is a parameter:
  \<open>conn\<close> says how each attempt to connect ends.  The calls made on the client are recorded
  in order, so that the theorems can speak about them.
\<close>

section \<open>State\<close>

datatype client_call = CallConnect string | CallDisconnect

record VPNConnector =
  vc_e2eCheckURL :: string
  vc_reconnCfg :: ReconnectionConfig
  vc_servers :: "ServerInfo list"
  vc_currentServerIndex :: int
  vc_isFailingOver :: bool
  vc_ctx_done :: bool
  vc_healthChecker :: "HealthChecker option"
  vc_fatalErr :: bool
  vc_calls :: "client_call list"

definition NewVPNConnector :: "string \<Rightarrow> VPNConnector" where
  "NewVPNConnector url =
     \<lparr>vc_e2eCheckURL = url,
      vc_reconnCfg = \<lparr>rc_MaxRetries = DefaultMaxRetries, rc_MinBackoffStr = [], rc_MinBackoff = DefaultMinBackoff,
        rc_MaxBackoffStr = [], rc_MaxBackoff = DefaultMaxBackoff, rc_BackoffFactor = DefaultBackoffFactor\<rparr>,
      vc_servers = [], vc_currentServerIndex = - 1, vc_isFailingOver = False, vc_ctx_done = False,
      vc_healthChecker = None, vc_fatalErr = False, vc_calls = []\<rparr>"

definition NewVPNConnectorWithReconnect :: "string \<Rightarrow> ReconnectionConfig \<Rightarrow> VPNConnector" where
  "NewVPNConnectorWithReconnect url cfg =
     (NewVPNConnector url)\<lparr>vc_reconnCfg := ReconnectionConfig_SetDefaults cfg\<rparr>"

datatype connect_outcome = Connected | ConnectFailed | ConnectTimedOut

datatype connector_error = NoServersProvided | ConnectionCancelled | AllFailed nat connect_outcome

definition call_client :: "client_call \<Rightarrow> VPNConnector \<Rightarrow> VPNConnector" where
  "call_client a c = c\<lparr>vc_calls := vc_calls c @ [a]\<rparr>"

section \<open>Health monitoring\<close>

definition startHealthMonitoring :: "VPNConnector \<Rightarrow> VPNConnector" where
  "startHealthMonitoring c =
     (let hc = (if vc_e2eCheckURL c \<noteq> []
                then NewHealthCheckerWithE2E (10 * second) (5 * second) 3 (vc_e2eCheckURL c)
                else NewHealthChecker (10 * second) (5 * second) 3)
      in c\<lparr>vc_healthChecker := Some hc\<rparr>)"

section \<open>Connecting\<close>

text \<open>
  \<open>env i\<close>: whether the context is done when the \<open>i\<close>-th server is about to be tried, and how
  the attempt ends.
\<close>

fun connect_loop ::
    "(nat \<Rightarrow> bool \<times> connect_outcome) \<Rightarrow> nat \<Rightarrow> ServerInfo list \<Rightarrow> connect_outcome \<Rightarrow> VPNConnector
     \<Rightarrow> connector_error option \<times> VPNConnector" where
  "connect_loop env i [] lastErr c = (Some (AllFailed (length (vc_servers c)) lastErr), c)"
| "connect_loop env i (server # rest) lastErr c =
     (if fst (env i) then (Some ConnectionCancelled, c)
      else
        (let c1 = call_client (CallConnect (si_Link server)) c in
         if snd (env i) = Connected
         then (None, startHealthMonitoring (c1\<lparr>vc_currentServerIndex := int i\<rparr>))
         else connect_loop env (Suc i) rest (snd (env i)) c1))"

definition ConnectWithFallback ::
    "(nat \<Rightarrow> bool \<times> connect_outcome) \<Rightarrow> ServerInfo list \<Rightarrow> VPNConnector \<Rightarrow> connector_error option \<times> VPNConnector" where
  "ConnectWithFallback env servers c =
     (if servers = [] then (Some NoServersProvided, c)
      else connect_loop env 0 servers Connected (c\<lparr>vc_servers := servers\<rparr>))"

section \<open>Failover\<close>

text \<open>
  One pass through the failover loop: the health checker is stopped, the client is
  disconnected, the index moves on, and the next server is tried under a new context.
\<close>

definition switch_server :: "int \<Rightarrow> ServerInfo \<Rightarrow> VPNConnector \<Rightarrow> VPNConnector" where
  "switch_server nextIndex nextServer c =
     (let c1 = call_client CallDisconnect (c\<lparr>vc_healthChecker := None\<rparr>);
          c2 = c1\<lparr>vc_ctx_done := False, vc_currentServerIndex := nextIndex\<rparr>
      in call_client (CallConnect (si_Link nextServer)) c2)"

function failover_loop :: "(int \<Rightarrow> connect_outcome) \<Rightarrow> VPNConnector \<Rightarrow> VPNConnector" where
  "failover_loop env c =
     (let currentIndex = vc_currentServerIndex c; totalServers = int (length (vc_servers c)) in
      if totalServers \<le> currentIndex + 1 then c
      else
        (let nextIndex = currentIndex + 1;
             nextServer = vc_servers c ! nat nextIndex;
             c1 = switch_server nextIndex nextServer c in
         if env nextIndex \<noteq> Connected then
           (if vc_currentServerIndex c1 < totalServers - 1 then failover_loop env c1
            else c1\<lparr>vc_fatalErr := True\<rparr>)
         else startHealthMonitoring c1))"
  by pat_completeness auto
termination
  by (relation "measure (\<lambda>(env, c). nat (int (length (vc_servers c)) - vc_currentServerIndex c))")
    (auto simp: switch_server_def call_client_def Let_def)

declare failover_loop.simps [simp del]

definition performFailover :: "(int \<Rightarrow> connect_outcome) \<Rightarrow> VPNConnector \<Rightarrow> VPNConnector" where
  "performFailover env c =
     (if vc_isFailingOver c then c
      else
        (let c1 = c\<lparr>vc_isFailingOver := True, vc_ctx_done := True\<rparr>;
             c2 = failover_loop env c1
         in c2\<lparr>vc_isFailingOver := False\<rparr>))"

definition vc_Stop :: "VPNConnector \<Rightarrow> VPNConnector" where
  "vc_Stop c = c\<lparr>vc_healthChecker := map_option hc_Stop (vc_healthChecker c), vc_ctx_done := True\<rparr>"

section \<open>Status and reports\<close>

record health_status =
  hs_connected :: bool
  hs_current_server_idx :: int
  hs_total_servers :: nat
  hs_health :: "(bool \<times> int \<times> int \<times> duration \<times> int \<times> bool \<times> string option) option"
  hs_current_server :: "ServerInfo option"

definition GetHealthStatus :: "VPNConnector \<Rightarrow> health_status" where
  "GetHealthStatus c =
     \<lparr>hs_connected = (0 \<le> vc_currentServerIndex c),
      hs_current_server_idx = vc_currentServerIndex c,
      hs_total_servers = length (vc_servers c),
      hs_health = map_option hc_GetStatus (vc_healthChecker c),
      hs_current_server =
        (if 0 \<le> vc_currentServerIndex c \<and> vc_currentServerIndex c < int (length (vc_servers c))
         then Some (vc_servers c ! nat (vc_currentServerIndex c)) else None)\<rparr>"

definition truncateLink :: "string \<Rightarrow> int \<Rightarrow> string" where
  "truncateLink link maxLen = (if int (length link) \<le> maxLen then link else take (nat maxLen) link @ ''...'')"

text \<open>\<open>LogServerReport\<close>: the structured entries it logs, one per server after the summary; only the first
  shows its link.\<close>

datatype log_level = LogDebug | LogInfo | LogWarn

record server_entry =
  se_rank :: nat
  se_host :: string
  se_port :: string
  se_latency_ms :: int
  se_latency :: duration
  se_status :: string
  se_link_preview :: "string option"

datatype log_entry = NoServersAvailable | Summary nat nat | ServerEntry log_level server_entry

definition server_entry_of :: "nat \<Rightarrow> ServerInfo \<Rightarrow> log_entry" where
  "server_entry_of i srv =
     ServerEntry (if i = 0 then LogInfo else LogDebug)
       \<lparr>se_rank = i + 1, se_host = si_Host srv, se_port = si_Port srv, se_latency_ms = quot (si_Latency srv) millisecond,
        se_latency = si_Latency srv, se_status = (if i = 0 then ''recommended'' else ''available''),
        se_link_preview = (if i = 0 then Some (truncateLink (si_Link srv) 50) else None)\<rparr>"

definition LogServerReport :: "ServerInfo list \<Rightarrow> log_entry list" where
  "LogServerReport servers =
     (if servers = [] then [NoServersAvailable]
      else Summary (length servers) (length servers) # map (\<lambda>i. server_entry_of i (servers ! i)) [0..<length servers])"

datatype url_error = UrlFetch selector_error | UrlSelect selector_error | UrlConnect connector_error

text \<open>\<open>ConnectFromRawURL\<close>: selecting from no links always fails, so the list is always fetched.\<close>

definition ConnectFromRawURL ::
    "(string \<Rightarrow> http_result) \<Rightarrow> sorter \<Rightarrow> (ServerInfo list \<Rightarrow> ServerInfo list) \<Rightarrow> (nat \<Rightarrow> dialer)
     \<Rightarrow> (nat \<Rightarrow> bool \<times> connect_outcome) \<Rightarrow> string \<Rightarrow> VPNConnector \<Rightarrow> url_error option \<times> VPNConnector" where
  "ConnectFromRawURL get srt arrive dials env rawURL c =
     (let connect = (\<lambda>servers. case ConnectWithFallback env servers c of (e, c') \<Rightarrow> (map_option UrlConnect e, c')) in
      case SelectAllByLatency srt arrive dials [] of
        Selects servers \<Rightarrow> connect servers
      | _ \<Rightarrow>
          (case FetchRawLinks get rawURL of
             Inl e \<Rightarrow> (Some (UrlFetch e), c)
           | Inr links \<Rightarrow>
               (case SelectAllByLatency srt arrive dials links of
                  Selects servers \<Rightarrow> connect servers
                | Fails e \<Rightarrow> (Some (UrlSelect e), c)
                | Panics \<Rightarrow> (None, c))))"

section \<open>Connecting tries the servers in order\<close>

lemma connect_loop_first:
  assumes "\<And>i. \<not> fst (env i)" and "k < length rest" and "\<forall>j<k. snd (env (i + j)) \<noteq> Connected"
    and "snd (env (i + k)) = Connected"
  shows "connect_loop env i rest e c =
     (None, startHealthMonitoring (c\<lparr>vc_calls := vc_calls c @ map (\<lambda>s. CallConnect (si_Link s)) (take (Suc k) rest),
        vc_currentServerIndex := int (i + k)\<rparr>))"
  using assms(2-)
proof (induction rest arbitrary: k i e c)
  case (Cons s rest)
  show ?case
  proof (cases k)
    case 0
    with Cons.prems assms(1) show ?thesis by (simp add: call_client_def)
  next
    case (Suc k')
    have "snd (env i) \<noteq> Connected" using Cons.prems(2) Suc by force
    moreover have "\<forall>j<k'. snd (env (Suc i + j)) \<noteq> Connected" using Cons.prems(2) Suc by auto
    ultimately show ?thesis
      using Cons.IH [of k' "Suc i" "snd (env i)" "call_client (CallConnect (si_Link s)) c"] Cons.prems(1,3) Suc assms(1)
      by (simp add: call_client_def)
  qed
qed simp

lemma connect_loop_none:
  assumes "\<And>i. \<not> fst (env i)" and "\<forall>j<length rest. snd (env (i + j)) \<noteq> Connected"
  shows "\<exists>e'. connect_loop env i rest e c =
     (Some (AllFailed (length (vc_servers c)) e'),
      c\<lparr>vc_calls := vc_calls c @ map (\<lambda>s. CallConnect (si_Link s)) rest\<rparr>)"
  using assms(2)
proof (induction rest arbitrary: i e c)
  case (Cons s rest)
  have "snd (env i) \<noteq> Connected" using Cons.prems by force
  moreover have "\<forall>j<length rest. snd (env (Suc i + j)) \<noteq> Connected" using Cons.prems by auto
  ultimately show ?case
    using Cons.IH [of "Suc i" "snd (env i)" "call_client (CallConnect (si_Link s)) c"] assms(1)
    by (simp add: call_client_def)
qed simp

definition connects :: "ServerInfo list \<Rightarrow> client_call list" where
  "connects servers = map (\<lambda>s. CallConnect (si_Link s)) servers"

lemma ConnectWithFallback_some:
  assumes "\<And>i. \<not> fst (env i)" and "k < length servers" and "\<forall>j<k. snd (env j) \<noteq> Connected" and "snd (env k) = Connected"
  shows "ConnectWithFallback env servers c = (None, startHealthMonitoring (c\<lparr>vc_servers := servers,
     vc_calls := vc_calls c @ connects (take (Suc k) servers), vc_currentServerIndex := int k\<rparr>))"
proof -
  have "servers \<noteq> []" using assms(2) by auto
  then show ?thesis
    using connect_loop_first [OF assms(1), where k = k and rest = servers and i = 0 and e = Connected
      and c = "c\<lparr>vc_servers := servers\<rparr>"] assms(2-)
    by (simp add: ConnectWithFallback_def connects_def)
qed

lemma ConnectWithFallback_none:
  assumes "\<And>i. \<not> fst (env i)" and "servers \<noteq> []" and "\<forall>j<length servers. snd (env j) \<noteq> Connected"
  shows "\<exists>e. ConnectWithFallback env servers c = (Some e, c\<lparr>vc_servers := servers,
     vc_calls := vc_calls c @ connects servers\<rparr>)"
proof -
  have n: "\<forall>j<length servers. snd (env (0 + j)) \<noteq> Connected" using assms(3) by simp
  have "\<exists>e'. connect_loop env 0 servers Connected (c\<lparr>vc_servers := servers\<rparr>) =
     (Some (AllFailed (length (vc_servers (c\<lparr>vc_servers := servers\<rparr>))) e'), (c\<lparr>vc_servers := servers\<rparr>)
        \<lparr>vc_calls := vc_calls (c\<lparr>vc_servers := servers\<rparr>) @ map (\<lambda>s. CallConnect (si_Link s)) servers\<rparr>)"
    by (rule connect_loop_none [OF _ n]) (rule assms(1))
  then show ?thesis using assms(2) by (auto simp: ConnectWithFallback_def connects_def)
qed

text \<open>\<open>ConnectWithFallback\<close> tries the servers in the order of the list, each once, stops at the
  first that connects, makes it current and starts monitoring it; if none connects it
  has tried them all, fails, and leaves no server current.\<close>

theorem ConnectWithFallback_first_working:
  assumes "\<And>i. \<not> fst (env i)" and "servers \<noteq> []" and "ConnectWithFallback env servers (NewVPNConnector url) = (e, c)"
  shows "(\<exists>k < length servers. e = None \<and> snd (env k) = Connected \<and> (\<forall>j<k. snd (env j) \<noteq> Connected)
          \<and> vc_calls c = connects (take (Suc k) servers) \<and> vc_currentServerIndex c = int k \<and> vc_healthChecker c \<noteq> None)
     \<or> e \<noteq> None \<and> (\<forall>j<length servers. snd (env j) \<noteq> Connected)
          \<and> vc_calls c = connects servers \<and> vc_currentServerIndex c = - 1 \<and> vc_healthChecker c = None"
proof (cases "\<exists>k < length servers. snd (env k) = Connected")
  case True
  define k where "k = (LEAST k. k < length servers \<and> snd (env k) = Connected)"
  have k: "k < length servers" "snd (env k) = Connected"
    using LeastI_ex [OF True] unfolding k_def by blast+
  have f: "\<forall>j<k. snd (env j) \<noteq> Connected"
    using k(1) not_less_Least [of _ "\<lambda>k. k < length servers \<and> snd (env k) = Connected"] unfolding k_def
    by (metis order_less_trans)
  show ?thesis
    using assms(3) k f unfolding ConnectWithFallback_some [OF assms(1) k(1) f k(2)]
    by (intro disjI1 exI [of _ k]) (auto simp: startHealthMonitoring_def NewVPNConnector_def)
next
  case False
  then have n: "\<forall>j<length servers. snd (env j) \<noteq> Connected" by blast
  obtain e' where "ConnectWithFallback env servers (NewVPNConnector url) = (Some e', (NewVPNConnector url)
     \<lparr>vc_servers := servers, vc_calls := vc_calls (NewVPNConnector url) @ connects servers\<rparr>)"
    using ConnectWithFallback_none [OF assms(1,2) n] by blast
  with assms(3) n show ?thesis by (intro disjI2) (auto simp: NewVPNConnector_def)
qed

theorem ConnectWithFallback_first_working_witness:
  "vc_currentServerIndex (snd (ConnectWithFallback (\<lambda>i. (False, if i = 1 then Connected else ConnectFailed))
     [sample_server 1 0, sample_server 2 0, sample_server 3 0] (NewVPNConnector []))) \<in> {0, 1, 2, - 1}"
proof -
  let ?env = "\<lambda>i. (False, if i = 1 then Connected else ConnectFailed)"
  let ?ss = "[sample_server 1 0, sample_server 2 0, sample_server 3 0]"
  obtain e c where r: "ConnectWithFallback ?env ?ss (NewVPNConnector []) = (e, c)" by fastforce
  have "(\<exists>k < length ?ss. e = None \<and> snd (?env k) = Connected \<and> (\<forall>j<k. snd (?env j) \<noteq> Connected)
          \<and> vc_calls c = connects (take (Suc k) ?ss) \<and> vc_currentServerIndex c = int k \<and> vc_healthChecker c \<noteq> None)
     \<or> e \<noteq> None \<and> (\<forall>j<length ?ss. snd (?env j) \<noteq> Connected)
          \<and> vc_calls c = connects ?ss \<and> vc_currentServerIndex c = - 1 \<and> vc_healthChecker c = None"
    by (rule ConnectWithFallback_first_working [OF _ _ r]) simp_all
  then show ?thesis unfolding r by (auto split: if_splits)
qed

section \<open>Failing over\<close>

text \<open>The calls of a failover that tries the servers \<open>is\<close>.\<close>

definition failover_calls :: "ServerInfo list \<Rightarrow> client_call list" where
  "failover_calls servers = concat (map (\<lambda>s. [CallDisconnect, CallConnect (si_Link s)]) servers)"

lemma failover_loop_stuck:
  "int (length (vc_servers c)) \<le> vc_currentServerIndex c + 1 \<Longrightarrow> failover_loop env c = c"
  by (subst failover_loop.simps) (simp add: Let_def)

lemma switch_server_fields [simp]:
  "vc_currentServerIndex (switch_server i s c) = i" "vc_servers (switch_server i s c) = vc_servers c"
  "vc_calls (switch_server i s c) = vc_calls c @ [CallDisconnect, CallConnect (si_Link s)]"
  "vc_fatalErr (switch_server i s c) = vc_fatalErr c" "vc_ctx_done (switch_server i s c) = False"
  "vc_healthChecker (switch_server i s c) = None"
  by (simp_all add: switch_server_def call_client_def Let_def)

lemma failover_loop_step:
  assumes "vc_currentServerIndex c = int i" and "Suc i < length (vc_servers c)"
    and "c1 = switch_server (int i + 1) (vc_servers c ! Suc i) c"
  shows "failover_loop env c =
     (if env (int i + 1) = Connected then startHealthMonitoring c1
      else if Suc (Suc i) < length (vc_servers c) then failover_loop env c1
      else c1\<lparr>vc_fatalErr := True\<rparr>)"
proof -
  have "\<not> int (length (vc_servers c)) \<le> int i + 1" and n: "nat (int i + 1) = Suc i"
    and "int i + 1 < int (length (vc_servers c)) - 1 \<longleftrightarrow> Suc (Suc i) < length (vc_servers c)"
    using assms(2) by auto
  then show ?thesis
    by (subst failover_loop.simps) (simp add: assms(1,3) Let_def)
qed

text \<open>The loop from the \<open>i\<close>-th server on, when \<open>k\<close> is the first later one that connects.\<close>

lemma failover_loop_connects:
  assumes "vc_currentServerIndex c = int i" and "i + Suc k < length (vc_servers c)"
    and "\<forall>j<k. env (int (i + Suc j)) \<noteq> Connected" and "env (int (i + Suc k)) = Connected"
  shows "vc_currentServerIndex (failover_loop env c) = int (i + Suc k)
     \<and> vc_calls (failover_loop env c) = vc_calls c @ failover_calls (take (Suc k) (drop (Suc i) (vc_servers c)))
     \<and> vc_healthChecker (failover_loop env c) \<noteq> None \<and> \<not> vc_ctx_done (failover_loop env c)
     \<and> vc_fatalErr (failover_loop env c) = vc_fatalErr c"
  using assms
proof (induction k arbitrary: c i)
  case 0
  have lt: "Suc i < length (vc_servers c)" using 0(2) by simp
  have "failover_loop env c = startHealthMonitoring (switch_server (int i + 1) (vc_servers c ! Suc i) c)"
    unfolding failover_loop_step [OF 0(1) lt refl] using 0(4) by (simp add: add.commute)
  moreover have "take 1 (drop (Suc i) (vc_servers c)) = [vc_servers c ! Suc i]"
    using lt by (simp add: take_Suc_conv_app_nth hd_drop_conv_nth take_Suc)
  ultimately show ?case by (simp add: startHealthMonitoring_def failover_calls_def)
next
  case (Suc k)
  have lt: "Suc i < length (vc_servers c)" "Suc (Suc i) < length (vc_servers c)" using Suc.prems(2) by simp_all
  let ?c1 = "switch_server (int i + 1) (vc_servers c ! Suc i) c"
  have "env (int (i + Suc 0)) \<noteq> Connected" using Suc.prems(3) by blast
  then have l: "failover_loop env c = failover_loop env ?c1"
    unfolding failover_loop_step [OF Suc.prems(1) lt(1) refl] using lt(2) by (simp add: add.commute)
  have env: "\<forall>j<k. env (int (Suc i + Suc j)) \<noteq> Connected" "env (int (Suc i + Suc k)) = Connected"
    using Suc.prems(3,4) by auto
  have d: "drop (Suc i) (vc_servers c) = vc_servers c ! Suc i # drop (Suc (Suc i)) (vc_servers c)"
    using lt(1) by (simp add: Cons_nth_drop_Suc)
  show ?case
    unfolding l using Suc.IH [of ?c1 "Suc i"] env Suc.prems(2) by (simp add: d failover_calls_def)
qed

lemma failover_loop_exhausts:
  assumes "vc_currentServerIndex c = int i" and "Suc i < length (vc_servers c)"
    and "\<forall>j. i < j \<and> j < length (vc_servers c) \<longrightarrow> env (int j) \<noteq> Connected"
  shows "vc_currentServerIndex (failover_loop env c) = int (length (vc_servers c)) - 1
     \<and> vc_calls (failover_loop env c) = vc_calls c @ failover_calls (drop (Suc i) (vc_servers c))
     \<and> vc_healthChecker (failover_loop env c) = None \<and> vc_fatalErr (failover_loop env c)"
  using assms
proof (induction "length (vc_servers c) - i" arbitrary: c i rule: less_induct)
  case less
  let ?c1 = "switch_server (int i + 1) (vc_servers c ! Suc i) c"
  have "env (int (Suc i)) \<noteq> Connected" using less.prems(2,3) by blast
  then have l: "failover_loop env c =
      (if Suc (Suc i) < length (vc_servers c) then failover_loop env ?c1 else ?c1\<lparr>vc_fatalErr := True\<rparr>)"
    unfolding failover_loop_step [OF less.prems(1,2) refl] by (simp add: add.commute)
  have d: "drop (Suc i) (vc_servers c) = vc_servers c ! Suc i # drop (Suc (Suc i)) (vc_servers c)"
    using less.prems(2) by (simp add: Cons_nth_drop_Suc)
  show ?case
  proof (cases "Suc (Suc i) < length (vc_servers c)")
    case True
    have "vc_currentServerIndex (failover_loop env ?c1) = int (length (vc_servers ?c1)) - 1
       \<and> vc_calls (failover_loop env ?c1) = vc_calls ?c1 @ failover_calls (drop (Suc (Suc i)) (vc_servers ?c1))
       \<and> vc_healthChecker (failover_loop env ?c1) = None \<and> vc_fatalErr (failover_loop env ?c1)"
      by (rule less.hyps) (use less.prems True in auto)
    with True show ?thesis by (simp add: l d failover_calls_def)
  next
    case False
    then have "length (vc_servers c) = Suc (Suc i)" using less.prems(2) by simp
    with False show ?thesis by (simp add: l d failover_calls_def)
  qed
qed

text \<open>C11: a failover from the \<open>i\<close>-th server terminates and disconnects before every attempt: it ends
  on the first later server that connects, monitored under a fresh context; if there are
  later servers and none connects it has tried them all and signals the fatal error; but
  if the current server is the last one it only cancels the context, with no attempt, no
  disconnect and no signal, so nothing ever reconnects.\<close>

theorem performFailover_cases:
  assumes "vc_currentServerIndex c = int i" and "i < length (vc_servers c)" and "\<not> vc_isFailingOver c" and "\<not> vc_fatalErr c"
    and "performFailover env c = c'"
  shows "\<not> vc_isFailingOver c' \<and>
    ((\<exists>k. i + Suc k < length (vc_servers c) \<and> env (int (i + Suc k)) = Connected \<and> (\<forall>j<k. env (int (i + Suc j)) \<noteq> Connected)
        \<and> vc_currentServerIndex c' = int (i + Suc k) \<and> vc_healthChecker c' \<noteq> None \<and> \<not> vc_ctx_done c' \<and> \<not> vc_fatalErr c'
        \<and> vc_calls c' = vc_calls c @ failover_calls (take (Suc k) (drop (Suc i) (vc_servers c))))
     \<or> Suc i < length (vc_servers c) \<and> vc_fatalErr c' \<and> vc_currentServerIndex c' = int (length (vc_servers c)) - 1
        \<and> vc_calls c' = vc_calls c @ failover_calls (drop (Suc i) (vc_servers c))
     \<or> length (vc_servers c) = Suc i \<and> c' = c\<lparr>vc_ctx_done := True\<rparr>)"
proof -
  define c1 where "c1 = c\<lparr>vc_isFailingOver := True, vc_ctx_done := True\<rparr>"
  have c': "c' = (failover_loop env c1)\<lparr>vc_isFailingOver := False\<rparr>"
    using assms(3,5) by (simp add: performFailover_def c1_def Let_def)
  have c1: "vc_currentServerIndex c1 = int i" "vc_servers c1 = vc_servers c" "vc_calls c1 = vc_calls c"
      "vc_fatalErr c1 = vc_fatalErr c" using assms(1) by (simp_all add: c1_def)
  consider "length (vc_servers c) = Suc i"
    | "Suc i < length (vc_servers c)" "\<forall>j. i < j \<and> j < length (vc_servers c) \<longrightarrow> env (int j) \<noteq> Connected"
    | k where "i + Suc k < length (vc_servers c)" "env (int (i + Suc k)) = Connected" "\<forall>j<k. env (int (i + Suc j)) \<noteq> Connected"
  proof (cases "\<exists>k. i + Suc k < length (vc_servers c) \<and> env (int (i + Suc k)) = Connected")
    case True
    define k where "k = (LEAST k. i + Suc k < length (vc_servers c) \<and> env (int (i + Suc k)) = Connected)"
    have k: "i + Suc k < length (vc_servers c)" "env (int (i + Suc k)) = Connected"
      using LeastI_ex [OF True] unfolding k_def by blast+
    have "env (int (i + Suc j)) \<noteq> Connected" if "j < k" for j
    proof -
      have "i + Suc j < length (vc_servers c)" using that k(1) by simp
      moreover have "\<not> (i + Suc j < length (vc_servers c) \<and> env (int (i + Suc j)) = Connected)"
        using that unfolding k_def by (rule not_less_Least)
      ultimately show ?thesis by blast
    qed
    with k that(3) show ?thesis by blast
  next
    case False
    have "env (int j) \<noteq> Connected" if "i < j" "j < length (vc_servers c)" for j
      using False that less_iff_Suc_add [of i j] by auto
    then show ?thesis using that(1,2) assms(2) by (cases "length (vc_servers c) = Suc i") auto
  qed
  then show ?thesis
  proof cases
    case 1
    then have "failover_loop env c1 = c1" using c1 by (intro failover_loop_stuck) simp
    with 1 assms(3) show ?thesis unfolding c' by (simp add: c1_def)
  next
    case 2
    with failover_loop_exhausts [OF c1(1), unfolded c1] show ?thesis unfolding c' by simp
  next
    case 3
    with failover_loop_connects [OF c1(1), unfolded c1] assms(4) show ?thesis unfolding c' by (intro conjI disjI1) auto
  qed
qed

theorem performFailover_cases_witness:
  "\<exists>c'. performFailover (\<lambda>_. ConnectFailed) ((NewVPNConnector [])\<lparr>vc_servers := [sample_server 1 0],
        vc_currentServerIndex := 0\<rparr>) = c' \<and> vc_calls c' = [] \<and> \<not> vc_fatalErr c'"
proof -
  let ?c = "(NewVPNConnector [])\<lparr>vc_servers := [sample_server 1 0], vc_currentServerIndex := 0\<rparr>"
  have "vc_currentServerIndex ?c = int 0" "0 < length (vc_servers ?c)" "\<not> vc_isFailingOver ?c" "\<not> vc_fatalErr ?c"
    by (simp_all add: NewVPNConnector_def)
  from performFailover_cases [OF this refl, of "\<lambda>_. ConnectFailed"] show ?thesis
    by (auto simp: NewVPNConnector_def)
qed

text \<open>After a failover that found no working server \<open>GetHealthStatus\<close> still reports the connection
  as up, on the last server of the list: only the index is looked at.\<close>

theorem exhausted_failover_reports_connected:
  assumes "vc_currentServerIndex c = int i" and "Suc i < length (vc_servers c)" and "\<not> vc_isFailingOver c"
    and "\<forall>j. i < j \<and> j < length (vc_servers c) \<longrightarrow> env (int j) \<noteq> Connected"
  shows "hs_connected (GetHealthStatus (performFailover env c)) \<and> vc_fatalErr (performFailover env c)
     \<and> vc_healthChecker (performFailover env c) = None"
proof -
  let ?c1 = "c\<lparr>vc_isFailingOver := True, vc_ctx_done := True\<rparr>"
  have "vc_currentServerIndex ?c1 = int i" "Suc i < length (vc_servers ?c1)"
    "\<forall>j. i < j \<and> j < length (vc_servers ?c1) \<longrightarrow> env (int j) \<noteq> Connected"
    using assms by simp_all
  from failover_loop_exhausts [OF this] assms(2,3) show ?thesis
    by (auto simp: performFailover_def GetHealthStatus_def Let_def)
qed

theorem exhausted_failover_reports_connected_witness:
  "hs_connected (GetHealthStatus (performFailover (\<lambda>_. ConnectFailed) ((NewVPNConnector [])
     \<lparr>vc_servers := [sample_server 1 0, sample_server 2 0], vc_currentServerIndex := 0\<rparr>)))"
  by (rule conjunct1 [OF exhausted_failover_reports_connected [where i = 0]]) (simp_all add: NewVPNConnector_def)

end
