(* ===== verification/Host.thy ===== *)
theory Host
  imports Prelude Go_Net "HOL-Library.State_Monad"
begin

text \<open>
  The host as the client sees it.  Everything the client does to the operating system or to a
  third-party library is an \<open>action\<close>, as is the start of a goroutine that outlives its method (\<open>ExecLater\<close>: a command run after a delay); the answer of the host (success, text output) is a
  parameter of type \<open>env\<close> that may depend on the whole history of actions so far, so that any
  deterministic environment is covered.  Stateful methods are computations of the state monad
  over a record that carries the history (\<open>hist\<close>); \<open>act\<close> performs one action.
  The theory ends with the two frame predicates the client theories prove once per method:
  \<open>emits P m\<close> (\<open>m\<close> only appends actions satisfying \<open>P\<close> to the history) and \<open>preserves f m\<close>
  (\<open>m\<close> leaves the projection \<open>f\<close> of the state alone), with one rule per construct.
\<close>

section \<open>Actions and environments\<close>

text \<open>A route is the text it is parsed from (\<open>route.MustParseAddr\<close>).\<close>

record route_Opts =
  ro_Gateway :: "net_IP option"
  ro_IfName :: string
  ro_Routes :: "string list"

datatype action =
    Exec "string list"
  | LookPath string
  | RouteAdd route_Opts
  | RouteDelete route_Opts
  | XrayCreateProtocol string
  | XrayParse
  | XrayMakeInstance
  | XrayStart
  | XrayClose
  | TunNew
  | TunUp
  | TunClose
  | DialSocks string
  | PipeCopy string
  | StopTunnel
  | AwaitTunnel
  | AwaitKill
  | Socks5Start string
  | Socks5Stop
  | MetricsListen string
  | MetricsShutdown
  | GoMetricsUpdate
  | GoMonitorTraffic
  | ExecLater "string list"

text \<open>Beside the answers: which texts \<open>route.MustParseAddr\<close> accepts, the address and port the XRay
  library reads from a link (\<open>ConvertToGeneralConfig\<close>), \<open>net.ResolveIPAddr\<close>, and the operating
  system.\<close>

record IPAddr =
  ia_IP :: net_IP
  ia_Zone :: string

record env =
  ok :: "action list \<Rightarrow> action \<Rightarrow> bool"
  out :: "action list \<Rightarrow> action \<Rightarrow> string"
  addr_ok :: "string \<Rightarrow> bool"
  general_config :: "string \<Rightarrow> string \<times> string"
  resolve :: "action list \<Rightarrow> string \<Rightarrow> IPAddr option"
  goos_linux :: bool

record host_state =
  hist :: "action list"

section \<open>The monad\<close>

type_synonym ('z, 'a) host = "('z host_state_scheme, 'a) state"

abbreviation return :: "'a \<Rightarrow> ('s, 'a) state" where
  "return \<equiv> State_Monad.return"

definition gets :: "('s \<Rightarrow> 'a) \<Rightarrow> ('s, 'a) state" where
  "gets f = State (\<lambda>s. (f s, s))"

definition modify :: "('s \<Rightarrow> 's) \<Rightarrow> ('s, unit) state" where
  "modify f = State (\<lambda>s. ((), f s))"

definition act :: "env \<Rightarrow> action \<Rightarrow> ('z, bool) host" where
  "act e a = State (\<lambda>s. (ok e (hist s) a, s\<lparr>hist := hist s @ [a]\<rparr>))"

text \<open>An action whose answer carries text: \<open>CombinedOutput\<close>, the name of a new interface.\<close>

definition act_out :: "env \<Rightarrow> action \<Rightarrow> ('z, bool \<times> string) host" where
  "act_out e a = State (\<lambda>s. ((ok e (hist s) a, out e (hist s) a), s\<lparr>hist := hist s @ [a]\<rparr>))"

text \<open>An action whose error the code only logs.\<close>

definition act_ignore :: "env \<Rightarrow> action \<Rightarrow> ('z, unit) host" where
  "act_ignore e a = State (\<lambda>s. ((), s\<lparr>hist := hist s @ [a]\<rparr>))"

fun act_each :: "env \<Rightarrow> action list \<Rightarrow> ('z, unit) host" where
  "act_each e [] = return ()"
| "act_each e (a # as) = do { act_ignore e a; act_each e as }"

lemma run_gets [simp, steps]: "run_state (gets f) s = (f s, s)"
  by (simp add: gets_def)

lemma run_modify [simp, steps]: "run_state (modify f) s = ((), f s)"
  by (simp add: modify_def)

lemma run_act [simp, steps]: "run_state (act e a) s = (ok e (hist s) a, s\<lparr>hist := hist s @ [a]\<rparr>)"
  by (simp add: act_def)

lemma run_act_out [simp, steps]:
  "run_state (act_out e a) s = ((ok e (hist s) a, out e (hist s) a), s\<lparr>hist := hist s @ [a]\<rparr>)"
  by (simp add: act_out_def)

lemma run_act_ignore [simp, steps]: "run_state (act_ignore e a) s = ((), s\<lparr>hist := hist s @ [a]\<rparr>)"
  by (simp add: act_ignore_def)

lemma run_act_each [simp, steps]: "run_state (act_each e as) s = ((), s\<lparr>hist := hist s @ as\<rparr>)"
  by (induction as arbitrary: s) simp_all

section \<open>Frame rules\<close>

definition emits :: "(action \<Rightarrow> bool) \<Rightarrow> ('z, 'a) host \<Rightarrow> bool" where
  "emits P m \<longleftrightarrow> (\<forall>s. \<exists>t. hist (snd (run_state m s)) = hist s @ t \<and> list_all P t)"

definition preserves :: "('s \<Rightarrow> 'b) \<Rightarrow> ('s, 'a) state \<Rightarrow> bool" where
  "preserves f m \<longleftrightarrow> (\<forall>s. f (snd (run_state m s)) = f s)"

named_theorems frame

lemma emits_return [frame]: "emits P (return x)"
  by (simp add: emits_def)

lemma emits_gets [frame]: "emits P (gets f)"
  by (simp add: emits_def)

lemma emits_modify [frame]: "(\<And>s. hist (f s) = hist s) \<Longrightarrow> emits P (modify f)"
  by (simp add: emits_def)

lemma emits_act [frame]:
  "P a \<Longrightarrow> emits P (act e a)" "P a \<Longrightarrow> emits P (act_out e a)" "P a \<Longrightarrow> emits P (act_ignore e a)"
  by (simp_all add: emits_def)

lemma emits_act_each [frame]: "list_all P as \<Longrightarrow> emits P (act_each e as)"
  by (simp add: emits_def)

lemma emits_bind [frame]:
  assumes "emits P m" and "\<And>x. emits P (f x)"
  shows "emits P (m \<bind> f)"
  unfolding emits_def
proof
  fix s
  obtain x s1 where 1: "run_state m s = (x, s1)" by fastforce
  obtain t1 where t1: "hist s1 = hist s @ t1" "list_all P t1"
    using assms(1) 1 unfolding emits_def by (metis snd_conv)
  obtain t2 where "hist (snd (run_state (f x) s1)) = hist s1 @ t2" "list_all P t2"
    using assms(2) [of x] unfolding emits_def by blast
  with 1 t1 show "\<exists>t. hist (snd (run_state (m \<bind> f) s)) = hist s @ t \<and> list_all P t"
    by (intro exI [of _ "t1 @ t2"]) simp
qed

lemma emits_if [frame]: "(b \<Longrightarrow> emits P m) \<Longrightarrow> (\<not> b \<Longrightarrow> emits P n) \<Longrightarrow> emits P (if b then m else n)"
  by simp

lemma emits_option [frame]:
  "emits P m \<Longrightarrow> (\<And>x. emits P (f x)) \<Longrightarrow> emits P (case z of None \<Rightarrow> m | Some x \<Rightarrow> f x)"
  by (cases z) simp_all

lemma emits_prod [frame]: "(\<And>x y. emits P (f x y)) \<Longrightarrow> emits P (case z of (x, y) \<Rightarrow> f x y)"
  by (cases z) simp

lemma emits_mono: "emits P m \<Longrightarrow> (\<And>a. P a \<Longrightarrow> Q a) \<Longrightarrow> emits Q m"
  unfolding emits_def by (metis list.pred_mono_strong)

lemma emitsE:
  assumes "emits P m"
  obtains t where "hist (snd (run_state m s)) = hist s @ t" "list_all P t"
  using assms unfolding emits_def by blast

lemma preserves_return [frame]: "preserves f (return x)"
  by (simp add: preserves_def)

lemma preserves_gets [frame]: "preserves f (gets g)"
  by (simp add: preserves_def)

lemma preserves_modify [frame]: "(\<And>s. f (g s) = f s) \<Longrightarrow> preserves f (modify g)"
  by (simp add: preserves_def)

lemma preserves_act [frame]:
  "(\<And>s h. f (s\<lparr>hist := h\<rparr>) = f s) \<Longrightarrow> preserves f (act e a)"
  "(\<And>s h. f (s\<lparr>hist := h\<rparr>) = f s) \<Longrightarrow> preserves f (act_out e a)"
  "(\<And>s h. f (s\<lparr>hist := h\<rparr>) = f s) \<Longrightarrow> preserves f (act_ignore e a)"
  "(\<And>s h. f (s\<lparr>hist := h\<rparr>) = f s) \<Longrightarrow> preserves f (act_each e as)"
  by (simp_all add: preserves_def)

lemma preserves_bind [frame]:
  "preserves f m \<Longrightarrow> (\<And>x. preserves f (g x)) \<Longrightarrow> preserves f (m \<bind> g)"
  by (simp add: preserves_def split: prod.split) (metis snd_conv)

lemma preserves_if [frame]: "(b \<Longrightarrow> preserves f m) \<Longrightarrow> (\<not> b \<Longrightarrow> preserves f n) \<Longrightarrow> preserves f (if b then m else n)"
  by simp

lemma preserves_option [frame]:
  "preserves f m \<Longrightarrow> (\<And>x. preserves f (g x)) \<Longrightarrow> preserves f (case z of None \<Rightarrow> m | Some x \<Rightarrow> g x)"
  by (cases z) simp_all

lemma preserves_prod [frame]: "(\<And>x y. preserves f (g x y)) \<Longrightarrow> preserves f (case z of (x, y) \<Rightarrow> g x y)"
  by (cases z) simp

lemma preservesD: "preserves f m \<Longrightarrow> run_state m s = (x, s') \<Longrightarrow> f s' = f s"
  by (metis preserves_def snd_conv)

section \<open>Weakest preconditions\<close>

definition wp :: "('s, 'a) state \<Rightarrow> ('a \<Rightarrow> 's \<Rightarrow> bool) \<Rightarrow> 's \<Rightarrow> bool" where
  "wp m Q s \<longleftrightarrow> (case run_state m s of (x, s') \<Rightarrow> Q x s')"

lemma wp_simps [simp]:
  "wp (return x) Q s \<longleftrightarrow> Q x s"
  "wp (gets f) Q' s \<longleftrightarrow> Q' (f s) s"
  "wp (modify g) Q'' s \<longleftrightarrow> Q'' () (g s)"
  "wp (m \<bind> k) R s \<longleftrightarrow> wp m (\<lambda>x. wp (k x) R) s"
  by (auto simp: wp_def split: prod.splits)

lemma wp_act [simp]:
  "wp (act e a) R h \<longleftrightarrow> R (ok e (hist h) a) (h\<lparr>hist := hist h @ [a]\<rparr>)"
  "wp (act_out e a) R' h \<longleftrightarrow> R' (ok e (hist h) a, out e (hist h) a) (h\<lparr>hist := hist h @ [a]\<rparr>)"
  "wp (act_ignore e a) R'' h \<longleftrightarrow> R'' () (h\<lparr>hist := hist h @ [a]\<rparr>)"
  "wp (act_each e as) R'' h \<longleftrightarrow> R'' () (h\<lparr>hist := hist h @ as\<rparr>)"
  by (simp_all add: wp_def)

lemma wp_if [simp]: "wp (if b then m else n) Q s \<longleftrightarrow> (b \<longrightarrow> wp m Q s) \<and> (\<not> b \<longrightarrow> wp n Q s)"
  by simp

lemma wp_option [simp]:
  "wp (case z of None \<Rightarrow> m | Some x \<Rightarrow> f x) Q s \<longleftrightarrow> (z = None \<longrightarrow> wp m Q s) \<and> (\<forall>x. z = Some x \<longrightarrow> wp (f x) Q s)"
  by (cases z) simp_all

text \<open>A method known by its frame: any state that agrees on \<open>f\<close> may result.\<close>

lemma wp_frame: "preserves f m \<Longrightarrow> (\<And>x s'. f s' = f s \<Longrightarrow> Q x s') \<Longrightarrow> wp m Q s"
  by (auto simp: wp_def preserves_def split: prod.split) (metis snd_conv)

lemma wpI: "(\<And>x s'. run_state m s = (x, s') \<Longrightarrow> Q x s') \<Longrightarrow> wp m Q s"
  by (simp add: wp_def split: prod.split)

lemma wpD: "wp m Q s \<Longrightarrow> run_state m s = (x, s') \<Longrightarrow> Q x s'"
  by (simp add: wp_def)

lemma wp_mono: "wp m R s \<Longrightarrow> (\<And>x s'. R x s' \<Longrightarrow> Q x s') \<Longrightarrow> wp m Q s"
  by (auto simp: wp_def)

end
