(* ===== verification/ClientState.thy ===== *)
theory ClientState
  imports Host Config Socks5
begin

text \<open>
  The data of \<open>pkg/client/client.go\<close>: the options (\<open>Config\<close>), how they are merged over the
  defaults (\<open>apply\<close>, \<open>NewClient\<close>, \<open>NewClientWithOpts\<close>), the \<open>Client\<close> record with the gauges it
  exports, and its small pure methods (protocol detection, log level, status).
\<close>

section \<open>Constants\<close>

definition net_IPv4 :: "byte \<Rightarrow> byte \<Rightarrow> byte \<Rightarrow> byte \<Rightarrow> net_IP" where
  "net_IPv4 a b c d = v4InV6Prefix @ [a, b, c, d]"

text \<open>\<open>net.IPNet.String\<close>: the address, not masked, and the length of the mask, or its octets in
  hexadecimal when it is not a prefix.\<close>

definition simpleMaskLength :: "bytes \<Rightarrow> nat option" where
  "simpleMaskLength m =
     (let bits = concat (map byte_bits m); n = length (takeWhile (\<lambda>b. b) bits)
      in if list_all (\<lambda>b. \<not> b) (drop n bits) then Some n else None)"

definition IPNet_String :: "IPNet \<Rightarrow> string" where
  "IPNet_String n =
     (case networkNumberAndMask n of
        None \<Rightarrow> ''<nil>''
      | Some (nn, m) \<Rightarrow>
          IP_String nn @ ''/'' @
            (case simpleMaskLength m of
               Some l \<Rightarrow> itoa_nat l
             | None \<Rightarrow> concat (map (\<lambda>b. [hex_char (unat b div 16), hex_char (unat b mod 16)]) m)))"

record Proxy =
  px_IP :: net_IP
  px_Port :: int

definition Proxy_String :: "Proxy \<Rightarrow> string" where
  "Proxy_String p = IP_String (px_IP p) @ '':'' @ itoa (px_Port p)"

definition defaultTUNAddress :: IPNet where
  "defaultTUNAddress = \<lparr>net_ip = net_IPv4 192 18 0 1, net_mask = [255, 255, 255, 255]\<rparr>"

definition defaultTUNAddressIPv6 :: IPNet where
  "defaultTUNAddressIPv6 =
     \<lparr>net_ip = [0xfd, 0, 0xde, 0xad, 0xbe, 0xef, 0, 0, 0, 0, 0, 0, 0, 0, 0, 1], net_mask = CIDRMask 64 128\<rparr>"

text \<open>\<open>getFreePort\<close>: the port the listener got, or a fixed one when listening failed.\<close>

definition getFreePort :: "int option \<Rightarrow> int" where
  "getFreePort listened = (case listened of None \<Rightarrow> 10808 | Some p \<Rightarrow> p)"

definition defaultInboundProxy :: "int option \<Rightarrow> Proxy" where
  "defaultInboundProxy listened = \<lparr>px_IP = net_IPv4 127 0 0 1, px_Port = getFreePort listened\<rparr>"

definition DefaultRoutesToTUN :: "string list" where
  "DefaultRoutesToTUN = [''0.0.0.0/1'', ''128.0.0.0/1'']"

definition DNSRoutesToTUN :: "string list" where
  "DNSRoutesToTUN = [''8.8.8.8/32'', ''8.8.4.4/32'', ''1.1.1.1/32'', ''1.0.0.1/32'', ''9.9.9.9/32'', ''149.112.112.112/32'']"

definition DefaultRoutesToTUNIPv6 :: "string list" where
  "DefaultRoutesToTUNIPv6 = [''::/1'', ''8000::/1'']"

definition DNSRoutesToTUNIPv6 :: "string list" where
  "DNSRoutesToTUNIPv6 = [''2001:4860:4860::8888/128'', ''2001:4860:4860::8844/128'',
     ''2606:4700:4700::1111/128'', ''2606:4700:4700::1001/128'']"

definition DNSPortRoutesToTUN :: "string list" where
  "DNSPortRoutesToTUN = [''0.0.0.0/0'']"

definition DNSPortRoutesToTUNIPv6 :: "string list" where
  "DNSPortRoutesToTUNIPv6 = [''::/0'']"

lemmas route_tables = DefaultRoutesToTUN_def DNSRoutesToTUN_def DefaultRoutesToTUNIPv6_def
  DNSRoutesToTUNIPv6_def DNSPortRoutesToTUN_def DNSPortRoutesToTUNIPv6_def

section \<open>Options\<close>

text \<open>A logger is its handler's \<open>Enabled\<close>, on the numeric levels of \<open>log/slog\<close>.  The log type of
  the XRay core is third-party; only its zero value matters.\<close>

type_synonym slog_Level = int

abbreviation (input) LevelDebug :: slog_Level where "LevelDebug \<equiv> - 4"
abbreviation (input) LevelInfo :: slog_Level where "LevelInfo \<equiv> 0"
abbreviation (input) LevelWarn :: slog_Level where "LevelWarn \<equiv> 4"
abbreviation (input) LevelError :: slog_Level where "LevelError \<equiv> 8"

datatype xray_LogType = LogType_None | LogType_Other nat

record client_Config =
  cc_GatewayIP :: "net_IP option"
  cc_InboundProxy :: "Proxy option"
  cc_TUNAddress :: "IPNet option"
  cc_RoutesToTUN :: "string list option"
  cc_TLSAllowInsecure :: bool
  cc_Logger :: "(slog_Level \<Rightarrow> bool) option"
  cc_XRayLogType :: xray_LogType
  cc_EnableIPv6 :: bool
  cc_MetricsPort :: int
  cc_EnableDNSProtection :: bool
  cc_EnableKillSwitch :: bool
  cc_E2ECheckURL :: string

definition or_else :: "'a option \<Rightarrow> 'a option \<Rightarrow> 'a option" where
  "or_else new old = (if new \<noteq> None then new else old)"

definition Config_apply :: "client_Config \<Rightarrow> client_Config \<Rightarrow> client_Config" where
  "Config_apply c new =
     c\<lparr>cc_GatewayIP := or_else (cc_GatewayIP new) (cc_GatewayIP c),
       cc_InboundProxy := or_else (cc_InboundProxy new) (cc_InboundProxy c),
       cc_TUNAddress := or_else (cc_TUNAddress new) (cc_TUNAddress c),
       cc_Logger := or_else (cc_Logger new) (cc_Logger c),
       cc_RoutesToTUN := or_else (cc_RoutesToTUN new) (cc_RoutesToTUN c),
       cc_XRayLogType := (if cc_XRayLogType new \<noteq> LogType_None then cc_XRayLogType new else cc_XRayLogType c),
       cc_EnableIPv6 := cc_EnableIPv6 new,
       cc_MetricsPort := (if cc_MetricsPort new > 0 then cc_MetricsPort new else cc_MetricsPort c),
       cc_EnableDNSProtection := cc_EnableDNSProtection new,
       cc_EnableKillSwitch := cc_EnableKillSwitch new,
       cc_E2ECheckURL := (if cc_E2ECheckURL new \<noteq> [] then cc_E2ECheckURL new else cc_E2ECheckURL c)\<rparr>"

section \<open>The client\<close>

text \<open>The exported gauges and counters: label values are kept where the code sets labels.\<close>

record gauges =
  g_connected :: int
  g_connectionsTotal :: "string list"
  g_disconnectionsTotal :: nat
  g_connectionDuration :: int
  g_bytesRead :: int
  g_bytesWritten :: int
  g_tunIPv4 :: "string list"
  g_tunIPv6 :: "string list"
  g_serverIP :: "string list"
  g_config :: "int list"

definition IPAddr_String :: "IPAddr \<Rightarrow> string" where
  "IPAddr_String a =
     (let s = (if ia_IP a = [] then [] else IP_String (ia_IP a))
      in if ia_Zone a \<noteq> [] then s @ ''%'' @ ia_Zone a else s)"

record Client = host_state +
  cl_cfg :: client_Config
  cl_xInst :: bool
  cl_xSrvIP :: "IPAddr option"
  cl_xSrvPort :: string
  cl_tunnel :: bool
  cl_stopTunnel :: bool
  cl_tunName :: string
  cl_isConnected :: bool
  cl_metricsServer :: bool
  cl_bytesRead :: int
  cl_bytesWritten :: int
  cl_cumulativeBytesRead :: int
  cl_cumulativeBytesWritten :: int
  cl_killSwitchActive :: bool
  cl_socks5Server :: "s5_config option"
  cl_appConfig :: "AppConfig option"
  cl_gauges :: gauges

definition zero_gauges :: gauges where
  "zero_gauges = \<lparr>g_connected = 0, g_connectionsTotal = [], g_disconnectionsTotal = 0, g_connectionDuration = 0,
     g_bytesRead = 0, g_bytesWritten = 0, g_tunIPv4 = [], g_tunIPv6 = [], g_serverIP = [], g_config = []\<rparr>"

datatype client_error = DiscoverGatewayError | NewPipeError | RouteNewError

text \<open>\<open>NewClient\<close>, given what the gateway discovery, the creation of the pipe and of the routing
  handle return, and the port the inbound listener got at package initialisation.\<close>

definition NewClient :: "net_IP option \<Rightarrow> bool \<Rightarrow> bool \<Rightarrow> int option \<Rightarrow> client_error + Client" where
  "NewClient gw pipe_ok route_ok listened =
     (case gw of
        None \<Rightarrow> Inl DiscoverGatewayError
      | Some gatewayIP \<Rightarrow>
          if \<not> pipe_ok then Inl NewPipeError
          else if \<not> route_ok then Inl RouteNewError
          else Inr \<lparr>hist = [],
            cl_cfg = \<lparr>cc_GatewayIP = Some gatewayIP, cc_InboundProxy = Some (defaultInboundProxy listened),
                cc_TUNAddress = Some defaultTUNAddress, cc_RoutesToTUN = Some DefaultRoutesToTUN,
                cc_TLSAllowInsecure = False, cc_Logger = Some (\<lambda>l. LevelInfo \<le> l), cc_XRayLogType = LogType_None,
                cc_EnableIPv6 = False, cc_MetricsPort = 0, cc_EnableDNSProtection = False, cc_EnableKillSwitch = False,
                cc_E2ECheckURL = []\<rparr>,
            cl_xInst = False, cl_xSrvIP = None, cl_xSrvPort = [], cl_tunnel = False, cl_stopTunnel = False, cl_tunName = [],
            cl_isConnected = False, cl_metricsServer = False, cl_bytesRead = 0, cl_bytesWritten = 0,
            cl_cumulativeBytesRead = 0, cl_cumulativeBytesWritten = 0, cl_killSwitchActive = False,
            cl_socks5Server = None, cl_appConfig = None, cl_gauges = zero_gauges\<rparr>)"

definition SetAppConfig :: "AppConfig \<Rightarrow> Client \<Rightarrow> Client" where
  "SetAppConfig appConfig c = c\<lparr>cl_appConfig := Some appConfig\<rparr>"

text \<open>The accessors dereference their pointer: \<open>None\<close> is the panic.\<close>

definition cl_GatewayIP :: "Client \<Rightarrow> net_IP option" where
  "cl_GatewayIP c = cc_GatewayIP (cl_cfg c)"

definition cl_TUNAddress :: "Client \<Rightarrow> net_IP option" where
  "cl_TUNAddress c = map_option net_ip (cc_TUNAddress (cl_cfg c))"

definition cl_InboundProxy :: "Client \<Rightarrow> Proxy option" where
  "cl_InboundProxy c = cc_InboundProxy (cl_cfg c)"

end
