(* ===== verification/KillSwitch.thy ===== *)
theory KillSwitch
  imports ClientState "HOL-Library.Sublist"
begin

text \<open>
  The kill switch of \<open>pkg/client/client.go\<close>: the iptables commands that set it up and take it
  down, and its activation state.  iptables itself is outside: the locale \<open>netfilter\<close> states
  what its commands do to the rule lists, as documented in iptables(8), and what makes them
  succeed; inside it the effect of the kill switch on packets is derived.  The interpretation
  \<open>ref\<close> is a filter that executes the commands.
\<close>

section \<open>Commands\<close>

definition ipt :: "bool \<Rightarrow> string list \<Rightarrow> action" where
  "ipt useIPv6 args = Exec ((if useIPv6 then ''ip6tables'' else ''iptables'') # args)"

definition chainName :: string where
  "chainName = ''goxray_killswitch''"

definition publicDNS :: "string list" where
  "publicDNS = [''8.8.8.8'', ''8.8.4.4'', ''1.1.1.1'', ''1.0.0.1'']"

definition dns_rule :: "string \<Rightarrow> string \<Rightarrow> string list" where
  "dns_rule proto ip = [''-p'', proto, ''--dport'', ''53'', ''-d'', ip, ''-j'', ''ACCEPT'']"

text \<open>The exceptions between the two mandatory rules, whose failure is only logged.\<close>

definition xray_rules :: "Client \<Rightarrow> string list list" where
  "xray_rules c = (case cl_xSrvIP c of None \<Rightarrow> [] | Some ip \<Rightarrow> [[''-d'', IPAddr_String ip, ''-j'', ''ACCEPT'']])"

definition gateway_rules :: "Client \<Rightarrow> string list list" where
  "gateway_rules c =
     (case cc_GatewayIP (cl_cfg c) of None \<Rightarrow> []
      | Some gw \<Rightarrow> [dns_rule ''udp'' (IP_String gw), dns_rule ''tcp'' (IP_String gw)])"

definition append_rule :: "bool \<Rightarrow> string list \<Rightarrow> action" where
  "append_rule v r = ipt v (''-A'' # chainName # r)"

definition established_rule :: "string list" where
  "established_rule = [''-m'', ''conntrack'', ''--ctstate'', ''ESTABLISHED,RELATED'', ''-j'', ''ACCEPT'']"

datatype rule_error = AllowLoopbackFailed | BlockRuleFailed | JumpFailed

definition setupKillSwitchRules :: "env \<Rightarrow> bool \<Rightarrow> (Client, rule_error option) state" where
  "setupKillSwitchRules e useIPv6 = do {
     act_ignore e (ipt useIPv6 [''-N'', chainName]);
     act_ignore e (ipt useIPv6 [''-F'', chainName]);
     allowLo \<leftarrow> act e (append_rule useIPv6 [''-o'', ''lo'', ''-j'', ''ACCEPT'']);
     if \<not> allowLo then return (Some AllowLoopbackFailed)
     else do {
       act_ignore e (append_rule useIPv6 established_rule);
       xray \<leftarrow> gets xray_rules;
       act_each e (map (append_rule useIPv6) xray);
       gateway \<leftarrow> gets gateway_rules;
       act_each e (map (append_rule useIPv6) gateway);
       act_each e (map (\<lambda>ip. append_rule useIPv6 (dns_rule ''udp'' ip)) publicDNS);
       block \<leftarrow> act e (append_rule useIPv6 [''-j'', ''DROP'']);
       if \<not> block then return (Some BlockRuleFailed)
       else do {
         jump \<leftarrow> act e (ipt useIPv6 [''-A'', ''OUTPUT'', ''-j'', chainName]);
         return (if \<not> jump then Some JumpFailed else None)
       }
     }
   }"

definition cleanupKillSwitchRules :: "env \<Rightarrow> bool \<Rightarrow> (Client, unit) state" where
  "cleanupKillSwitchRules e useIPv6 = do {
     act_ignore e (ipt useIPv6 [''-D'', ''OUTPUT'', ''-j'', chainName]);
     act_ignore e (ipt useIPv6 [''-F'', chainName]);
     act_ignore e (ipt useIPv6 [''-X'', chainName])
   }"

text \<open>Both methods return nil on every path; a failing set-up is only logged.\<close>

definition activateKillSwitch :: "env \<Rightarrow> (Client, unit) state" where
  "activateKillSwitch e = do {
     enabled \<leftarrow> gets (\<lambda>c. cc_EnableKillSwitch (cl_cfg c));
     active \<leftarrow> gets cl_killSwitchActive;
     if \<not> enabled then return ()
     else if active then return ()
     else do {
       setupKillSwitchRules e False;
       v6 \<leftarrow> gets (\<lambda>c. cc_EnableIPv6 (cl_cfg c));
       (if v6 then do { setupKillSwitchRules e True; return () } else return ());
       modify (\<lambda>c. c\<lparr>cl_killSwitchActive := True\<rparr>)
     }
   }"

definition deactivateKillSwitch :: "env \<Rightarrow> (Client, unit) state" where
  "deactivateKillSwitch e = do {
     enabled \<leftarrow> gets (\<lambda>c. cc_EnableKillSwitch (cl_cfg c));
     active \<leftarrow> gets cl_killSwitchActive;
     if \<not> enabled then return ()
     else if \<not> active then return ()
     else do {
       cleanupKillSwitchRules e False;
       v6 \<leftarrow> gets (\<lambda>c. cc_EnableIPv6 (cl_cfg c));
       (if v6 then cleanupKillSwitchRules e True else return ());
       modify (\<lambda>c. c\<lparr>cl_killSwitchActive := False\<rparr>)
     }
   }"

section \<open>Frames\<close>

text \<open>The methods run commands of their address family only and change nothing of the client
  but the flag.\<close>

definition ipt_of :: "bool \<Rightarrow> action \<Rightarrow> bool" where
  "ipt_of v a \<longleftrightarrow> (\<exists>args. a = ipt v args)"

definition ipt_only :: "action \<Rightarrow> bool" where
  "ipt_only a \<longleftrightarrow> (\<exists>v. ipt_of v a)"

lemma ipt_of_simps [simp]: "ipt_of v (ipt v args)" "ipt_of v (append_rule v r)"
  unfolding ipt_of_def append_rule_def by blast+

lemma ipt_only_of: "ipt_of v a \<Longrightarrow> ipt_only a"
  unfolding ipt_only_def by blast

lemma emits_setup: "emits (ipt_of v) (setupKillSwitchRules e v)"
  unfolding setupKillSwitchRules_def by (intro frame) (simp_all add: list_all_iff)

lemma emits_cleanup: "emits (ipt_of v) (cleanupKillSwitchRules e v)"
  unfolding cleanupKillSwitchRules_def by (intro frame) simp_all

lemmas emits_rules = emits_mono [OF emits_setup ipt_only_of] emits_mono [OF emits_cleanup ipt_only_of]

lemma emits_activate [frame]: "emits ipt_only (activateKillSwitch e)"
  unfolding activateKillSwitch_def by (intro frame emits_rules) simp_all

lemma emits_deactivate [frame]: "emits ipt_only (deactivateKillSwitch e)"
  unfolding deactivateKillSwitch_def by (intro frame emits_rules) simp_all

lemma preserves_setup:
  "(\<And>c h. f (c\<lparr>hist := h\<rparr>) = f c) \<Longrightarrow> preserves f (setupKillSwitchRules e v)"
  unfolding setupKillSwitchRules_def by (intro frame) simp_all

lemma preserves_cleanup:
  "(\<And>c h. f (c\<lparr>hist := h\<rparr>) = f c) \<Longrightarrow> preserves f (cleanupKillSwitchRules e v)"
  unfolding cleanupKillSwitchRules_def by (intro frame) simp_all

lemma preserves_activate:
  "(\<And>c h. f (c\<lparr>hist := h\<rparr>) = f c) \<Longrightarrow> (\<And>c b. f (c\<lparr>cl_killSwitchActive := b\<rparr>) = f c) \<Longrightarrow> preserves f (activateKillSwitch e)"
  unfolding activateKillSwitch_def by (intro frame preserves_setup) simp_all

lemma preserves_deactivate:
  "(\<And>c h. f (c\<lparr>hist := h\<rparr>) = f c) \<Longrightarrow> (\<And>c b. f (c\<lparr>cl_killSwitchActive := b\<rparr>) = f c) \<Longrightarrow> preserves f (deactivateKillSwitch e)"
  unfolding deactivateKillSwitch_def by (intro frame preserves_cleanup) simp_all

section \<open>Packets and rules\<close>

text \<open>An outgoing packet, with the fields the rules of the program look at.\<close>

record packet =
  p_oif :: string
  p_dst :: string
  p_proto :: string
  p_dport :: string
  p_established :: bool

text \<open>The documented meaning of the options used: every match must hold; \<open>-j\<close> names the target.\<close>

fun rule_matches :: "packet \<Rightarrow> string list \<Rightarrow> bool" where
  "rule_matches p [] \<longleftrightarrow> True"
| "rule_matches p [x] \<longleftrightarrow> False"
| "rule_matches p (opt # val # rest) \<longleftrightarrow>
     (if opt = ''-o'' then p_oif p = val
      else if opt = ''-d'' then p_dst p = val
      else if opt = ''-p'' then p_proto p = val
      else if opt = ''--dport'' then p_dport p = val
      else if opt = ''-m'' then True
      else if opt = ''--ctstate'' then p_established p
      else if opt = ''-j'' \<or> opt = ''--reject-with'' then True
      else False) \<and> rule_matches p rest"

fun rule_target :: "string list \<Rightarrow> string" where
  "rule_target (opt # val # rest) = (if opt = ''-j'' then val else rule_target rest)"
| "rule_target _ = []"

datatype verdict = Accepted | Denied

type_synonym tables = "string \<Rightarrow> string list list option"

text \<open>A chain decides with its first matching terminating rule, or not at all; a jump decides as
  the called chain does.  Calls are followed to a depth of \<open>n\<close>.\<close>

fun decide :: "nat \<Rightarrow> tables \<Rightarrow> packet \<Rightarrow> string list list \<Rightarrow> verdict option" where
  "decide n T p [] = None"
| "decide n T p (r # rs) =
     (if \<not> rule_matches p r then decide n T p rs
      else if rule_target r = ''ACCEPT'' then Some Accepted
      else if rule_target r \<in> {''DROP'', ''REJECT''} then Some Denied
      else
        (case n of
           0 \<Rightarrow> decide n T p rs
         | Suc m \<Rightarrow>
             (case decide m T p (case T (rule_target r) of None \<Rightarrow> [] | Some rs' \<Rightarrow> rs') of
                Some v \<Rightarrow> Some v
              | None \<Rightarrow> decide n T p rs)))"

definition output_chain :: "tables \<Rightarrow> string list list" where
  "output_chain T = (case T ''OUTPUT'' of None \<Rightarrow> [] | Some rs \<Rightarrow> rs)"

section \<open>What iptables promises\<close>

text \<open>The effect of a successful command on the chains of the filter table.\<close>

definition nf_cmd :: "string list \<Rightarrow> tables \<Rightarrow> tables" where
  "nf_cmd args T =
     (case args of
        opt # ch # r \<Rightarrow>
          (if opt = ''-N'' then T(ch \<mapsto> [])
           else if opt = ''-F'' then T(ch := map_option (\<lambda>_. []) (T ch))
           else if opt = ''-A'' then T(ch := map_option (\<lambda>rs. rs @ [r]) (T ch))
           else if opt = ''-D'' then T(ch := map_option (remove1 r) (T ch))
           else if opt = ''-X'' then T(ch := None)
           else T)
      | _ \<Rightarrow> T)"

definition nf_effect :: "action \<Rightarrow> bool \<Rightarrow> tables \<Rightarrow> tables" where
  "nf_effect a v T =
     (case a of
        Exec (cmd # args) \<Rightarrow> (if cmd = (if v then ''ip6tables'' else ''iptables'') then nf_cmd args T else T)
      | _ \<Rightarrow> T)"

lemma nf_effect_ipt [simp]: "nf_effect (ipt v args) w T = (if v = w then nf_cmd args T else T)"
  by (cases v; cases w) (simp_all add: nf_effect_def ipt_def)

lemma nf_effect_other: "\<not> ipt_of v a \<Longrightarrow> nf_effect a v T = T"
proof (cases a)
  case (Exec line)
  then show "\<not> ipt_of v a \<Longrightarrow> nf_effect a v T = T"
    by (cases line; cases v) (auto simp: nf_effect_def ipt_of_def ipt_def)
qed (simp_all add: nf_effect_def)

definition unreferenced :: "tables \<Rightarrow> string \<Rightarrow> bool" where
  "unreferenced T ch \<longleftrightarrow> (\<forall>ch' rs r. T ch' = Some rs \<longrightarrow> r \<in> set rs \<longrightarrow> rule_target r \<noteq> ch)"

text \<open>\<open>tables h v\<close> are the chains of the IPv4 (\<open>v\<close> false) or IPv6 filter table after the history \<open>h\<close>.
  The first locale says that a command that fails has no effect and one that succeeds has the
  documented one, and that the built-in chain exists and is no jump target; the second that the
  commands the code relies on succeed.\<close>

locale filter_tables =
  fixes e :: env and tables :: "action list \<Rightarrow> bool \<Rightarrow> tables"
  assumes effect: "tables (h @ [a]) v = (if ok e h a then nf_effect a v (tables h v) else tables h v)"
    and output_exists: "\<exists>rs. tables h v ''OUTPUT'' = Some rs"

locale netfilter = filter_tables +
  assumes new_ok: "tables h v ch = None \<Longrightarrow> ok e h (ipt v [''-N'', ch])"
    and flush_ok: "tables h v ch \<noteq> None \<Longrightarrow> ok e h (ipt v [''-F'', ch])"
    and delete_ok: "tables h v ch = Some rs \<Longrightarrow> r \<in> set rs \<Longrightarrow> ok e h (ipt v (''-D'' # ch # r))"
    and delete_chain_ok: "tables h v ch = Some [] \<Longrightarrow> ch \<noteq> ''OUTPUT'' \<Longrightarrow> unreferenced (tables h v) ch
      \<Longrightarrow> ok e h (ipt v [''-X'', ch])"

context filter_tables begin

lemma other_family:
  assumes "list_all (ipt_of (\<not> v)) t"
  shows "tables (h @ t) v = tables h v"
  using assms
proof (induction t rule: rev_induct)
  case (snoc a t)
  then obtain args where "a = ipt (\<not> v) args" by (auto simp: ipt_of_def)
  then show ?case using snoc effect [of "h @ t" a v] by simp
qed simp

lemma failing_commands:
  assumes "list_all ipt_only t" and "\<And>h args. \<not> ok e h (Exec args)"
  shows "tables (h @ t) v = tables h v"
  using assms(1)
proof (induction t rule: rev_induct)
  case (snoc a t)
  then obtain args where "a = Exec args" by (auto simp: ipt_only_def ipt_of_def ipt_def)
  then show ?case using snoc effect [of "h @ t" a v] assms(2) by simp
qed simp

lemma append_cmd:
  "tables (h @ [ipt v (''-A'' # ch # r)]) v =
     (if ok e h (ipt v (''-A'' # ch # r)) then (tables h v)(ch := map_option (\<lambda>rs. rs @ [r]) (tables h v ch)) else tables h v)"
  by (simp add: effect nf_cmd_def)

lemma append_rules:
  assumes "tables h v chainName = Some rs"
  shows "\<exists>sub. subseq sub rules \<and> tables (h @ map (append_rule v) rules) v = (tables h v)(chainName \<mapsto> rs @ sub)"
  using assms
proof (induction rules rule: rev_induct)
  case (snoc r rules)
  then obtain sub where sub: "subseq sub rules" "tables (h @ map (append_rule v) rules) v = (tables h v)(chainName \<mapsto> rs @ sub)"
    by blast
  have grow: "subseq sub (rules @ [r])" "subseq (sub @ [r]) (rules @ [r])"
    using list_emb_append_mono [OF sub(1), of "[]" "[r]"] list_emb_append_mono [OF sub(1), of "[r]" "[r]"] by simp_all
  let ?h = "h @ map (append_rule v) rules"
  have step: "tables (?h @ [append_rule v r]) v =
      (if ok e ?h (append_rule v r) then (tables h v)(chainName \<mapsto> rs @ sub @ [r]) else (tables h v)(chainName \<mapsto> rs @ sub))"
    using append_cmd [of ?h v chainName r] by (simp add: append_rule_def sub(2))
  show ?case
  proof (cases "ok e ?h (append_rule v r)")
    case True
    with step grow(2) show ?thesis by (intro exI [of _ "sub @ [r]"]) simp
  next
    case False
    with step grow(1) show ?thesis by (intro exI [of _ sub]) simp
  qed
next
  case Nil
  then show ?case by (intro exI [of _ "[]"]) (simp add: fun_upd_idem)
qed

end

section \<open>The rules the kill switch installs\<close>

definition lo_rule :: "string list" where "lo_rule = [''-o'', ''lo'', ''-j'', ''ACCEPT'']"
definition drop_rule :: "string list" where "drop_rule = [''-j'', ''DROP'']"
definition jump_rule :: "string list" where "jump_rule = [''-j'', chainName]"

definition optional_rules :: "Client \<Rightarrow> string list list" where
  "optional_rules c = established_rule # xray_rules c @ gateway_rules c @ map (dns_rule ''udp'') publicDNS"

definition setup_commands :: "bool \<Rightarrow> Client \<Rightarrow> action list" where
  "setup_commands v c =
     [ipt v [''-N'', chainName], ipt v [''-F'', chainName], append_rule v lo_rule]
     @ map (append_rule v) (optional_rules c)"

lemma setup_None:
  assumes "run_state (setupKillSwitchRules e v) c = (None, c')"
  shows "hist c' = hist c @ setup_commands v c @ [append_rule v drop_rule, ipt v (''-A'' # ''OUTPUT'' # jump_rule)]"
    and "ok e (hist c @ [ipt v [''-N'', chainName], ipt v [''-F'', chainName]]) (append_rule v lo_rule)"
    and "ok e (hist c @ setup_commands v c) (append_rule v drop_rule)"
    and "ok e (hist c @ setup_commands v c @ [append_rule v drop_rule]) (ipt v (''-A'' # ''OUTPUT'' # jump_rule))"
  using assms
  by (auto simp: setupKillSwitchRules_def setup_commands_def optional_rules_def lo_rule_def drop_rule_def jump_rule_def comp_def
      xray_rules_def gateway_rules_def split: if_splits prod.splits)

context netfilter begin

lemma fresh_chain:
  "tables (h @ [ipt v [''-N'', ch], ipt v [''-F'', ch]]) v = (tables h v)(ch \<mapsto> [])"
proof -
  let ?h = "h @ [ipt v [''-N'', ch]]"
  have "tables ?h v = (if ok e h (ipt v [''-N'', ch]) then (tables h v)(ch \<mapsto> []) else tables h v)"
    by (simp add: effect nf_cmd_def)
  moreover have "tables h v = (tables h v)(ch \<mapsto> rs)" if "tables h v ch = Some rs" for rs
    using that by (simp add: fun_upd_idem)
  ultimately have "\<exists>rs. tables ?h v = (tables h v)(ch \<mapsto> rs)"
    using new_ok [of h v ch] by (cases "tables h v ch") (auto split: if_splits)
  then obtain rs where T: "tables ?h v = (tables h v)(ch \<mapsto> rs)" by blast
  then have "ok e ?h (ipt v [''-F'', ch])" by (intro flush_ok) simp
  then have "tables (?h @ [ipt v [''-F'', ch]]) v = (tables h v)(ch \<mapsto> [])"
    using T effect [of ?h "ipt v [''-F'', ch]" v] by (simp add: nf_cmd_def)
  then show ?thesis by simp
qed

lemma setup_tables:
  assumes "run_state (setupKillSwitchRules e v) c = (None, c')" and "tables (hist c) v ''OUTPUT'' = Some outs"
  shows "\<exists>sub. subseq sub (optional_rules c) \<and> tables (hist c') v =
     (tables (hist c) v)(chainName \<mapsto> lo_rule # sub @ [drop_rule], ''OUTPUT'' \<mapsto> outs @ [jump_rule])"
proof -
  let ?T = "tables (hist c) v"
  note s = setup_None [OF assms(1)]
  let ?h1 = "hist c @ [ipt v [''-N'', chainName], ipt v [''-F'', chainName]]"
  have "tables (?h1 @ [append_rule v lo_rule]) v = ?T(chainName \<mapsto> [lo_rule])"
    using s(2) fresh_chain [of "hist c" v chainName] append_cmd [of ?h1 v chainName lo_rule]
    by (simp add: append_rule_def)
  then obtain sub where sub: "subseq sub (optional_rules c)"
    and 2: "tables (hist c @ setup_commands v c) v = ?T(chainName \<mapsto> lo_rule # sub)"
    using append_rules [of "?h1 @ [append_rule v lo_rule]" v "[lo_rule]" "optional_rules c"]
    by (auto simp: setup_commands_def)
  have 3: "tables (hist c @ setup_commands v c @ [append_rule v drop_rule]) v = ?T(chainName \<mapsto> lo_rule # sub @ [drop_rule])"
    using s(3) append_cmd [of "hist c @ setup_commands v c" v chainName drop_rule] by (simp add: append_rule_def 2)
  have ne: "''OUTPUT'' \<noteq> chainName" by (simp add: chainName_def)
  have "tables (hist c') v = ?T(chainName \<mapsto> lo_rule # sub @ [drop_rule], ''OUTPUT'' \<mapsto> outs @ [jump_rule])"
    using s(4) append_cmd [of "hist c @ setup_commands v c @ [append_rule v drop_rule]" v "''OUTPUT''" jump_rule] assms(2) ne
    by (simp add: s(1) 3)
  with sub show ?thesis by blast
qed

lemma cleanup_tables:
  assumes "tables (hist c) v ''OUTPUT'' = Some rs" and "jump_rule \<in> set rs" and "tables (hist c) v chainName \<noteq> None"
    and "unreferenced ((tables (hist c) v)(''OUTPUT'' \<mapsto> remove1 jump_rule rs, chainName \<mapsto> [])) chainName"
  shows "tables (hist (snd (run_state (cleanupKillSwitchRules e v) c))) v
       = (tables (hist c) v)(''OUTPUT'' \<mapsto> remove1 jump_rule rs, chainName := None)"
proof -
  let ?T = "tables (hist c) v"
  have ne: "''OUTPUT'' \<noteq> chainName" "chainName \<noteq> ''OUTPUT''" by (simp_all add: chainName_def)
  let ?h1 = "hist c @ [ipt v (''-D'' # ''OUTPUT'' # jump_rule)]"
  have T1: "tables ?h1 v = ?T(''OUTPUT'' \<mapsto> remove1 jump_rule rs)"
    using delete_ok [OF assms(1,2)] assms(1) by (simp add: effect nf_cmd_def)
  let ?h2 = "?h1 @ [ipt v [''-F'', chainName]]"
  have T2: "tables ?h2 v = ?T(''OUTPUT'' \<mapsto> remove1 jump_rule rs, chainName \<mapsto> [])"
    using flush_ok [of ?h1 v chainName] assms(3) ne effect [of ?h1 "ipt v [''-F'', chainName]" v]
    by (auto simp: T1 nf_cmd_def)
  have "ok e ?h2 (ipt v [''-X'', chainName])"
    by (rule delete_chain_ok) (use T2 assms(4) ne in simp_all)
  then have T3: "tables (?h2 @ [ipt v [''-X'', chainName]]) v = ?T(''OUTPUT'' \<mapsto> remove1 jump_rule rs, chainName := None)"
    using effect [of ?h2 "ipt v [''-X'', chainName]" v] by (simp add: T2 nf_cmd_def del: append_assoc)
  have "hist (snd (run_state (cleanupKillSwitchRules e v) c)) = ?h2 @ [ipt v [''-X'', chainName]]"
    by (simp add: cleanupKillSwitchRules_def jump_rule_def)
  then show ?thesis by (simp only: T3)
qed

end

section \<open>Verdicts\<close>

lemma decide_append:
  "decide n T p (rs @ ss) = (case decide n T p rs of Some v \<Rightarrow> Some v | None \<Rightarrow> decide n T p ss)"
  by (induction rs) (auto split: nat.split option.split)

lemma decide_cong:
  assumes "\<forall>ch. ch \<notin> X \<longrightarrow> T' ch = T ch" and "\<forall>x \<in> X. unreferenced T x" and "\<forall>r \<in> set rs. rule_target r \<notin> X"
  shows "decide n T' p rs = decide n T p rs"
  using assms(3)
proof (induction n arbitrary: rs)
  case 0
  then show ?case by (induction rs) auto
next
  case (Suc m)
  have call: "decide m T' p (case T' ch of None \<Rightarrow> [] | Some rs' \<Rightarrow> rs') = decide m T p (case T ch of None \<Rightarrow> [] | Some rs' \<Rightarrow> rs')"
    if "ch \<notin> X" for ch
  proof (cases "T ch")
    case (Some rs')
    then have "\<forall>r \<in> set rs'. rule_target r \<notin> X" using assms(2) unfolding unreferenced_def by blast
    then show ?thesis using Suc.IH [of rs'] Some that assms(1) by simp
  qed (use that assms(1) in simp)
  show ?case using Suc.prems by (induction rs) (auto simp: call split: option.split)
qed

definition kill_switch_exempt :: "Client \<Rightarrow> packet \<Rightarrow> bool" where
  "kill_switch_exempt c p \<longleftrightarrow>
     p_oif p = ''lo'' \<or> p_established p
     \<or> (\<exists>ip. cl_xSrvIP c = Some ip \<and> p_dst p = IPAddr_String ip)
     \<or> p_dport p = ''53'' \<and>
        ((\<exists>gw. cc_GatewayIP (cl_cfg c) = Some gw \<and> p_dst p = IP_String gw \<and> p_proto p \<in> {''udp'', ''tcp''})
         \<or> p_proto p = ''udp'' \<and> p_dst p \<in> set publicDNS)"

lemma optional_rules_accept: "r \<in> set (lo_rule # optional_rules c) \<Longrightarrow> rule_target r = ''ACCEPT''"
  by (auto simp: lo_rule_def optional_rules_def established_rule_def xray_rules_def gateway_rules_def dns_rule_def split: option.splits)

lemma exempt_iff:
  "(\<exists>r \<in> set (lo_rule # optional_rules c). rule_matches p r) \<longleftrightarrow> kill_switch_exempt c p"
proof -
  have "(\<exists>r \<in> set (xray_rules c). rule_matches p r) \<longleftrightarrow> (\<exists>ip. cl_xSrvIP c = Some ip \<and> p_dst p = IPAddr_String ip)"
    by (cases "cl_xSrvIP c") (simp_all add: xray_rules_def)
  moreover have "(\<exists>r \<in> set (gateway_rules c). rule_matches p r) \<longleftrightarrow>
      p_dport p = ''53'' \<and> (\<exists>gw. cc_GatewayIP (cl_cfg c) = Some gw \<and> p_dst p = IP_String gw \<and> p_proto p \<in> {''udp'', ''tcp''})"
    by (cases "cc_GatewayIP (cl_cfg c)") (auto simp: gateway_rules_def dns_rule_def)
  moreover have "(\<exists>r \<in> set (map (dns_rule ''udp'') publicDNS). rule_matches p r) \<longleftrightarrow>
      p_dport p = ''53'' \<and> p_proto p = ''udp'' \<and> p_dst p \<in> set publicDNS"
    by (auto simp: dns_rule_def)
  ultimately show ?thesis
    by (simp add: optional_rules_def bex_Un kill_switch_exempt_def lo_rule_def established_rule_def del: set_map) blast
qed

lemma optional_rules_exempt:
  "r \<in> set (lo_rule # optional_rules c) \<Longrightarrow> rule_matches p r \<Longrightarrow> kill_switch_exempt c p"
  using exempt_iff by blast

lemma decide_accepting:
  assumes "\<forall>r \<in> set rs. rule_target r = ''ACCEPT''"
  shows "decide n T p (rs @ [drop_rule]) = Some (if \<exists>r \<in> set rs. rule_matches p r then Accepted else Denied)"
  using assms by (induction rs) (auto simp: drop_rule_def)

lemma decide_jump:
  assumes "T chainName = Some (lo_rule # sub @ [drop_rule])" and "set sub \<subseteq> set (optional_rules c)"
  shows "decide (Suc n) T p [jump_rule] = Some (if \<exists>r \<in> set (lo_rule # sub). rule_matches p r then Accepted else Denied)"
proof -
  have "\<forall>r \<in> set (lo_rule # sub). rule_target r = ''ACCEPT''"
    using assms(2) optional_rules_accept [of _ c] by auto
  from decide_accepting [OF this, of n T p] show ?thesis
    by (simp add: jump_rule_def assms(1)) (simp add: chainName_def)
qed

section \<open>Activation and deactivation\<close>

text \<open>The set-up of the family went through to its last command.\<close>

definition rules_installed :: "env \<Rightarrow> bool \<Rightarrow> Client \<Rightarrow> bool" where
  "rules_installed e v c \<longleftrightarrow>
     (let (err4, c1) = run_state (setupKillSwitchRules e False) c in
      if v then cc_EnableIPv6 (cl_cfg c) \<and> fst (run_state (setupKillSwitchRules e True) c1) = None else err4 = None)"

lemma setup_keeps:
  assumes "run_state (setupKillSwitchRules e v) c = (r, c1)"
  shows "cl_cfg c1 = cl_cfg c" "optional_rules c1 = optional_rules c" "cl_killSwitchActive c1 = cl_killSwitchActive c"
  using assms by (auto elim!: preservesD [OF preserves_setup, rotated -1]
      simp: optional_rules_def xray_rules_def gateway_rules_def)

lemma activate_run:
  assumes "cc_EnableKillSwitch (cl_cfg c)" and "\<not> cl_killSwitchActive c"
    and "run_state (setupKillSwitchRules e False) c = (r, c1)"
  shows "snd (run_state (activateKillSwitch e) c) =
     (if cc_EnableIPv6 (cl_cfg c) then snd (run_state (setupKillSwitchRules e True) c1) else c1)\<lparr>cl_killSwitchActive := True\<rparr>"
  using assms setup_keeps [OF assms(3)] by (simp add: activateKillSwitch_def split: prod.split)

context filter_tables begin

lemma setup_other_family:
  "run_state (setupKillSwitchRules e w) c = (r, c1) \<Longrightarrow> tables (hist c1) (\<not> w) = tables (hist c) (\<not> w)"
  using emitsE [OF emits_setup [of w e], of c] other_family [of "\<not> w"] by (metis snd_conv)

lemma not_iptables:
  assumes "list_all (\<lambda>a. \<not> ipt_only a) t"
  shows "tables (h @ t) v = tables h v"
  using assms
proof (induction t rule: rev_induct)
  case (snoc a t)
  have "nf_effect a v T = T" for T
    using snoc.prems by (intro nf_effect_other) (auto simp: ipt_only_def)
  then show ?case using snoc effect [of "h @ t" a v] by simp
qed simp

end

context netfilter begin

lemma activate_tables:
  assumes "cc_EnableKillSwitch (cl_cfg c)" and "\<not> cl_killSwitchActive c"
    and "rules_installed e v c" and "tables (hist c) v ''OUTPUT'' = Some outs"
  shows "\<exists>sub. subseq sub (optional_rules c) \<and> tables (hist (snd (run_state (activateKillSwitch e) c))) v =
     (tables (hist c) v)(chainName \<mapsto> lo_rule # sub @ [drop_rule], ''OUTPUT'' \<mapsto> outs @ [jump_rule])"
proof -
  obtain r c1 where 1: "run_state (setupKillSwitchRules e False) c = (r, c1)" by fastforce
  obtain r2 c2 where 2: "run_state (setupKillSwitchRules e True) c1 = (r2, c2)" by fastforce
  note run = activate_run [OF assms(1,2) 1] and keep = setup_keeps [OF 1]
  show ?thesis
  proof (cases v)
    case False
    have "tables (hist (snd (run_state (activateKillSwitch e) c))) v = tables (hist c1) v"
      using setup_other_family [OF 2] by (simp add: run 2 False)
    then show ?thesis
      using setup_tables [of False c c1 outs] assms(3,4) 1 by (simp add: rules_installed_def False)
  next
    case True
    then have "r2 = None" and v6: "cc_EnableIPv6 (cl_cfg c)" using assms(3) 1 2 by (auto simp: rules_installed_def)
    then show ?thesis
      using setup_tables [of True c1 c2 outs] assms(4) setup_other_family [OF 1] 1 2 keep True by (simp add: run)
  qed
qed

lemma activated_verdict:
  assumes "cc_EnableKillSwitch (cl_cfg c)" and "\<not> cl_killSwitchActive c" and "rules_installed e v c"
    and "unreferenced (tables (hist c) v) chainName" and "unreferenced (tables (hist c) v) ''OUTPUT''"
    and "T' = tables (hist (snd (run_state (activateKillSwitch e) c))) v"
    and "before = decide (Suc n) (tables (hist c) v) p (output_chain (tables (hist c) v))"
  shows "case before of
       Some d \<Rightarrow> decide (Suc n) T' p (output_chain T') = Some d
     | None \<Rightarrow> decide (Suc n) T' p (output_chain T') = Some Denied
         \<or> decide (Suc n) T' p (output_chain T') = Some Accepted \<and> kill_switch_exempt c p"
    and "before = None \<Longrightarrow> p_oif p = ''lo'' \<Longrightarrow> decide (Suc n) T' p (output_chain T') = Some Accepted"
proof -
  let ?T = "tables (hist c) v"
  obtain outs where outs: "?T ''OUTPUT'' = Some outs" using output_exists by blast
  obtain sub where sub: "subseq sub (optional_rules c)"
    and T': "T' = ?T(chainName \<mapsto> lo_rule # sub @ [drop_rule], ''OUTPUT'' \<mapsto> outs @ [jump_rule])"
    using activate_tables [OF assms(1-3) outs] assms(6) by blast
  have ne: "''OUTPUT'' \<noteq> chainName" "chainName \<noteq> ''OUTPUT''" by (simp_all add: chainName_def)
  have set: "set sub \<subseteq> set (optional_rules c)" using sub by (auto dest: list_emb_set)
  have "rule_target r \<notin> {chainName, ''OUTPUT''}" if "r \<in> set outs" for r
    using assms(4,5) outs that unfolding unreferenced_def by blast
  then have "decide (Suc n) T' p outs = decide (Suc n) ?T p outs"
    using assms(4,5) by (intro decide_cong [where X = "{chainName, ''OUTPUT''}"]) (auto simp: T')
  moreover have "decide (Suc n) T' p [jump_rule] = Some (if \<exists>r \<in> set (lo_rule # sub). rule_matches p r then Accepted else Denied)"
    by (rule decide_jump [OF _ set]) (simp add: T' ne)
  moreover have "output_chain T' = outs @ [jump_rule]" and "before = decide (Suc n) ?T p outs"
    using outs assms(7) by (simp_all add: T' output_chain_def)
  ultimately have after: "decide (Suc n) T' p (output_chain T') =
      (case before of Some d \<Rightarrow> Some d
       | None \<Rightarrow> Some (if \<exists>r \<in> set (lo_rule # sub). rule_matches p r then Accepted else Denied))"
    by (cases "decide (Suc n) ?T p outs") (simp_all add: decide_append del: decide.simps)
  have "kill_switch_exempt c p" if "\<exists>r \<in> set (lo_rule # sub). rule_matches p r"
    using that set optional_rules_exempt [of _ c p] by auto
  then show "case before of
       Some d \<Rightarrow> decide (Suc n) T' p (output_chain T') = Some d
     | None \<Rightarrow> decide (Suc n) T' p (output_chain T') = Some Denied
         \<or> decide (Suc n) T' p (output_chain T') = Some Accepted \<and> kill_switch_exempt c p"
    by (auto simp: after simp del: decide.simps split: option.split)
  show "decide (Suc n) T' p (output_chain T') = Some Accepted" if "before = None" "p_oif p = ''lo''"
    using that unfolding after by (simp add: lo_rule_def)
qed

end

context netfilter begin

text \<open>With the kill switch in place its jump decides every packet that gets so far: rules
  appended after it never see one.\<close>

lemma activated_decides:
  assumes "cc_EnableKillSwitch (cl_cfg c)" and "\<not> cl_killSwitchActive c" and "rules_installed e v c"
    and "unreferenced (tables (hist c) v) chainName" and "unreferenced (tables (hist c) v) ''OUTPUT''"
    and "T' = tables (hist (snd (run_state (activateKillSwitch e) c))) v"
  shows "decide (Suc n) T' p (output_chain T') \<noteq> None"
  using activated_verdict(1) [OF assms(1-5) assms(6) refl, of n p] by (auto simp del: decide.simps split: option.splits)

lemma deactivate_tables:
  assumes "cc_EnableKillSwitch (cl_cfg c)" and "cl_killSwitchActive c"
    and "v \<longrightarrow> cc_EnableIPv6 (cl_cfg c)"
    and "tables (hist c) v = T(chainName \<mapsto> rs, ''OUTPUT'' \<mapsto> outs @ [jump_rule])"
    and "T ''OUTPUT'' = Some outs" and "unreferenced T chainName"
  shows "tables (hist (snd (run_state (deactivateKillSwitch e) c))) v = T(chainName := None)"
proof -
  have ne: "''OUTPUT'' \<noteq> chainName" "chainName \<noteq> ''OUTPUT''" by (simp_all add: chainName_def)
  have tgt: "rule_target jump_rule = chainName" by (simp add: jump_rule_def)
  have notin: "jump_rule \<notin> set outs" using assms(5,6) tgt unfolding unreferenced_def by metis
  then have rem: "remove1 jump_rule (outs @ [jump_rule]) = outs" by (simp add: remove1_append)
  obtain c1 where 1: "run_state (cleanupKillSwitchRules e False) c = ((), c1)" by (cases "run_state (cleanupKillSwitchRules e False) c") auto
  have "tables (hist (snd (run_state (cleanupKillSwitchRules e v) d))) v = T(chainName := None)"
    if d: "tables (hist d) v = tables (hist c) v" for d
  proof -
    have u: "unreferenced ((tables (hist d) v)(''OUTPUT'' \<mapsto> remove1 jump_rule (outs @ [jump_rule]), chainName \<mapsto> [])) chainName"
      using assms(5,6) unfolding d assms(4) rem unreferenced_def by (auto split: if_splits)
    show ?thesis
      using cleanup_tables [OF _ _ _ u] ne rem unfolding d assms(4)
      by (simp add: fun_upd_twist [OF ne(2)] fun_upd_idem assms(5))
  qed
  note clean = this
  have other: "tables (hist (snd (run_state (cleanupKillSwitchRules e w) d))) (\<not> w) = tables (hist d) (\<not> w)" for w d
    using emitsE [OF emits_cleanup [of w e], of d] other_family [of "\<not> w"] by metis
  have cfg: "cl_cfg c1 = cl_cfg c" by (rule preservesD [OF preserves_cleanup 1]) simp
  have run: "snd (run_state (deactivateKillSwitch e) c) =
     (if cc_EnableIPv6 (cl_cfg c) then snd (run_state (cleanupKillSwitchRules e True) c1) else c1)\<lparr>cl_killSwitchActive := False\<rparr>"
    using assms(1,2) 1 cfg by (simp add: deactivateKillSwitch_def split: prod.split)
  show ?thesis
  proof (cases v)
    case False
    then show ?thesis using clean [of c] other [of True c1] 1 by (simp add: run)
  next
    case True
    then show ?thesis using clean [of c1] other [of False c] 1 assms(3) by (simp add: run)
  qed
qed

end

text \<open>With the privilege to append rules the set-up goes through.\<close>

locale permissive = netfilter +
  assumes append_ok: "tables h v ch \<noteq> None \<Longrightarrow> ok e h (ipt v (''-A'' # ch # r))"

context permissive begin

lemma setup_installs: "fst (run_state (setupKillSwitchRules e v) c) = None"
proof -
  let ?h1 = "hist c @ [ipt v [''-N'', chainName], ipt v [''-F'', chainName]]"
  have 1: "tables ?h1 v chainName \<noteq> None" by (simp add: fresh_chain)
  have ok1: "ok e ?h1 (append_rule v lo_rule)" unfolding append_rule_def by (rule append_ok [OF 1])
  have "tables (?h1 @ [append_rule v lo_rule]) v chainName = Some [lo_rule]"
    using append_cmd [of ?h1 v chainName lo_rule] ok1 fresh_chain [of "hist c" v chainName] by (simp add: append_rule_def)
  from append_rules [OF this, of "optional_rules c"]
  have 2: "tables (hist c @ setup_commands v c) v chainName \<noteq> None" by (auto simp: setup_commands_def)
  have ok2: "ok e (hist c @ setup_commands v c) (append_rule v drop_rule)" unfolding append_rule_def by (rule append_ok [OF 2])
  have ok3: "ok e h (ipt v (''-A'' # ''OUTPUT'' # jump_rule))" for h
    by (rule append_ok) (use output_exists in auto)
  show ?thesis
    using ok1 ok2 ok3
    by (simp add: setupKillSwitchRules_def setup_commands_def optional_rules_def lo_rule_def drop_rule_def jump_rule_def comp_def
        xray_rules_def gateway_rules_def)
qed

lemma installs: "rules_installed e v c \<longleftrightarrow> (v \<longrightarrow> cc_EnableIPv6 (cl_cfg c))"
  using setup_installs [of False c] setup_installs [of True] by (auto simp: rules_installed_def split: prod.splits)

end

section \<open>A filter that executes the commands\<close>

definition ref_cmd_ok :: "tables \<Rightarrow> string list \<Rightarrow> bool" where
  "ref_cmd_ok T args =
     (case args of
        opt # ch # r \<Rightarrow>
          (if opt = ''-N'' then T ch = None
           else if opt = ''-D'' then (case T ch of None \<Rightarrow> False | Some rs \<Rightarrow> r \<in> set rs)
           else if opt = ''-X'' then T ch = Some [] \<and> ch \<noteq> ''OUTPUT'' \<and> list_all (\<lambda>r. rule_target r \<noteq> ch) (output_chain T)
           else T ch \<noteq> None)
      | _ \<Rightarrow> False)"

definition ref_ok :: "(bool \<Rightarrow> tables) \<Rightarrow> action \<Rightarrow> bool" where
  "ref_ok TT a =
     (case a of
        Exec (cmd # args) \<Rightarrow>
          (if cmd = ''iptables'' then ref_cmd_ok (TT False) args
           else if cmd = ''ip6tables'' then ref_cmd_ok (TT True) args else True)
      | _ \<Rightarrow> True)"

definition ref_step :: "(bool \<Rightarrow> tables) \<Rightarrow> action \<Rightarrow> bool \<Rightarrow> tables" where
  "ref_step TT a = (if ref_ok TT a then (\<lambda>v. nf_effect a v (TT v)) else TT)"

definition ref_tables :: "string list list \<Rightarrow> action list \<Rightarrow> bool \<Rightarrow> tables" where
  "ref_tables outs h = foldl ref_step (\<lambda>_. [''OUTPUT'' \<mapsto> outs]) h"

definition ref_env :: "string list list \<Rightarrow> env" where
  "ref_env outs = \<lparr>ok = \<lambda>h a. ref_ok (ref_tables outs h) a, out = \<lambda>_ _. [], addr_ok = \<lambda>_. True, general_config = \<lambda>_. ([], []), resolve = \<lambda>_ _. None, goos_linux = True\<rparr>"

lemma ref_ok_ipt: "ref_ok TT (ipt v args) = ref_cmd_ok (TT v) args"
  by (cases v) (simp_all add: ref_ok_def ipt_def)

lemma ref_tables_snoc: "ref_tables outs (h @ [a]) = ref_step (ref_tables outs h) a"
  by (simp add: ref_tables_def)

lemma ref_output: "\<exists>rs. ref_tables outs h v ''OUTPUT'' = Some rs"
proof (induction h rule: rev_induct)
  case (snoc a h)
  show ?case
  proof (cases "ref_ok (ref_tables outs h) a \<and> ipt_of v a")
    case True
    then obtain args where a: "a = ipt v args" by (auto simp: ipt_of_def)
    with True snoc show ?thesis
      by (auto simp: ref_tables_snoc ref_step_def ref_ok_ipt ref_cmd_ok_def nf_cmd_def split: list.splits if_splits)
  next
    case False
    then show ?thesis using snoc nf_effect_other [of v a] by (auto simp: ref_tables_snoc ref_step_def)
  qed
qed (simp add: ref_tables_def)

interpretation ref: permissive "ref_env outs" "ref_tables outs" for outs
proof
  fix h a v show "ref_tables outs (h @ [a]) v =
      (if ok (ref_env outs) h a then nf_effect a v (ref_tables outs h v) else ref_tables outs h v)"
    by (simp add: ref_tables_snoc ref_step_def ref_env_def)
next
  fix h v show "\<exists>rs. ref_tables outs h v ''OUTPUT'' = Some rs" by (rule ref_output)
next
  fix h v ch assume "ref_tables outs h v ch = Some []" "ch \<noteq> ''OUTPUT''" "unreferenced (ref_tables outs h v) ch"
  then show "ok (ref_env outs) h (ipt v [''-X'', ch])"
    using ref_output [of outs h v] unfolding unreferenced_def
    by (simp add: ref_env_def ref_ok_ipt ref_cmd_ok_def output_chain_def list_all_iff split: option.split) metis
qed (auto simp: ref_env_def ref_ok_ipt ref_cmd_ok_def)

text \<open>A client with the kill switch enabled, connected before to a server, as an example.\<close>

definition ks_client :: "bool \<Rightarrow> Client" where
  "ks_client v6 = (let c = projr (NewClient (Some [192, 168, 1, 1]) True True (Some 10809)) in
     c\<lparr>cl_cfg := (cl_cfg c)\<lparr>cc_EnableKillSwitch := True, cc_EnableIPv6 := v6\<rparr>,
       cl_xSrvIP := Some \<lparr>ia_IP = [203, 0, 113, 7], ia_Zone = []\<rparr>\<rparr>)"

lemma ks_client_fields:
  "cc_EnableKillSwitch (cl_cfg (ks_client v6))" "cc_EnableIPv6 (cl_cfg (ks_client v6)) = v6" "\<not> cl_killSwitchActive (ks_client v6)"
  "hist (ks_client v6) = []" "cc_GatewayIP (cl_cfg (ks_client v6)) = Some [192, 168, 1, 1]"
  "cl_xSrvIP (ks_client v6) = Some \<lparr>ia_IP = [203, 0, 113, 7], ia_Zone = []\<rparr>"
  by (simp_all add: ks_client_def NewClient_def Let_def)

lemma ref_initial: "ref_tables outs [] v = [''OUTPUT'' \<mapsto> outs]"
  by (simp add: ref_tables_def)

lemma ref_unreferenced: "unreferenced (ref_tables [] [] v) ch"
  by (simp add: unreferenced_def ref_initial)

lemmas ks_example = ks_client_fields ref_unreferenced ref.installs ref.netfilter_axioms

section \<open>What the kill switch guarantees\<close>





text \<open>C31: When every command fails, for lack of privileges or of iptables, the activation still
  records the kill switch as active, with the filter untouched, and no later activation tries
  again.\<close>

theorem kill_switch_fails_silently:
  assumes "filter_tables e tables" and "\<And>h args. \<not> ok e h (Exec args)"
    and "cc_EnableKillSwitch (cl_cfg c)" and "snd (run_state (activateKillSwitch e) c) = c'"
  shows "cl_killSwitchActive c' \<and> tables (hist c') v = tables (hist c) v
     \<and> run_state (activateKillSwitch e) c' = ((), c')"
proof -
  obtain r c1 where 1: "run_state (setupKillSwitchRules e False) c = (r, c1)" by fastforce
  have act: "cl_killSwitchActive c'"
  proof (cases "cl_killSwitchActive c")
    case True
    then show ?thesis using assms(3,4) by (auto simp: activateKillSwitch_def)
  next
    case False
    then show ?thesis using activate_run [OF assms(3) _ 1] assms(4) by simp
  qed
  have cfg: "cl_cfg c' = cl_cfg c"
    unfolding assms(4) [symmetric] by (rule preservesD [OF preserves_activate, OF _ _ prod.collapse [symmetric]]) simp_all
  obtain t where "hist c' = hist c @ t" "list_all ipt_only t"
    using emitsE [OF emits_activate [of e], of c] assms(4) by metis
  then have "tables (hist c') v = tables (hist c) v"
    using filter_tables.failing_commands [OF assms(1), of t "hist c" v] assms(2) by simp
  with act cfg show ?thesis using assms(3) by (simp add: activateKillSwitch_def)
qed

text \<open>An environment without privileges.\<close>

definition deny_env :: env where
  "deny_env = \<lparr>ok = \<lambda>_ a. (case a of Exec _ \<Rightarrow> False | _ \<Rightarrow> True), out = \<lambda>_ _. [], addr_ok = \<lambda>_. True, general_config = \<lambda>_. ([], []), resolve = \<lambda>_ _. None, goos_linux = True\<rparr>"

interpretation denied: filter_tables deny_env "\<lambda>_ _. [''OUTPUT'' \<mapsto> []]"
proof
  fix h a v show "[''OUTPUT'' \<mapsto> []] = (if ok deny_env h a then nf_effect a v [''OUTPUT'' \<mapsto> []] else [''OUTPUT'' \<mapsto> []])"
    by (cases a) (simp_all add: deny_env_def nf_effect_def)
qed simp

theorem kill_switch_fails_silently_witness:
  "cl_killSwitchActive (snd (run_state (activateKillSwitch deny_env) (ks_client True)))"
  using kill_switch_fails_silently [OF denied.filter_tables_axioms, of "ks_client True", OF _ _ refl]
  by (simp add: ks_client_fields deny_env_def)

text \<open>Unless IPv6 is enabled for the client no operation of the kill switch touches the IPv6
  filter, so IPv6 traffic is never blocked.\<close>

theorem kill_switch_ignores_ipv6:
  assumes "filter_tables e tables" and "\<not> cc_EnableIPv6 (cl_cfg c)"
  shows "tables (hist (snd (run_state (activateKillSwitch e) c))) True = tables (hist c) True
     \<and> tables (hist (snd (run_state (deactivateKillSwitch e) c))) True = tables (hist c) True"
proof -
  obtain r c1 where 1: "run_state (setupKillSwitchRules e False) c = (r, c1)" by fastforce
  obtain u c2 where 2: "run_state (cleanupKillSwitchRules e False) c = (u, c2)"
    by (cases "run_state (cleanupKillSwitchRules e False) c") blast
  have "cl_cfg c2 = cl_cfg c" by (rule preservesD [OF preserves_cleanup 2]) simp
  then have "snd (run_state (deactivateKillSwitch e) c) \<in> {c, c2\<lparr>cl_killSwitchActive := False\<rparr>}"
    using assms(2) 2 by (simp add: deactivateKillSwitch_def)
  moreover have "tables (hist c2) True = tables (hist c) True"
    using emitsE [OF emits_cleanup [of False e], of c] filter_tables.other_family [OF assms(1), of True] 2
    by (metis (full_types) snd_conv)
  moreover have "snd (run_state (activateKillSwitch e) c) \<in> {c, c1\<lparr>cl_killSwitchActive := True\<rparr>}"
    using assms(2) 1 setup_keeps(1) [OF 1] by (simp add: activateKillSwitch_def)
  moreover have "tables (hist c1) True = tables (hist c) True"
    using filter_tables.setup_other_family [OF assms(1) 1] by simp
  ultimately show ?thesis by auto
qed

theorem kill_switch_ignores_ipv6_witness:
  "ref_tables [] (hist (snd (run_state (activateKillSwitch (ref_env [])) (ks_client False)))) True = [''OUTPUT'' \<mapsto> []]"
  using kill_switch_ignores_ipv6 [OF ref.filter_tables_axioms, of "ks_client False" "[]"] by (simp add: ks_client_fields ref_initial)

end
