(* ===== verification/ConnectionKiller.thy ===== *)
theory ConnectionKiller
  imports KillSwitch
begin

text \<open>
  \<open>pkg/client/connection_killer.go\<close>: the three ways of terminating connections to a server
  (\<open>ss -K\<close>, \<open>conntrack -D\<close>, a temporary REJECT rule).  The commands are actions of the host; the
  goroutine that removes the rule after three seconds is the action \<open>ExecLater\<close>.
\<close>

section \<open>The methods\<close>

datatype killer_error =
    ServerIPNil | SSNotFound | SSFailed | ConntrackNotFound | ConntrackInvalidIP | ConntrackFailed
  | IptablesNotFound | IptablesInvalidIP | AddRejectFailed
  | AllMethodsFailed "killer_error list" | CleanupTimedOut

definition killWithSS :: "env \<Rightarrow> string \<Rightarrow> string \<Rightarrow> (Client, killer_error option) state" where
  "killWithSS e ipStr port = do {
     found \<leftarrow> act e (LookPath ''ss'');
     if \<not> found then return (Some SSNotFound)
     else do {
       (success, outputStr) \<leftarrow> act_out e (Exec [''ss'', ''-K'', ''-t'', ''dst'', if port \<noteq> [] then JoinHostPort ipStr port else ipStr]);
       return (if \<not> success then
                 (if Contains outputStr ''No such file'' \<or> Contains outputStr ''No sockets'' \<or> Contains outputStr ''Cannot open''
                  then None else Some SSFailed)
               else None)
     }
   }"

definition conntrack_args :: "net_IP \<Rightarrow> string \<Rightarrow> string \<Rightarrow> string list" where
  "conntrack_args ip ipStr port =
     [''-D'', ''-f'', if To4 ip \<noteq> None then ''ipv4'' else ''ipv6'', ''--dport'', port, ''-p'', ''tcp'', ''--dst'', ipStr]"

definition killWithConntrack :: "env \<Rightarrow> string \<Rightarrow> string \<Rightarrow> (Client, killer_error option) state" where
  "killWithConntrack e ipStr port = do {
     found \<leftarrow> act e (LookPath ''conntrack'');
     if \<not> found then return (Some ConntrackNotFound)
     else
       (case ParseIP ipStr of
          None \<Rightarrow> return (Some ConntrackInvalidIP)
        | Some ip \<Rightarrow> do {
            (success, outputStr) \<leftarrow> act_out e (Exec (''conntrack'' # conntrack_args ip ipStr port));
            return (if \<not> success then
                      (if Contains outputStr ''0 entries'' \<or> Contains outputStr ''No such file'' then None else Some ConntrackFailed)
                    else None)
          })
   }"

definition reject_rule :: "string \<Rightarrow> string \<Rightarrow> string list" where
  "reject_rule ipStr port =
     [''-d'', ipStr] @ (if port \<noteq> [] then [''-p'', ''tcp'', ''--dport'', port] else [''-p'', ''tcp''])
     @ [''-j'', ''REJECT'', ''--reject-with'', ''tcp-reset'']"

definition killWithIptablesReject :: "env \<Rightarrow> string \<Rightarrow> string \<Rightarrow> (Client, killer_error option) state" where
  "killWithIptablesReject e ipStr port =
     (case ParseIP ipStr of
        None \<Rightarrow> return (Some IptablesInvalidIP)
      | Some ip \<Rightarrow>
          (let v6 = (To4 ip = None); cmdName = (if v6 then ''ip6tables'' else ''iptables'') in do {
             found \<leftarrow> act e (LookPath cmdName);
             if \<not> found then return (Some IptablesNotFound)
             else do {
               added \<leftarrow> act e (ipt v6 (''-A'' # ''OUTPUT'' # reject_rule ipStr port));
               if \<not> added then return (Some AddRejectFailed)
               else do {
                 act_ignore e (ExecLater (cmdName # ''-D'' # ''OUTPUT'' # reject_rule ipStr port));
                 return None
               }
             }
           }))"

text \<open>\<open>goos_linux\<close> is the test of \<open>runtime.GOOS\<close>; a nil address is the empty list.\<close>

definition KillConnectionsToServer :: "env \<Rightarrow> net_IP \<Rightarrow> string \<Rightarrow> (Client, killer_error option) state" where
  "KillConnectionsToServer e serverIP serverPort =
     (if \<not> goos_linux e then return None
      else if serverIP = [] then return (Some ServerIPNil)
      else do {
        ss \<leftarrow> killWithSS e (IP_String serverIP) serverPort;
        ct \<leftarrow> killWithConntrack e (IP_String serverIP) serverPort;
        rj \<leftarrow> killWithIptablesReject e (IP_String serverIP) serverPort;
        return (if ss = None \<or> ct = None \<or> rj = None then None else Some (AllMethodsFailed [the ss, the ct, the rj]))
      })"

text \<open>The goroutine is not cancelled by the timeout: its actions happen in any case.  \<open>AwaitKill\<close>
  succeeds when it finishes in time.\<close>

definition KillConnectionsToServerWithTimeout :: "env \<Rightarrow> net_IP \<Rightarrow> string \<Rightarrow> (Client, killer_error option) state" where
  "KillConnectionsToServerWithTimeout e serverIP serverPort = do {
     err \<leftarrow> KillConnectionsToServer e serverIP serverPort;
     in_time \<leftarrow> act e AwaitKill;
     return (if in_time then err else Some CleanupTimedOut)
   }"

section \<open>Frames\<close>

definition appends_output :: "action \<Rightarrow> bool" where
  "appends_output a \<longleftrightarrow> \<not> ipt_only a \<or> (\<exists>v r. a = ipt v (''-A'' # ''OUTPUT'' # r))"

lemma ipt_only_simps [simp]:
  "\<not> ipt_only (LookPath p)" "\<not> ipt_only (ExecLater l)" "\<not> ipt_only (Exec (''ss'' # l))" "\<not> ipt_only (Exec (''conntrack'' # l))"
  by (auto simp: ipt_only_def ipt_of_def ipt_def)

lemma appends_output_simps [simp]: "appends_output (ipt v (''-A'' # ''OUTPUT'' # r))" "\<not> ipt_only a \<Longrightarrow> appends_output a"
  unfolding appends_output_def by blast+

lemma emits_kill [frame]: "emits appends_output (KillConnectionsToServer e ip port)"
  unfolding KillConnectionsToServer_def killWithSS_def killWithConntrack_def killWithIptablesReject_def Let_def
  by (intro frame) (simp_all add: case_prod_unfold)

lemma not_iptables_appends: "a \<in> {AwaitKill, XrayClose, TunClose, AwaitTunnel, StopTunnel, Socks5Stop} \<Longrightarrow> appends_output a"
  by (auto simp: appends_output_def ipt_only_def ipt_of_def ipt_def)

lemma preserves_kill:
  "(\<And>c h. f (c\<lparr>hist := h\<rparr>) = f c) \<Longrightarrow> preserves f (KillConnectionsToServer e ip port)"
  unfolding KillConnectionsToServer_def killWithSS_def killWithConntrack_def killWithIptablesReject_def Let_def
  by (intro frame) simp_all

section \<open>The temporary rule\<close>

lemma emits_probe_commands:
  "emits (\<lambda>a. \<not> ipt_only a) (killWithSS e ip port)" "emits (\<lambda>a. \<not> ipt_only a) (killWithConntrack e ip port)"
  unfolding killWithSS_def killWithConntrack_def by (intro frame; simp add: case_prod_unfold)+

definition ipt_name :: "bool \<Rightarrow> string" where
  "ipt_name v6 = (if v6 then ''ip6tables'' else ''iptables'')"

lemma killWithIptablesReject_trace:
  assumes "run_state (killWithIptablesReject e ipStr port) c = (err, c')"
  shows "(\<exists>t. hist c' = hist c @ t \<and> list_all (\<lambda>a. \<not> ipt_only a) t \<and> err \<noteq> None)
     \<or> (\<exists>v. let add = ipt v (''-A'' # ''OUTPUT'' # reject_rule ipStr port) in
          hist c' = hist c @ [LookPath (ipt_name v), add] \<and> \<not> ok e (hist c @ [LookPath (ipt_name v)]) add \<and> err \<noteq> None
        \<or> hist c' = hist c @ [LookPath (ipt_name v), add, ExecLater (ipt_name v # ''-D'' # ''OUTPUT'' # reject_rule ipStr port)]
          \<and> err = None)"
proof (cases "ParseIP ipStr")
  case None
  then show ?thesis using assms by (intro disjI1 exI [of _ "[]"]) (auto simp: killWithIptablesReject_def)
next
  case (Some ip)
  let ?v = "To4 ip = None"
  have name: "(if ?v then ''ip6tables'' else ''iptables'') = ipt_name ?v" by (simp add: ipt_name_def)
  note run = assms [unfolded killWithIptablesReject_def Some option.case Let_def name]
  consider "\<not> ok e (hist c) (LookPath (ipt_name ?v))" | "ok e (hist c) (LookPath (ipt_name ?v))" by blast
  then show ?thesis
  proof cases
    case 1
    with run show ?thesis by (intro disjI1 exI [of _ "[LookPath (ipt_name ?v)]"]) auto
  next
    case 2
    with run show ?thesis by (intro disjI2 exI [of _ ?v]) (auto simp: Let_def split: if_splits)
  qed
qed

lemma KillConnectionsToServer_trace:
  assumes "run_state (KillConnectionsToServer e ip port) c = (err, c')"
  obtains t where "hist c' = hist c @ t" "list_all (\<lambda>a. \<not> ipt_only a) t"
  | pre d rj where "hist d = hist c @ pre" "list_all (\<lambda>a. \<not> ipt_only a) pre"
      "run_state (killWithIptablesReject e (IP_String ip) port) d = (rj, c')" "rj = None \<longrightarrow> err = None"
proof (cases "goos_linux e \<and> ip \<noteq> []")
  case False
  with assms show ?thesis by (intro that(1) [of "[]"]) (auto simp: KillConnectionsToServer_def split: if_splits)
next
  case True
  obtain ss c1 where 1: "run_state (killWithSS e (IP_String ip) port) c = (ss, c1)" by fastforce
  obtain ct c2 where 2: "run_state (killWithConntrack e (IP_String ip) port) c1 = (ct, c2)" by fastforce
  obtain rj c3 where 3: "run_state (killWithIptablesReject e (IP_String ip) port) c2 = (rj, c3)" by fastforce
  obtain t1 where t1: "hist c1 = hist c @ t1" "list_all (\<lambda>a. \<not> ipt_only a) t1"
    using emitsE [OF emits_probe_commands(1)] 1 by (metis snd_conv)
  obtain t2 where t2: "hist c2 = hist c1 @ t2" "list_all (\<lambda>a. \<not> ipt_only a) t2"
    using emitsE [OF emits_probe_commands(2)] 2 by (metis snd_conv)
  show ?thesis
    using assms True 1 2 3 t1 t2
    by (intro that(2) [of c2 "t1 @ t2" rj]) (auto simp: KillConnectionsToServer_def)
qed

lemma ipt_inject [simp]: "ipt v a = ipt w b \<longleftrightarrow> v = w \<and> a = b"
  by (auto simp: ipt_def)

lemma split_after:
  assumes "h @ a # rest = pre @ s" and "list_all (\<lambda>a. \<not> P a) pre" and "P a"
  obtains h2 where "h = pre @ h2" "h2 @ a # rest = s"
  using assms by (auto simp: append_eq_append_conv2 append_eq_Cons_conv Cons_eq_append_conv)

text \<open>A REJECT rule the connection killer managed to insert is the last thing it does before it
  schedules the removal of exactly that rule and reports success; so no rule is left behind.\<close>

theorem reject_rule_is_temporary:
  assumes "run_state (KillConnectionsToServer e ip port) c = (err, c')"
    and "hist c' = hist c @ h @ ipt v (''-A'' # ''OUTPUT'' # r) # rest"
    and "ok e (hist c @ h) (ipt v (''-A'' # ''OUTPUT'' # r))"
  shows "rest = [ExecLater (ipt_name v # ''-D'' # ''OUTPUT'' # r)] \<and> err = None \<and> r = reject_rule (IP_String ip) port"
proof -
  let ?a = "ipt v (''-A'' # ''OUTPUT'' # r)"
  have ipt: "ipt_only ?a" by (rule ipt_only_of [OF ipt_of_simps(1)])
  show ?thesis
  proof (rule KillConnectionsToServer_trace [OF assms(1)])
    fix t assume "hist c' = hist c @ t" "list_all (\<lambda>a. \<not> ipt_only a) t"
    with assms(2) ipt show ?thesis by simp
  next
    fix pre d rj
    assume d: "hist d = hist c @ pre" "list_all (\<lambda>a. \<not> ipt_only a) pre" "rj = None \<longrightarrow> err = None"
      and run: "run_state (killWithIptablesReject e (IP_String ip) port) d = (rj, c')"
    obtain s where s: "hist c' = hist d @ s" "list_all (\<lambda>a. \<not> ipt_only a) s
        \<or> (\<exists>w. let add = ipt w (''-A'' # ''OUTPUT'' # reject_rule (IP_String ip) port) in
             s = [LookPath (ipt_name w), add] \<and> \<not> ok e (hist d @ [LookPath (ipt_name w)]) add
           \<or> s = [LookPath (ipt_name w), add, ExecLater (ipt_name w # ''-D'' # ''OUTPUT'' # reject_rule (IP_String ip) port)]
             \<and> rj = None)"
      using killWithIptablesReject_trace [OF run] by (fastforce simp: Let_def)
    have "h @ ?a # rest = pre @ s" using assms(2) s(1) d(1) by simp
    then obtain h2 where h: "h = pre @ h2" and h2: "h2 @ ?a # rest = s"
      using d(2) ipt by (rule split_after)
    have "hist c @ h = hist d @ h2" by (simp add: h d(1))
    then show ?thesis
      using s(2) h2 ipt assms(3) d(3) by (auto simp: Let_def Cons_eq_append_conv append_eq_Cons_conv)
  qed
qed

lemma ParseIP_sample: "ParseIP (IP_String [203, 0, 113, 7]) = Some (v4InV6Prefix @ [203, 0, 113, 7])"
  by (rule ParseIP_IP_String) (simp add: To4_def)

lemma To4_mapped: "length bs = 4 \<Longrightarrow> To4 (v4InV6Prefix @ bs) = Some bs"
  by (simp add: To4_def v4InV6Prefix_def)

definition yes_env :: env where
  "yes_env = \<lparr>ok = \<lambda>_ _. True, out = \<lambda>_ _. [], addr_ok = \<lambda>_. True, general_config = \<lambda>_. (''vpn.example'', ''443''),
     resolve = \<lambda>_ _. Some \<lparr>ia_IP = [203, 0, 113, 7], ia_Zone = []\<rparr>, goos_linux = True\<rparr>"

lemma yes_env_simps [simp]:
  "ok yes_env h a" "out yes_env h a = []" "addr_ok yes_env t" "general_config yes_env l = (''vpn.example'', ''443'')"
  "resolve yes_env h t = Some \<lparr>ia_IP = [203, 0, 113, 7], ia_Zone = []\<rparr>" "goos_linux yes_env"
  by (simp_all add: yes_env_def)

lemma kill_all_ok:
  assumes "ip \<noteq> []" and "ParseIP (IP_String ip) = Some ip'" and "To4 ip' = Some bs"
  shows "run_state (KillConnectionsToServer yes_env ip port) c = (None, c\<lparr>hist := hist c @
    [LookPath ''ss'', Exec [''ss'', ''-K'', ''-t'', ''dst'', if port \<noteq> [] then JoinHostPort (IP_String ip) port else IP_String ip],
     LookPath ''conntrack'', Exec (''conntrack'' # conntrack_args ip' (IP_String ip) port), LookPath ''iptables'',
     ipt False (''-A'' # ''OUTPUT'' # reject_rule (IP_String ip) port),
     ExecLater (''iptables'' # ''-D'' # ''OUTPUT'' # reject_rule (IP_String ip) port)]\<rparr>)"
  by (simp add: KillConnectionsToServer_def killWithSS_def killWithConntrack_def killWithIptablesReject_def assms Let_def)

theorem reject_rule_is_temporary_witness:
  "\<exists>c'. run_state (KillConnectionsToServer yes_env [203, 0, 113, 7] ''443'') (ks_client False) = (None, c')
     \<and> last (hist c') = ExecLater (''iptables'' # ''-D'' # ''OUTPUT'' # reject_rule (IP_String [203, 0, 113, 7]) ''443'')"
proof -
  let ?ip = "[203, 0, 113, 7] :: net_IP" and ?s = "IP_String [203, 0, 113, 7]"
  let ?h = "[LookPath ''ss'', Exec [''ss'', ''-K'', ''-t'', ''dst'', if ''443'' \<noteq> [] then JoinHostPort ?s ''443'' else ?s],
    LookPath ''conntrack'', Exec (''conntrack'' # conntrack_args (v4InV6Prefix @ ?ip) ?s ''443''), LookPath ''iptables'']"
  let ?a = "ipt False (''-A'' # ''OUTPUT'' # reject_rule ?s ''443'')"
  have "To4 (v4InV6Prefix @ ?ip) = Some ?ip" by (rule To4_mapped) simp
  note run = kill_all_ok [OF _ ParseIP_sample this, of "''443''" "ks_client False", OF list.distinct(2)]
  from reject_rule_is_temporary [OF run, of ?h False "reject_rule ?s ''443''"] show ?thesis
    unfolding run by (simp add: ipt_name_def)
qed

section \<open>Behind the kill switch\<close>

context filter_tables begin

lemma appended_rules:
  assumes "list_all appends_output t"
  shows "\<exists>extra. tables (h @ t) v = (tables h v)(''OUTPUT'' := map_option (\<lambda>rs. rs @ extra) (tables h v ''OUTPUT''))"
  using assms
proof (induction t rule: rev_induct)
  case Nil
  then show ?case by (intro exI [of _ "[]"]) (simp add: option.map_ident fun_upd_idem)
next
  case (snoc a t)
  then have "\<exists>extra. tables (h @ t) v = (tables h v)(''OUTPUT'' := map_option (\<lambda>rs. rs @ extra) (tables h v ''OUTPUT''))"
    by (intro snoc.IH) simp
  then obtain extra where T: "tables (h @ t) v = (tables h v)(''OUTPUT'' := map_option (\<lambda>rs. rs @ extra) (tables h v ''OUTPUT''))"
    by (elim exE)
  show ?case
  proof (cases "ok e (h @ t) a \<and> ipt_of v a")
    case True
    then obtain r where "a = ipt v (''-A'' # ''OUTPUT'' # r)"
      using snoc.prems by (auto simp: appends_output_def ipt_only_def ipt_of_def ipt_def)
    with True show ?thesis
      using effect [of "h @ t" a v]
      by (intro exI [of _ "extra @ [r]"]) (simp add: T nf_cmd_def option.map_comp comp_def)
  next
    case False
    then show ?thesis
      using effect [of "h @ t" a v] nf_effect_other [of v a "tables (h @ t) v"] T by (intro exI [of _ extra]) auto
  qed
qed

end



end
