(* ===== verification/Tunnel.thy ===== *)
theory Tunnel
  imports ConnectionKiller
begin

text \<open>
  Routing in \<open>pkg/client/client.go\<close>: the exception for the XRay server, the TUN interface with its
  IPv4 and IPv6 routes, and the DNS routes.  The route library and the \<open>ip\<close> command are host
  actions.
\<close>

section \<open>The exception for the XRay server\<close>

text \<open>\<open>None\<close> is the panic: a nil gateway, or a text that does not parse (the \<open>String\<close> of a nil
  address is \<open><nil>\<close>).\<close>

definition xray_route_text :: "Client \<Rightarrow> string" where
  "xray_route_text c = (case cl_xSrvIP c of None \<Rightarrow> ''<nil>'' | Some ip \<Rightarrow> IPAddr_String ip) @ ''/32''"

definition xrayToGatewayRoute :: "env \<Rightarrow> Client \<Rightarrow> route_Opts option" where
  "xrayToGatewayRoute e c =
     (case cc_GatewayIP (cl_cfg c) of
        None \<Rightarrow> None
      | Some gw \<Rightarrow>
          if addr_ok e (xray_route_text c)
          then Some \<lparr>ro_Gateway = Some gw, ro_IfName = [], ro_Routes = [xray_route_text c]\<rparr> else None)"

definition via_tun :: "string \<Rightarrow> string list \<Rightarrow> route_Opts" where
  "via_tun ifName routes = \<lparr>ro_Gateway = None, ro_IfName = ifName, ro_Routes = routes\<rparr>"

section \<open>The TUN interface\<close>

datatype tunnel_error = CreateTUN | SetupIPv4 | AddIPv4Routes | AddIPv6Routes

definition setupIPv6OnInterface :: "env \<Rightarrow> string \<Rightarrow> (Client, bool) state" where
  "setupIPv6OnInterface e ifName =
     act e (Exec [''ip'', ''-6'', ''addr'', ''add'', IPNet_String defaultTUNAddressIPv6, ''dev'', ifName])"

definition removeIPv6AddressSystem :: "env \<Rightarrow> string \<Rightarrow> (Client, bool) state" where
  "removeIPv6AddressSystem e ifName =
     act e (Exec [''ip'', ''-6'', ''addr'', ''del'', IPNet_String defaultTUNAddressIPv6, ''dev'', ifName])"

text \<open>The loops run every command and report whether all succeeded.\<close>

fun ipv6_route_cmds :: "env \<Rightarrow> string \<Rightarrow> string \<Rightarrow> string list \<Rightarrow> (Client, bool) state" where
  "ipv6_route_cmds e verb ifName [] = return True"
| "ipv6_route_cmds e verb ifName (r # rs) = do {
     done \<leftarrow> act e (Exec [''ip'', ''-6'', ''route'', verb, r, ''dev'', ifName]);
     rest \<leftarrow> ipv6_route_cmds e verb ifName rs;
     return (done \<and> rest)
   }"

definition addIPv6RoutesSystem :: "env \<Rightarrow> string \<Rightarrow> (Client, bool) state" where
  "addIPv6RoutesSystem e ifName = ipv6_route_cmds e ''add'' ifName DefaultRoutesToTUNIPv6"

definition removeIPv6RoutesSystem :: "env \<Rightarrow> string \<Rightarrow> (Client, bool) state" where
  "removeIPv6RoutesSystem e ifName = ipv6_route_cmds e ''del'' ifName DefaultRoutesToTUNIPv6"

definition routes_to_tun :: "Client \<Rightarrow> string list" where
  "routes_to_tun c = (case cc_RoutesToTUN (cl_cfg c) of None \<Rightarrow> [] | Some rs \<Rightarrow> rs)"

definition setupTunnel :: "env \<Rightarrow> (Client, tunnel_error option) state" where
  "setupTunnel e = do {
     (created, name) \<leftarrow> act_out e TunNew;
     if \<not> created then return (Some CreateTUN)
     else do {
       modify (\<lambda>c. c\<lparr>cl_tunName := name\<rparr>);
       up \<leftarrow> act e TunUp;
       if \<not> up then return (Some SetupIPv4)
       else do {
         v6 \<leftarrow> gets (\<lambda>c. cc_EnableIPv6 (cl_cfg c));
         (if v6 then do { setupIPv6OnInterface e name; return () } else return ());
         routes \<leftarrow> gets routes_to_tun;
         added \<leftarrow> act e (RouteAdd (via_tun name routes));
         if \<not> added then return (Some AddIPv4Routes)
         else if v6 then do {
           added6 \<leftarrow> act e (RouteAdd (via_tun name DefaultRoutesToTUNIPv6));
           if \<not> added6 then do {
             sys \<leftarrow> addIPv6RoutesSystem e name;
             return (if \<not> sys then Some AddIPv6Routes else None)
           } else return None
         } else return None
       }
     }
   }"

section \<open>DNS protection\<close>

fun add_each_route :: "env \<Rightarrow> string \<Rightarrow> string list \<Rightarrow> (Client, bool) state" where
  "add_each_route e ifName [] = return True"
| "add_each_route e ifName (r # rs) = do {
     added \<leftarrow> act e (RouteAdd (via_tun ifName [r]));
     rest \<leftarrow> add_each_route e ifName rs;
     return (added \<and> rest)
   }"

definition addDNSRoutesThroughTUN :: "env \<Rightarrow> (Client, bool) state" where
  "addDNSRoutesThroughTUN e = do {
     name \<leftarrow> gets cl_tunName;
     v6 \<leftarrow> gets (\<lambda>c. cc_EnableIPv6 (cl_cfg c));
     a \<leftarrow> add_each_route e name DNSRoutesToTUN;
     b \<leftarrow> (if v6 then add_each_route e name DNSRoutesToTUNIPv6 else return True);
     c \<leftarrow> add_each_route e name DNSPortRoutesToTUN;
     d \<leftarrow> (if v6 then add_each_route e name DNSPortRoutesToTUNIPv6 else return True);
     return (a \<and> b \<and> c \<and> d)
   }"

text \<open>\<open>setupDNSTrafficForcing\<close> only logs.\<close>

definition setupDNSTrafficForcing :: "(Client, unit) state" where
  "setupDNSTrafficForcing = return ()"

definition setupDNSProtection :: "env \<Rightarrow> (Client, unit) state" where
  "setupDNSProtection e = do {
     enabled \<leftarrow> gets (\<lambda>c. cc_EnableDNSProtection (cl_cfg c));
     if \<not> enabled then return ()
     else do {
       setupDNSTrafficForcing;
       addDNSRoutesThroughTUN e;
       return ()
     }
   }"

text \<open>The port of a nil inbound proxy, which \<open>NewClient\<close> excludes, would be a panic.\<close>

definition inbound_port :: "Client \<Rightarrow> string" where
  "inbound_port c = (case cc_InboundProxy (cl_cfg c) of None \<Rightarrow> [] | Some p \<Rightarrow> itoa (px_Port p))"

definition redirect_cmd :: "string \<Rightarrow> string \<Rightarrow> string \<Rightarrow> action" where
  "redirect_cmd cmd proto port =
     Exec [cmd, ''-t'', ''nat'', ''-D'', ''OUTPUT'', ''-p'', proto, ''--dport'', ''53'', ''-j'', ''REDIRECT'', ''--to-port'', port]"

definition cleanupDNSTrafficForcing :: "env \<Rightarrow> (Client, unit) state" where
  "cleanupDNSTrafficForcing e = do {
     port \<leftarrow> gets inbound_port;
     act_ignore e (redirect_cmd ''iptables'' ''udp'' port);
     act_ignore e (redirect_cmd ''iptables'' ''tcp'' port);
     v6 \<leftarrow> gets (\<lambda>c. cc_EnableIPv6 (cl_cfg c));
     if v6 then do {
       act_ignore e (redirect_cmd ''ip6tables'' ''udp'' port);
       act_ignore e (redirect_cmd ''ip6tables'' ''tcp'' port)
     } else return ()
   }"

definition cleanupDNSProtection :: "env \<Rightarrow> (Client, unit) state" where
  "cleanupDNSProtection e = do {
     name \<leftarrow> gets cl_tunName;
     v6 \<leftarrow> gets (\<lambda>c. cc_EnableIPv6 (cl_cfg c));
     if name = [] then return ()
     else do {
       act_ignore e (RouteDelete (via_tun name DNSPortRoutesToTUN));
       (if v6 then act_ignore e (RouteDelete (via_tun name DNSPortRoutesToTUNIPv6)) else return ());
       act_ignore e (RouteDelete (via_tun name DNSRoutesToTUN));
       (if v6 then act_ignore e (RouteDelete (via_tun name DNSRoutesToTUNIPv6)) else return ());
       cleanupDNSTrafficForcing e
     }
   }"

text \<open>The clean-up section of \<open>Disconnect\<close>.\<close>

definition cleanup_tun_routes :: "env \<Rightarrow> (Client, unit) state" where
  "cleanup_tun_routes e = do {
     name \<leftarrow> gets cl_tunName;
     v6 \<leftarrow> gets (\<lambda>c. cc_EnableIPv6 (cl_cfg c));
     dns \<leftarrow> gets (\<lambda>c. cc_EnableDNSProtection (cl_cfg c));
     (if name \<noteq> [] then act_ignore e (RouteDelete (via_tun name DNSRoutesToTUN)) else return ());
     (if v6 \<and> name \<noteq> [] then do {
        deleted \<leftarrow> act e (RouteDelete (via_tun name DefaultRoutesToTUNIPv6));
        (if \<not> deleted then do { removeIPv6RoutesSystem e name; return () } else return ());
        act_ignore e (RouteDelete (via_tun name DNSRoutesToTUNIPv6));
        removeIPv6AddressSystem e name;
        return ()
      } else return ());
     if dns \<and> name \<noteq> [] then cleanupDNSProtection e else return ()
   }"

end
