(* ===== verification/Traffic.thy ===== *)
theory Traffic
  imports ClientState
begin

text \<open>
  Observation in \<open>pkg/client/client.go\<close> and \<open>metrics.go\<close>: the counters read from
  \<open>/proc/net/dev\<close>, the two periodic updates, the metrics server, the wrapper that counts octets,
  the status report, and the small pure functions.  The goroutines' tickers are represented by
  their loop bodies (\<open>monitor_tick\<close>, \<open>metrics_tick\<close>).
\<close>

section \<open>Interface counters\<close>

fun stats_of_lines :: "string \<Rightarrow> string list \<Rightarrow> int \<times> int" where
  "stats_of_lines ifaceName [] = (0, 0)"
| "stats_of_lines ifaceName (line0 # rest) =
     (let line = TrimSpace line0 in
      if \<not> HasPrefix line (ifaceName @ '':'') \<and> \<not> HasPrefix line (ifaceName @ '': '') then stats_of_lines ifaceName rest
      else
        (let parts = SplitN2 CHR '':'' line in
         if length parts \<noteq> 2 then stats_of_lines ifaceName rest
         else
           (let stats = Fields (TrimSpace (parts ! 1)) in
            if length stats < 10 then stats_of_lines ifaceName rest
            else
              (case sscanf_d (stats ! 0) of
                 None \<Rightarrow> stats_of_lines ifaceName rest
               | Some rxBytes \<Rightarrow>
                   (case sscanf_d (stats ! 8) of
                      None \<Rightarrow> stats_of_lines ifaceName rest
                    | Some txBytes \<Rightarrow> (rxBytes, txBytes))))))"

definition readInterfaceStats :: "string option \<Rightarrow> string \<Rightarrow> int \<times> int" where
  "readInterfaceStats proc_net_dev ifaceName =
     (case proc_net_dev of None \<Rightarrow> (0, 0) | Some text \<Rightarrow> stats_of_lines ifaceName (Split CHR 0x0A text))"

definition monitor_tick :: "string option \<Rightarrow> Client \<Rightarrow> Client" where
  "monitor_tick proc_net_dev c =
     (let (rx, tx) = (if cl_tunName c \<noteq> [] then readInterfaceStats proc_net_dev (cl_tunName c) else (0, 0))
      in c\<lparr>cl_bytesRead := rx, cl_bytesWritten := tx\<rparr>)"

section \<open>Metrics\<close>

definition toMetricValue :: "bool \<Rightarrow> int" where
  "toMetricValue enabled = (if enabled then 1 else 0)"

text \<open>In the order of the source: IPv6, DNS protection, kill switch, metrics, insecure TLS, end-to-end
  check.\<close>

definition updateConfigMetrics :: "(Client, unit) state" where
  "updateConfigMetrics =
     modify (\<lambda>c. let f = cl_cfg c in
       c\<lparr>cl_gauges := (cl_gauges c)\<lparr>g_config :=
         [toMetricValue (cc_EnableIPv6 f), toMetricValue (cc_EnableDNSProtection f), toMetricValue (cc_EnableKillSwitch f),
          toMetricValue (cc_MetricsPort f > 0), toMetricValue (cc_TLSAllowInsecure f), toMetricValue (cc_E2ECheckURL f \<noteq> [])]\<rparr>\<rparr>)"

text \<open>One tick of the periodic update; \<open>connectTime\<close> belongs to the goroutine and is set once, at
  its first tick that finds the client connected.\<close>

definition metrics_tick :: "int \<Rightarrow> int option \<times> Client \<Rightarrow> int option \<times> Client" where
  "metrics_tick now st =
     (let (connectTime, c) = st in
      if \<not> cl_isConnected c then (connectTime, c)
      else
        (let t0 = (case connectTime of None \<Rightarrow> now | Some t \<Rightarrow> t);
             totalRead = wrap64 (cl_cumulativeBytesRead c + cl_bytesRead c);
             totalWritten = wrap64 (cl_cumulativeBytesWritten c + cl_bytesWritten c)
         in (Some t0, c\<lparr>cl_gauges := (cl_gauges c)\<lparr>g_bytesRead := totalRead, g_bytesWritten := totalWritten,
                                      g_connectionDuration := now - t0\<rparr>\<rparr>)))"

definition startMetricsUpdate :: "env \<Rightarrow> (Client, unit) state" where
  "startMetricsUpdate e = do {
     port \<leftarrow> gets (\<lambda>c. cc_MetricsPort (cl_cfg c));
     if port \<le> 0 then return ()
     else do {
       running \<leftarrow> gets cl_metricsServer;
       (if running then do { act_ignore e MetricsShutdown; modify (\<lambda>c. c\<lparr>cl_metricsServer := False\<rparr>) } else return ());
       modify (\<lambda>c. c\<lparr>cl_metricsServer := True\<rparr>);
       act_ignore e (MetricsListen (''0.0.0.0:'' @ itoa port));
       act_ignore e GoMetricsUpdate
     }
   }"

definition stopMetricsUpdate :: "env \<Rightarrow> (Client, unit) state" where
  "stopMetricsUpdate e = do {
     running \<leftarrow> gets cl_metricsServer;
     if \<not> running then return ()
     else do { act_ignore e MetricsShutdown; modify (\<lambda>c. c\<lparr>cl_metricsServer := False\<rparr>) }
   }"

text \<open>\<open>NewClientWithOpts\<close> starts the metrics server at once.\<close>

definition NewClientWithOpts ::
    "env \<Rightarrow> net_IP option \<Rightarrow> bool \<Rightarrow> bool \<Rightarrow> int option \<Rightarrow> client_Config \<Rightarrow> client_error + Client" where
  "NewClientWithOpts e gw pipe_ok route_ok listened cfg =
     (case NewClient gw pipe_ok route_ok listened of
        Inl err \<Rightarrow> Inl err
      | Inr c0 \<Rightarrow>
          (let c = c0\<lparr>cl_cfg := Config_apply (cl_cfg c0) cfg\<rparr>
           in Inr (if cc_MetricsPort (cl_cfg c) > 0 then snd (run_state (startMetricsUpdate e) c) else c)))"

section \<open>The counting wrapper of metrics.go\<close>

record readerMetrics =
  rm_nRead :: int
  rm_nWritten :: int

definition newReaderMetrics :: readerMetrics where
  "newReaderMetrics = \<lparr>rm_nRead = 0, rm_nWritten = 0\<rparr>"

text \<open>\<open>Read\<close> and \<open>Write\<close> return what the wrapped device returned, a count and an error.\<close>

definition rm_Read :: "int \<times> bool \<Rightarrow> readerMetrics \<Rightarrow> (int \<times> bool) \<times> readerMetrics" where
  "rm_Read dev s = (let (n, failed) = dev in (dev, if \<not> failed then s\<lparr>rm_nRead := wrap64 (rm_nRead s + n)\<rparr> else s))"

definition rm_Write :: "int \<times> bool \<Rightarrow> readerMetrics \<Rightarrow> (int \<times> bool) \<times> readerMetrics" where
  "rm_Write dev s = (let (n, failed) = dev in (dev, if \<not> failed then s\<lparr>rm_nWritten := wrap64 (rm_nWritten s + n)\<rparr> else s))"

section \<open>Status and small functions\<close>

definition detectProtocol :: "string \<Rightarrow> string" where
  "detectProtocol link =
     (if HasPrefix link ''vless://'' then ''vless''
      else if HasPrefix link ''vmess://'' then ''vmess''
      else if HasPrefix link ''trojan://'' then ''trojan''
      else if HasPrefix link ''ss://'' then ''shadowsocks''
      else ''unknown'')"

datatype Severity = Severity_Unknown | Severity_Error | Severity_Warning | Severity_Info | Severity_Debug

definition xRayLogLevel :: "(slog_Level \<Rightarrow> bool) \<Rightarrow> Severity" where
  "xRayLogLevel enabled =
     (if enabled LevelDebug then Severity_Debug
      else if enabled LevelInfo then Severity_Info
      else if enabled LevelError then Severity_Error
      else if enabled LevelWarn then Severity_Warning
      else Severity_Unknown)"

definition getPublicIPs :: "Client \<Rightarrow> string \<times> string" where
  "getPublicIPs c =
     ((case cc_TUNAddress (cl_cfg c) of None \<Rightarrow> [] | Some a \<Rightarrow> IP_String (net_ip a)),
      (if cc_EnableIPv6 (cl_cfg c) then IP_String (net_ip defaultTUNAddressIPv6) else []))"

record connection_status =
  cs_is_connected :: bool
  cs_tun_address :: string
  cs_xray_server_ip :: "string option"
  cs_tun_interface :: "string option"
  cs_public_ipv4 :: "string option"
  cs_public_ipv6 :: "string option"
  cs_bytes :: "(int \<times> int) option"

definition present :: "string \<Rightarrow> string option" where
  "present s = (if s \<noteq> [] then Some s else None)"

text \<open>The keys of the map are fields, absent keys are \<open>None\<close>; a missing TUN address is the panic.\<close>

definition GetConnectionStatus :: "Client \<Rightarrow> connection_status option" where
  "GetConnectionStatus c =
     (case cc_TUNAddress (cl_cfg c) of
        None \<Rightarrow> None
      | Some a \<Rightarrow>
          (let status = \<lparr>cs_is_connected = cl_isConnected c, cs_tun_address = IPNet_String a, cs_xray_server_ip = None,
                 cs_tun_interface = None, cs_public_ipv4 = None, cs_public_ipv6 = None, cs_bytes = None\<rparr>;
               (publicIPv4, publicIPv6) = getPublicIPs c in
           Some (if cl_isConnected c
             then status\<lparr>cs_xray_server_ip := map_option IPAddr_String (cl_xSrvIP c),
                    cs_tun_interface := present (cl_tunName c),
                    cs_public_ipv4 := present publicIPv4, cs_public_ipv6 := present publicIPv6,
                    cs_bytes := Some (cl_bytesRead c, cl_bytesWritten c)\<rparr>
             else status)))"

section \<open>Facts\<close>

lemma preserves_startMetricsUpdate:
  "(\<And>c h. f (c\<lparr>hist := h\<rparr>) = f c) \<Longrightarrow> (\<And>c b. f (c\<lparr>cl_metricsServer := b\<rparr>) = f c) \<Longrightarrow> preserves f (startMetricsUpdate e)"
  unfolding startMetricsUpdate_def by (intro frame) simp_all

lemma preserves_stopMetricsUpdate:
  "(\<And>c h. f (c\<lparr>hist := h\<rparr>) = f c) \<Longrightarrow> (\<And>c b. f (c\<lparr>cl_metricsServer := b\<rparr>) = f c) \<Longrightarrow> preserves f (stopMetricsUpdate e)"
  unfolding stopMetricsUpdate_def by (intro frame) simp_all

subsection \<open>The counters of an interface\<close>

lemma fields_acc_word:
  "\<forall>c \<in> set w. \<not> is_space c \<Longrightarrow> fields_acc acc (w @ t) = fields_acc (rev w @ acc) t"
  by (induction w arbitrary: acc) auto

lemma fields_acc_blanks: "fields_acc [] (replicate n CHR '' '' @ t) = fields_acc [] t"
  by (induction n) (simp_all add: is_space_def)

definition columns :: "(nat \<times> nat) list \<Rightarrow> string" where
  "columns cols = concat (map (\<lambda>(p, v). replicate (Suc p) CHR '' '' @ itoa_nat v) cols)"

text \<open>A line of \<open>/proc/net/dev\<close>: padding, the name, a colon and blank-separated counters.\<close>

definition dev_line :: "nat \<Rightarrow> string \<Rightarrow> (nat \<times> nat) list \<Rightarrow> string" where
  "dev_line pad name cols = replicate pad CHR '' '' @ name @ '':'' @ columns cols"

lemma itoa_nat_no_space: "\<forall>c \<in> set (itoa_nat n). \<not> is_space c"
  using itoa_nat_clean by blast

lemma fields_acc_columns:
  "acc \<noteq> [] \<Longrightarrow> fields_acc acc (columns cols) = rev acc # map (itoa_nat \<circ> snd) cols"
proof (induction cols arbitrary: acc)
  case (Cons c cols)
  obtain p v where c: "c = (p, v)" by fastforce
  have "fields_acc acc (columns (c # cols)) = rev acc # fields_acc [] (replicate p CHR '' '' @ itoa_nat v @ columns cols)"
    using Cons.prems by (simp add: columns_def c is_space_def)
  also have "\<dots> = rev acc # fields_acc (rev (itoa_nat v)) (columns cols)"
    by (simp add: fields_acc_blanks fields_acc_word [OF itoa_nat_no_space])
  also have "\<dots> = rev acc # map (itoa_nat \<circ> snd) (c # cols)"
    using Cons.IH [of "rev (itoa_nat v)"] by (simp add: c)
  finally show ?case .
qed (simp add: columns_def)

lemma fields_columns: "cols \<noteq> [] \<Longrightarrow> fields_acc [] (columns cols) = map (itoa_nat \<circ> snd) cols"
proof (cases cols)
  case (Cons c cs)
  obtain p v where c: "c = (p, v)" by fastforce
  have "fields_acc [] (columns (c # cs)) = fields_acc [] (replicate (Suc p) CHR '' '' @ itoa_nat v @ columns cs)"
    by (simp add: columns_def c)
  also have "\<dots> = fields_acc (rev (itoa_nat v)) (columns cs)"
    by (simp only: fields_acc_blanks) (simp add: fields_acc_word [OF itoa_nat_no_space])
  finally show ?thesis by (simp add: fields_acc_columns Cons c)
qed simp

lemma last_columns: "cols \<noteq> [] \<Longrightarrow> columns cols \<noteq> [] \<and> \<not> is_space (last (columns cols))"
proof (induction cols)
  case (Cons c cs)
  obtain p v where c: "c = (p, v)" by fastforce
  have l: "\<not> is_space (last (itoa_nat v))" using itoa_nat_no_space [of v] by simp
  show ?case
  proof (cases "cs = []")
    case True
    with l show ?thesis by (simp add: columns_def c)
  next
    case False
    with Cons show ?thesis by (simp add: columns_def c)
  qed
qed simp

lemma TrimSpace_blanks: "TrimSpace (replicate n CHR '' '' @ s) = TrimSpace s"
proof -
  have "trim_left (replicate n CHR '' '' @ s) = trim_left s"
    unfolding trim_left_def by (induction n) (simp_all add: is_space_def)
  then show ?thesis by (simp add: TrimSpace_def)
qed

lemma Fields_columns: "cols \<noteq> [] \<Longrightarrow> Fields (TrimSpace (columns cols)) = map (itoa_nat \<circ> snd) cols"
proof -
  assume ne: "cols \<noteq> []"
  then obtain p v cs where c: "cols = (p, v) # cs" by (cases cols) auto
  let ?s = "itoa_nat v @ columns cs"
  have s: "columns cols = replicate (Suc p) CHR '' '' @ ?s" by (simp add: columns_def c)
  have "\<not> is_space (hd (itoa_nat v))" using itoa_nat_no_space [of v] by simp
  moreover have "\<not> is_space (last ?s)" using last_columns [OF ne] unfolding s by simp
  ultimately have "TrimSpace ?s = ?s" by (intro TrimSpace_fix) simp_all
  then have "Fields (TrimSpace (columns cols)) = fields_acc [] ?s"
    unfolding s TrimSpace_blanks Fields_def by simp
  also have "\<dots> = fields_acc [] (columns cols)" unfolding s by (simp only: fields_acc_blanks)
  finally show ?thesis by (simp add: fields_columns ne)
qed

lemma stats_of_lines_skip:
  "\<forall>l \<in> set pre. \<not> HasPrefix (TrimSpace l) (name @ '':'') \<Longrightarrow> stats_of_lines name (pre @ ls) = stats_of_lines name ls"
proof (induction pre)
  case (Cons l pre)
  have "\<not> HasPrefix (TrimSpace l) (name @ '': '')" using Cons.prems by (auto simp: HasPrefix_iff)
  with Cons show ?case by simp
qed simp

text \<open>C37: The counters read for an interface are the receive and transmit octets (columns 0 and 8) of
  its line in \<open>/proc/net/dev\<close>, wherever that line stands, for a name without blanks and
  colons.\<close>

theorem readInterfaceStats_reads:
  assumes "name \<noteq> []" and "\<forall>c \<in> set name. \<not> is_space c \<and> c \<noteq> CHR '':''"
    and "10 \<le> length cols" and "snd (cols ! 0) < 2 ^ 63" and "snd (cols ! 8) < 2 ^ 63"
    and "\<forall>l \<in> set pre. \<not> HasPrefix (TrimSpace l) (name @ '':'')"
    and "\<forall>l \<in> set (pre @ post). CHR 0x0A \<notin> set l"
  shows "readInterfaceStats (Some (intersperse_concat [CHR 0x0A] (pre @ dev_line pad name cols # post))) name
       = (int (snd (cols ! 0)), int (snd (cols ! 8)))"
proof -
  have ne: "cols \<noteq> []" using assms(3) by auto
  note lc = last_columns [OF ne]
  have blank: "CHR 0x0A \<notin> set (columns cols)"
    using itoa_nat_no_space by (auto simp: columns_def is_space_def)
  have "CHR 0x0A \<notin> set name" using assms(2) by (auto simp: is_space_def)
  with blank assms(7) have "Split CHR 0x0A (intersperse_concat [CHR 0x0A] (pre @ dev_line pad name cols # post))
      = pre @ dev_line pad name cols # post"
    by (intro Split_intersperse) (auto simp: dev_line_def)
  moreover have trim: "TrimSpace (dev_line pad name cols) = name @ '':'' @ columns cols"
    unfolding dev_line_def TrimSpace_blanks using assms(1,2) lc by (intro TrimSpace_fix) simp_all
  have "CHR '':'' \<notin> set name" using assms(2) by auto
  then have "takeWhile (\<lambda>x. x \<noteq> CHR '':'') (name @ '':'' @ columns cols) = name"
    and "tl (dropWhile (\<lambda>x. x \<noteq> CHR '':'') (name @ '':'' @ columns cols)) = columns cols"
    by (subst takeWhile_append2 dropWhile_append2; auto)+
  then have "SplitN2 CHR '':'' (name @ '':'' @ columns cols) = [name, columns cols]"
    by (simp add: SplitN2_def)
  then have "stats_of_lines name (dev_line pad name cols # post) = (int (snd (cols ! 0)), int (snd (cols ! 8)))"
    using assms(3-5) ne by (simp add: trim Let_def Fields_columns sscanf_d_itoa_nat HasPrefix_iff)
  ultimately show ?thesis
    unfolding readInterfaceStats_def using stats_of_lines_skip [OF assms(6)] by simp
qed

theorem readInterfaceStats_reads_witness:
  "readInterfaceStats (Some (intersperse_concat [CHR 0x0A]
      ([''Inter-|   Receive'', ''    lo: 5 1 0 0 0 0 0 0 5 1''] @ dev_line 2 ''tun0''
        [(3, 1234), (0, 9), (0, 0), (0, 0), (0, 0), (0, 0), (0, 0), (0, 0), (1, 77), (0, 3)] # [[]]))) ''tun0'' = (1234, 77)"
  by (subst readInterfaceStats_reads) (simp_all add: is_space_def TrimSpace_def trim_left_def HasPrefix_def)

subsection \<open>Log level and options\<close>

text \<open>For a handler that enables every level above one it enables, as the handlers of \<open>log/slog\<close>
  do, the level passed to XRay is never a warning: a logger at warn level makes XRay log errors
  only, because error is asked first.\<close>

theorem xRayLogLevel_skips_warning:
  assumes "\<And>l l'. enabled l \<Longrightarrow> l \<le> l' \<Longrightarrow> enabled l'"
  shows "xRayLogLevel enabled \<noteq> Severity_Warning
     \<and> (enabled LevelWarn \<and> \<not> enabled LevelInfo \<longrightarrow> xRayLogLevel enabled = Severity_Error)"
  using assms [of LevelWarn LevelError] assms [of LevelDebug LevelInfo] by (auto simp: xRayLogLevel_def)

theorem xRayLogLevel_skips_warning_witness:
  "xRayLogLevel (\<lambda>l. LevelWarn \<le> l) = Severity_Error"
  using xRayLogLevel_skips_warning [of "\<lambda>l. LevelWarn \<le> l"] by simp

text \<open>A client created with options has every option that was given, the default where a pointer
  is nil, the port not positive or the URL empty; but \<open>TLSAllowInsecure\<close> is never taken over.\<close>

theorem NewClientWithOpts_options:
  "case NewClientWithOpts e (Some gw) True True listened cfg of
     Inl err \<Rightarrow> False
   | Inr c \<Rightarrow>
       cc_GatewayIP (cl_cfg c) = Some (case cc_GatewayIP cfg of Some g \<Rightarrow> g | None \<Rightarrow> gw)
       \<and> cc_InboundProxy (cl_cfg c) = Some (case cc_InboundProxy cfg of Some p \<Rightarrow> p | None \<Rightarrow> defaultInboundProxy listened)
       \<and> cc_TUNAddress (cl_cfg c) = Some (case cc_TUNAddress cfg of Some a \<Rightarrow> a | None \<Rightarrow> defaultTUNAddress)
       \<and> cc_RoutesToTUN (cl_cfg c) = Some (case cc_RoutesToTUN cfg of Some r \<Rightarrow> r | None \<Rightarrow> DefaultRoutesToTUN)
       \<and> cc_EnableIPv6 (cl_cfg c) = cc_EnableIPv6 cfg
       \<and> cc_EnableDNSProtection (cl_cfg c) = cc_EnableDNSProtection cfg
       \<and> cc_EnableKillSwitch (cl_cfg c) = cc_EnableKillSwitch cfg
       \<and> cc_MetricsPort (cl_cfg c) = max 0 (cc_MetricsPort cfg)
       \<and> cc_E2ECheckURL (cl_cfg c) = cc_E2ECheckURL cfg
       \<and> cc_TLSAllowInsecure (cl_cfg c) = False
       \<and> cl_metricsServer c = (cc_MetricsPort cfg > 0)
       \<and> \<not> cl_isConnected c \<and> \<not> cl_killSwitchActive c"
proof -
  show ?thesis
    by (auto simp: NewClientWithOpts_def NewClient_def Let_def Config_apply_def or_else_def startMetricsUpdate_def
        split: option.split)
qed

end
