(* ===== verification/ClientLifecycle.thy ===== *)
theory ClientLifecycle
  imports Tunnel Traffic
begin

text \<open>
  \<open>Connect\<close> and \<open>Disconnect\<close> of \<open>pkg/client/client.go\<close> with the creation of the XRay instance and
  the SOCKS5 server.  Both run under the client's mutex and are modelled as sequential
  computations; the pipe and the monitors they start are host actions.  A nil \<open>InboundProxy\<close> or
  \<open>TUNAddress\<close>, which \<open>NewClient\<close> and \<open>apply\<close> exclude, is a panic at the start of \<open>Connect\<close>.
\<close>

section \<open>Creating the XRay instance\<close>

datatype xray_error = ProtocolCreateError | ProtocolParseError | MakeInstanceError | NotResolvable

text \<open>The protocol name is only logged.  The text of the link is trimmed before use.\<close>

definition createXrayProxy :: "env \<Rightarrow> string \<Rightarrow> (Client, xray_error option) state" where
  "createXrayProxy e link0 = (let link = TrimSpace link0 in do {
     created \<leftarrow> act e (XrayCreateProtocol link);
     if \<not> created then return (Some ProtocolCreateError)
     else do {
       parsed \<leftarrow> act e XrayParse;
       if \<not> parsed then return (Some ProtocolParseError)
       else do {
         made \<leftarrow> act e XrayMakeInstance;
         if \<not> made then return (Some MakeInstanceError)
         else do {
           answer \<leftarrow> gets (\<lambda>c. resolve e (hist c) (fst (general_config e link)));
           case answer of
             None \<Rightarrow> return (Some NotResolvable)
           | Some ip \<Rightarrow> do {
               modify (\<lambda>c. c\<lparr>cl_xSrvIP := Some ip, cl_xSrvPort := snd (general_config e link)\<rparr>);
               return None
             }
         }
       }
     }
   })"

section \<open>The SOCKS5 server\<close>

datatype socks_start_error = BadSocksTimeout | SocksListenError

definition startSOCKS5 :: "env \<Rightarrow> SOCKS5Config \<Rightarrow> (Client, socks_start_error option) state" where
  "startSOCKS5 e config =
     (if \<not> sk_Enabled config then return None
      else
        (case SOCKS5Config_GetTimeout config of
           None \<Rightarrow> return (Some BadSocksTimeout)
         | Some timeout \<Rightarrow> do {
             modify (\<lambda>c. c\<lparr>cl_socks5Server := Some (NewServer \<lparr>s5_ListenAddr = sk_ListenAddr config,
               s5_Username = sk_Username config, s5_Password = sk_Password config, s5_Timeout = timeout\<rparr>)\<rparr>);
             started \<leftarrow> act e (Socks5Start (sk_ListenAddr config));
             return (if \<not> started then Some SocksListenError else None)
           }))"

section \<open>Disconnect\<close>

datatype 'a outcome = Returned 'a | Panics

datatype disconnect_error = CloseXray | CloseTunnel | TunnelError | DisconnectTimeout

text \<open>The tunnel goroutine is awaited for 30 seconds; the text of the answer is its error.\<close>

definition await_tunnel :: "env \<Rightarrow> (Client, disconnect_error list) state" where
  "await_tunnel e = do {
     (finished, tunErr) \<leftarrow> act_out e AwaitTunnel;
     return (if \<not> finished then [DisconnectTimeout] else if tunErr \<noteq> [] then [TunnelError] else [])
   }"

definition close_if :: "env \<Rightarrow> bool \<Rightarrow> action \<Rightarrow> disconnect_error \<Rightarrow> (Client, disconnect_error list) state" where
  "close_if e held a err =
     (if held then do { closed \<leftarrow> act e a; return (if \<not> closed then [err] else []) } else return [])"

definition stop_socks5 :: "env \<Rightarrow> (Client, unit) state" where
  "stop_socks5 e = do {
     server \<leftarrow> gets cl_socks5Server;
     if server \<noteq> None then do { act_ignore e Socks5Stop; modify (\<lambda>c. c\<lparr>cl_socks5Server := None\<rparr>) } else return ()
   }"

definition kill_stale :: "env \<Rightarrow> (Client, unit) state" where
  "kill_stale e = do {
     ip \<leftarrow> gets cl_xSrvIP;
     port \<leftarrow> gets cl_xSrvPort;
     case ip of
       None \<Rightarrow> return ()
     | Some a \<Rightarrow> do { KillConnectionsToServerWithTimeout e (ia_IP a) port; return () }
   }"

text \<open>The bookkeeping after a clean disconnect.\<close>

definition record_disconnect :: "Client \<Rightarrow> Client" where
  "record_disconnect c =
     c\<lparr>cl_gauges := (cl_gauges c)\<lparr>g_connected := 0, g_disconnectionsTotal := g_disconnectionsTotal (cl_gauges c) + 1,
          g_connectionDuration := 0, g_tunIPv4 := [], g_tunIPv6 := [], g_serverIP := []\<rparr>,
       cl_cumulativeBytesRead := wrap64 (cl_cumulativeBytesRead c + cl_bytesRead c),
       cl_cumulativeBytesWritten := wrap64 (cl_cumulativeBytesWritten c + cl_bytesWritten c)\<rparr>"

definition Disconnect :: "env \<Rightarrow> (Client, disconnect_error list outcome) state" where
  "Disconnect e = do {
     stop_socks5 e;
     activateKillSwitch e;
     connected \<leftarrow> gets cl_isConnected;
     if \<not> connected then return (Returned [])
     else do {
       modify (\<lambda>c. c\<lparr>cl_isConnected := False\<rparr>);
       running \<leftarrow> gets cl_stopTunnel;
       (if running then act_ignore e StopTunnel else return ());
       kill_stale e;
       xInst \<leftarrow> gets cl_xInst;
       errX \<leftarrow> close_if e xInst XrayClose CloseXray;
       tunnel \<leftarrow> gets cl_tunnel;
       errT \<leftarrow> close_if e tunnel TunClose CloseTunnel;
       exception \<leftarrow> gets (xrayToGatewayRoute e);
       case exception of
         None \<Rightarrow> return Panics
       | Some routeOpts \<Rightarrow> do {
           act_ignore e (RouteDelete routeOpts);
           cleanup_tun_routes e;
           errW \<leftarrow> await_tunnel e;
           if errW @ errX @ errT \<noteq> [] then return (Returned (errW @ errX @ errT))
           else do {
             modify record_disconnect;
             stopMetricsUpdate e;
             return (Returned [])
           }
         }
     }
   }"

section \<open>Connect\<close>

datatype connect_error =
    CreateXray xray_error | StartXray | AddException | SetupTUN tunnel_error | SocksNotReady

fun wait_socks :: "env \<Rightarrow> string \<Rightarrow> nat \<Rightarrow> (Client, bool) state" where
  "wait_socks e addr 0 = return False"
| "wait_socks e addr (Suc n) = do {
     ready \<leftarrow> act e (DialSocks addr);
     if ready then return True else wait_socks e addr n
   }"

definition record_connect :: "string \<Rightarrow> IPNet \<Rightarrow> Client \<Rightarrow> Client" where
  "record_connect link tun c =
     (let g = cl_gauges c;
          g1 = g\<lparr>g_connected := 1, g_connectionsTotal := g_connectionsTotal g @ [detectProtocol link],
                 g_tunIPv4 := [IP_String (net_ip tun)]\<rparr>;
          g2 = (if cc_EnableIPv6 (cl_cfg c) then g1\<lparr>g_tunIPv6 := [IP_String (net_ip defaultTUNAddressIPv6)]\<rparr> else g1);
          g3 = (case cl_xSrvIP c of None \<Rightarrow> g2 | Some ip \<Rightarrow> g2\<lparr>g_serverIP := [IPAddr_String ip]\<rparr>)
      in c\<lparr>cl_isConnected := True, cl_gauges := g3\<rparr>)"

text \<open>What follows once the SOCKS proxy of the instance answers.\<close>

definition connect_up :: "env \<Rightarrow> string \<Rightarrow> string \<Rightarrow> IPNet \<Rightarrow> (Client, unit) state" where
  "connect_up e link socksAddr tun = do {
     modify (\<lambda>c. c\<lparr>cl_stopTunnel := True\<rparr>);
     act_ignore e (PipeCopy socksAddr);
     act_ignore e GoMonitorTraffic;
     setupDNSProtection e;
     modify (record_connect link tun);
     startMetricsUpdate e;
     deactivateKillSwitch e;
     app \<leftarrow> gets cl_appConfig;
     case app of
       None \<Rightarrow> return ()
     | Some a \<Rightarrow> do { startSOCKS5 e (ac_SOCKS5 a); return () }
   }"

definition connect_routes :: "env \<Rightarrow> string \<Rightarrow> string \<Rightarrow> IPNet \<Rightarrow> (Client, connect_error option outcome) state" where
  "connect_routes e link socksAddr tun = do {
     exception \<leftarrow> gets (xrayToGatewayRoute e);
     case exception of
       None \<Rightarrow> return Panics
     | Some routeOpts \<Rightarrow> do {
         act_ignore e (RouteDelete routeOpts);
         added \<leftarrow> act e (RouteAdd routeOpts);
         if \<not> added then do { act_ignore e XrayClose; return (Returned (Some AddException)) }
         else do {
           tunErr \<leftarrow> setupTunnel e;
           modify (\<lambda>c. c\<lparr>cl_tunnel := True\<rparr>);
           case tunErr of
             Some err \<Rightarrow> do {
               act_ignore e (RouteDelete routeOpts);
               act_ignore e XrayClose;
               return (Returned (Some (SetupTUN err)))
             }
           | None \<Rightarrow> do {
               proxyReady \<leftarrow> wait_socks e socksAddr 20;
               if \<not> proxyReady then do {
                 act_ignore e TunClose;
                 act_ignore e (RouteDelete routeOpts);
                 act_ignore e XrayClose;
                 return (Returned (Some SocksNotReady))
               } else do {
                 connect_up e link socksAddr tun;
                 return (Returned None)
               }
             }
         }
       }
   }"

text \<open>After a failed creation the instance is nil; a nil \<open>*tun.Interface\<close> returned with an error
  still makes the interface value \<open>tunnel\<close> non-nil.\<close>

definition connect_new :: "env \<Rightarrow> string \<Rightarrow> string \<Rightarrow> IPNet \<Rightarrow> (Client, connect_error option outcome) state" where
  "connect_new e link socksAddr tun = do {
     updateConfigMetrics;
     made \<leftarrow> createXrayProxy e link;
     modify (\<lambda>c. c\<lparr>cl_xInst := (made = None)\<rparr>);
     case made of
       Some err \<Rightarrow> return (Returned (Some (CreateXray err)))
     | None \<Rightarrow> do {
         started \<leftarrow> act e XrayStart;
         if \<not> started then return (Returned (Some StartXray))
         else connect_routes e link socksAddr tun
       }
   }"

definition Connect :: "env \<Rightarrow> string \<Rightarrow> (Client, connect_error option outcome) state" where
  "Connect e link = do {
     cfg \<leftarrow> gets cl_cfg;
     case (cc_InboundProxy cfg, cc_TUNAddress cfg) of
       (Some proxy, Some tun) \<Rightarrow> do {
         connected \<leftarrow> gets cl_isConnected;
         result \<leftarrow> (if connected then Disconnect e else return (Returned []));
         case result of
           Panics \<Rightarrow> return Panics
         | Returned _ \<Rightarrow> connect_new e link (Proxy_String proxy) tun
       }
     | _ \<Rightarrow> return Panics
   }"

end
