(* ===== verification/ClientInvariant.thy ===== *)
theory ClientInvariant
  imports ClientLifecycle
begin

text \<open>
  What holds of a client through its life: the invariant of the connected state, the absence of
  panics, and the alternation of connection and kill switch.  The life is a step relation over
  \<open>Connect\<close>, \<open>Disconnect\<close> and the monitor's ticks, started by \<open>NewClientWithOpts\<close>.
\<close>

section \<open>Frames\<close>

text \<open>The part of the client most methods leave alone.\<close>

definition core where
  "core c = (cl_cfg c, cl_isConnected c, cl_killSwitchActive c, cl_xInst c, cl_tunnel c, cl_stopTunnel c,
             cl_xSrvIP c, cl_cumulativeBytesRead c, cl_bytesRead c)"

lemma core_simps [simp]:
  "core (c\<lparr>hist := h\<rparr>) = core c" "core (c\<lparr>cl_tunName := n\<rparr>) = core c" "core (c\<lparr>cl_socks5Server := s\<rparr>) = core c"
  "core (c\<lparr>cl_metricsServer := b\<rparr>) = core c" "core (c\<lparr>cl_gauges := g\<rparr>) = core c"
  by (simp_all add: core_def)

lemma core_eq:
  "core c' = core c \<longleftrightarrow> cl_cfg c' = cl_cfg c \<and> cl_isConnected c' = cl_isConnected c \<and> cl_killSwitchActive c' = cl_killSwitchActive c
     \<and> cl_xInst c' = cl_xInst c \<and> cl_tunnel c' = cl_tunnel c \<and> cl_stopTunnel c' = cl_stopTunnel c
     \<and> cl_xSrvIP c' = cl_xSrvIP c \<and> cl_cumulativeBytesRead c' = cl_cumulativeBytesRead c \<and> cl_bytesRead c' = cl_bytesRead c"
  by (simp add: core_def)

lemma core_ipv6_route_cmds [frame]: "preserves core (ipv6_route_cmds e verb n rs)"
  by (induction rs) (auto intro!: frame)

lemma core_add_each_route [frame]: "preserves core (add_each_route e n rs)"
  by (induction rs) (auto intro!: frame)

lemma core_wait_socks [frame]: "preserves core (wait_socks e a n)"
  by (induction n) (auto intro!: frame)

lemma core_setupTunnel [frame]: "preserves core (setupTunnel e)"
  unfolding setupTunnel_def setupIPv6OnInterface_def addIPv6RoutesSystem_def by (intro frame) simp_all

lemma core_setupDNS [frame]: "preserves core (setupDNSProtection e)"
  unfolding setupDNSProtection_def setupDNSTrafficForcing_def addDNSRoutesThroughTUN_def by (intro frame)

lemma core_cleanup [frame]: "preserves core (cleanup_tun_routes e)"
  unfolding cleanup_tun_routes_def cleanupDNSProtection_def cleanupDNSTrafficForcing_def removeIPv6RoutesSystem_def
    removeIPv6AddressSystem_def
  by (intro frame) simp_all

lemma core_metrics [frame]:
  "preserves core (startMetricsUpdate e)" "preserves core (stopMetricsUpdate e)" "preserves core updateConfigMetrics"
proof -
  show "preserves core (startMetricsUpdate e)" by (rule preserves_startMetricsUpdate) simp_all
  show "preserves core (stopMetricsUpdate e)" by (rule preserves_stopMetricsUpdate) simp_all
  show "preserves core updateConfigMetrics" by (simp add: updateConfigMetrics_def Let_def preserves_modify)
qed

lemma core_startSOCKS5 [frame]: "preserves core (startSOCKS5 e cfg)"
  unfolding startSOCKS5_def by (intro frame) simp_all

lemma core_small [frame]:
  "preserves core (stop_socks5 e)" "preserves core (await_tunnel e)" "preserves core (close_if e b a err)"
  "preserves core (kill_stale e)"
  unfolding stop_socks5_def await_tunnel_def close_if_def kill_stale_def KillConnectionsToServerWithTimeout_def
  by (intro frame preserves_kill; simp)+

lemmas core_methods = core_wait_socks core_setupTunnel core_setupDNS core_cleanup core_metrics core_startSOCKS5 core_small

section \<open>Kill switch flag\<close>

lemma core_setup: "preserves core (setupKillSwitchRules e v)" "preserves core (cleanupKillSwitchRules e v)"
  by (rule preserves_setup preserves_cleanup; simp)+

lemma wp_activate:
  assumes "\<And>c'. core c' = core (c\<lparr>cl_killSwitchActive := cc_EnableKillSwitch (cl_cfg c) \<or> cl_killSwitchActive c\<rparr>) \<Longrightarrow> Q () c'"
  shows "wp (activateKillSwitch e) Q c"
  unfolding activateKillSwitch_def
  using assms
  by (auto intro!: wp_frame [OF core_setup(1)] simp: core_eq)

lemma wp_deactivate:
  assumes "\<And>c'. core c' = core (c\<lparr>cl_killSwitchActive := cl_killSwitchActive c \<and> \<not> cc_EnableKillSwitch (cl_cfg c)\<rparr>) \<Longrightarrow> Q () c'"
  shows "wp (deactivateKillSwitch e) Q c"
  unfolding deactivateKillSwitch_def
  using assms
  by (auto intro!: wp_frame [OF core_setup(2)] simp: core_eq)

lemmas wp_core = core_methods [THEN wp_frame]

text \<open>The route depends on the options and the server address only.\<close>

definition route_of :: "env \<Rightarrow> client_Config \<Rightarrow> IPAddr option \<Rightarrow> route_Opts option" where
  "route_of e cfg ip = xrayToGatewayRoute e (undefined\<lparr>cl_cfg := cfg, cl_xSrvIP := ip\<rparr>)"

lemma route_fields: "xrayToGatewayRoute e c = route_of e (cl_cfg c) (cl_xSrvIP c)"
  by (simp add: route_of_def xrayToGatewayRoute_def xray_route_text_def split: option.split)

section \<open>Disconnect\<close>

text \<open>Every path of \<open>Disconnect\<close>: it ends disconnected with the kill switch armed if enabled; it
  panics only when the route of a connected client does not parse.\<close>

definition disconnect_post :: "env \<Rightarrow> Client \<Rightarrow> disconnect_error list outcome \<Rightarrow> Client \<Rightarrow> bool" where
  "disconnect_post e c r c' \<longleftrightarrow>
     core c' = core (c\<lparr>cl_isConnected := False,
       cl_killSwitchActive := cc_EnableKillSwitch (cl_cfg c) \<or> cl_killSwitchActive c,
       cl_cumulativeBytesRead := (if cl_isConnected c \<and> r = Returned [] then wrap64 (cl_cumulativeBytesRead c + cl_bytesRead c)
                                  else cl_cumulativeBytesRead c)\<rparr>)
     \<and> (r = Panics \<longleftrightarrow> cl_isConnected c \<and> xrayToGatewayRoute e c = None)"

lemma wp_ifI: "(b \<Longrightarrow> wp m Q s) \<Longrightarrow> (\<not> b \<Longrightarrow> wp n Q s) \<Longrightarrow> wp (if b then m else n) Q s"
  by simp

lemma wp_optionI:
  "(z = None \<Longrightarrow> wp m Q s) \<Longrightarrow> (\<And>x. z = Some x \<Longrightarrow> wp (f x) Q s) \<Longrightarrow> wp (case z of None \<Rightarrow> m | Some x \<Rightarrow> f x) Q s"
  by (cases z) simp_all

lemmas wp_intros = wp_simps [THEN iffD2] wp_act [THEN iffD2] wp_ifI wp_optionI wp_core

lemma Disconnect_wp: "wp (Disconnect e) (disconnect_post e c) c"
  unfolding Disconnect_def
  by (intro wp_intros wp_activate) (auto simp: disconnect_post_def core_eq route_fields record_disconnect_def)

section \<open>Connect\<close>

definition connect_post :: "env \<Rightarrow> Client \<Rightarrow> connect_error option outcome \<Rightarrow> Client \<Rightarrow> bool" where
  "connect_post e c r c' \<longleftrightarrow>
     cl_cfg c' = cl_cfg c \<and> cl_bytesRead c' = cl_bytesRead c \<and> cl_cumulativeBytesRead c' = cl_cumulativeBytesRead c
     \<and> (if r = Returned None
        then cl_isConnected c' \<and> cl_xInst c' \<and> cl_tunnel c' \<and> cl_stopTunnel c' \<and> xrayToGatewayRoute e c' \<noteq> None
          \<and> cl_killSwitchActive c' = (cl_killSwitchActive c \<and> \<not> cc_EnableKillSwitch (cl_cfg c))
        else cl_isConnected c' = cl_isConnected c \<and> cl_killSwitchActive c' = cl_killSwitchActive c)
     \<and> (r = Panics \<longrightarrow> xrayToGatewayRoute e c' = None \<and> cl_xSrvIP c' \<noteq> None)"

lemma createXrayProxy_wp:
  "wp (createXrayProxy e link) (\<lambda>r c'. if r = None then \<exists>ip. core c' = core (c\<lparr>cl_xSrvIP := Some ip\<rparr>) else core c' = core c) c"
  unfolding createXrayProxy_def Let_def by (intro wp_intros) (auto simp: core_eq)

lemma connect_up_wp:
  "wp (connect_up e link addr tun) (\<lambda>_ c'. core c' = core (c\<lparr>cl_isConnected := True, cl_stopTunnel := True,
      cl_killSwitchActive := cl_killSwitchActive c \<and> \<not> cc_EnableKillSwitch (cl_cfg c)\<rparr>)) c"
  unfolding connect_up_def by (intro wp_intros wp_deactivate) (simp_all add: core_eq record_connect_def Let_def)

lemma connect_routes_wp:
  assumes "cl_xInst c" and "cl_xSrvIP c \<noteq> None"
  shows "wp (connect_routes e link addr tun) (connect_post e c) c"
  unfolding connect_routes_def
  apply (intro wp_intros wp_mono [OF connect_up_wp])
  using assms apply (simp_all add: connect_post_def core_eq route_fields)
  done

lemma connect_post_cong:
  "connect_post e d r c' \<Longrightarrow> cl_cfg d = cl_cfg c \<Longrightarrow> cl_bytesRead d = cl_bytesRead c
   \<Longrightarrow> cl_cumulativeBytesRead d = cl_cumulativeBytesRead c \<Longrightarrow> cl_isConnected d = cl_isConnected c
   \<Longrightarrow> cl_killSwitchActive d = cl_killSwitchActive c \<Longrightarrow> connect_post e c r c'"
  by (simp add: connect_post_def)

lemma connect_new_wp: "wp (connect_new e link addr tun) (connect_post e c) c"
  unfolding connect_new_def
  by (intro wp_intros wp_mono [OF createXrayProxy_wp]; (rule wp_mono [OF connect_routes_wp connect_post_cong])?)
    (auto simp: connect_post_def core_eq split: if_splits)

definition options_set :: "client_Config \<Rightarrow> bool" where
  "options_set cfg \<longleftrightarrow> cc_GatewayIP cfg \<noteq> None \<and> cc_InboundProxy cfg \<noteq> None \<and> cc_TUNAddress cfg \<noteq> None"

definition client_inv :: "env \<Rightarrow> Client \<Rightarrow> bool" where
  "client_inv e c \<longleftrightarrow> options_set (cl_cfg c) \<and> (cl_killSwitchActive c \<longrightarrow> cc_EnableKillSwitch (cl_cfg c))
     \<and> (cl_isConnected c \<longrightarrow> cl_xInst c \<and> cl_tunnel c \<and> cl_stopTunnel c \<and> xrayToGatewayRoute e c \<noteq> None
          \<and> \<not> cl_killSwitchActive c)"

lemma Disconnect_inv:
  assumes "client_inv e c" and "run_state (Disconnect e) c = (r, c')"
  shows "client_inv e c' \<and> r \<noteq> Panics"
  using wpD [OF Disconnect_wp assms(2)] assms(1)
  by (auto simp: disconnect_post_def client_inv_def core_eq)

lemma Connect_cases:
  assumes "client_inv e c" and "run_state (Connect e link) c = (r, c')"
  obtains d addr tun where "client_inv e d" "\<not> cl_isConnected d" "cl_cfg d = cl_cfg c"
    "d = c \<and> \<not> cl_isConnected c \<or> cl_isConnected c \<and> (\<exists>x. run_state (Disconnect e) c = (Returned x, d))"
    "run_state (connect_new e link addr tun) d = (r, c')"
proof -
  obtain proxy tun where px: "cc_InboundProxy (cl_cfg c) = Some proxy" "cc_TUNAddress (cl_cfg c) = Some tun"
    using assms(1) by (auto simp: client_inv_def options_set_def)
  show thesis
  proof (cases "cl_isConnected c")
    case False
    with assms px show thesis by (intro that [of c "Proxy_String proxy" tun]) (simp_all add: Connect_def)
  next
    case True
    obtain x d where d: "run_state (Disconnect e) c = (x, d)" by fastforce
    note inv = Disconnect_inv [OF assms(1) d] and post = wpD [OF Disconnect_wp d]
    then obtain errs where "x = Returned errs" by (cases x) auto
    with True d inv post assms(2) px show thesis
      by (intro that [of d "Proxy_String proxy" tun]) (simp_all add: Connect_def disconnect_post_def core_eq)
  qed
qed

lemma Connect_inv:
  assumes "client_inv e c" and "run_state (Connect e link) c = (r, c')"
  shows "client_inv e c' \<and> (r = Returned None \<longrightarrow> cl_isConnected c')
     \<and> (r \<noteq> Returned None \<longrightarrow> \<not> cl_isConnected c')
     \<and> (r = Panics \<longrightarrow> xrayToGatewayRoute e c' = None \<and> cl_xSrvIP c' \<noteq> None)"
proof (rule Connect_cases [OF assms])
  fix d addr tun
  assume d: "client_inv e d" "\<not> cl_isConnected d" and run: "run_state (connect_new e link addr tun) d = (r, c')"
  show ?thesis
    using wpD [OF connect_new_wp run] d by (auto simp: connect_post_def client_inv_def split: if_splits)
qed

section \<open>The life of a client\<close>

inductive client_step :: "env \<Rightarrow> Client \<Rightarrow> Client \<Rightarrow> bool" for e where
  connect: "run_state (Connect e link) c = (Returned err, c') \<Longrightarrow> client_step e c c'"
| disconnect: "run_state (Disconnect e) c = (Returned errs, c') \<Longrightarrow> client_step e c c'"
| tick: "client_step e c (monitor_tick proc_net_dev c)"
| configure: "client_step e c (SetAppConfig app c)"

inductive reachable :: "env \<Rightarrow> Client \<Rightarrow> bool" for e where
  new: "NewClientWithOpts e gw pipe_ok route_ok listened cfg = Inr c \<Longrightarrow> reachable e c"
| step: "reachable e c \<Longrightarrow> client_step e c c' \<Longrightarrow> reachable e c'"

inductive_cases client_stepE: "client_step e c c'"

lemma new_core:
  assumes "NewClientWithOpts e gw p r l cfg = Inr c"
  obtains c0 where "NewClient gw p r l = Inr c0" "core c = core (c0\<lparr>cl_cfg := Config_apply (cl_cfg c0) cfg\<rparr>)"
proof -
  obtain c0 where c0: "NewClient gw p r l = Inr c0"
    using assms by (auto simp: NewClientWithOpts_def split: sum.splits)
  let ?c = "c0\<lparr>cl_cfg := Config_apply (cl_cfg c0) cfg\<rparr>"
  have "core (snd (run_state (startMetricsUpdate e) ?c)) = core ?c"
    using core_metrics(1) [of e] unfolding preserves_def by blast
  with assms c0 have "core c = core ?c" by (auto simp: NewClientWithOpts_def Let_def split: if_splits)
  with c0 show thesis by (rule that)
qed

lemma new_inv:
  assumes "NewClientWithOpts e gw p r l cfg = Inr c"
  shows "client_inv e c"
proof -
  obtain c0 where c0: "NewClient gw p r l = Inr c0" "core c = core (c0\<lparr>cl_cfg := Config_apply (cl_cfg c0) cfg\<rparr>)"
    by (rule new_core [OF assms])
  from c0(1) have "options_set (cl_cfg c0)" "\<not> cl_isConnected c0" "\<not> cl_killSwitchActive c0"
    by (auto simp: NewClient_def options_set_def split: option.splits if_splits)
  with c0(2) show ?thesis by (simp add: client_inv_def core_eq) (simp add: Config_apply_def or_else_def options_set_def)
qed

lemma monitor_tick_fields [simp]:
  "cl_cfg (monitor_tick t c) = cl_cfg c" "cl_isConnected (monitor_tick t c) = cl_isConnected c"
  "cl_killSwitchActive (monitor_tick t c) = cl_killSwitchActive c" "cl_xInst (monitor_tick t c) = cl_xInst c"
  "cl_tunnel (monitor_tick t c) = cl_tunnel c" "cl_stopTunnel (monitor_tick t c) = cl_stopTunnel c"
  "cl_xSrvIP (monitor_tick t c) = cl_xSrvIP c"
  by (simp_all add: monitor_tick_def split: prod.split)

lemma step_inv:
  assumes "client_inv e c" and "client_step e c c'"
  shows "client_inv e c'"
  using assms(2)
proof (cases rule: client_step.cases)
  case connect
  then show ?thesis using Connect_inv [OF assms(1)] by blast
next
  case disconnect
  then show ?thesis using Disconnect_inv [OF assms(1)] by blast
next
  case tick
  then show ?thesis using assms(1) by (simp add: client_inv_def route_fields)
next
  case configure
  then show ?thesis using assms(1) by (simp add: client_inv_def route_fields SetAppConfig_def)
qed

lemma reachable_inv: "reachable e c \<Longrightarrow> client_inv e c"
  by (induction rule: reachable.induct) (auto intro: new_inv step_inv)

section \<open>An example life\<close>

text \<open>In the environment where everything works a connection comes up and goes down cleanly.\<close>

lemma wp_result:
  "(\<And>s. fst (run_state m s) = v) \<Longrightarrow> preserves core m \<Longrightarrow> (\<And>s'. core s' = core s \<Longrightarrow> Q v s') \<Longrightarrow> wp m Q s"
  by (auto simp: wp_def preserves_def split: prod.split) (metis fst_conv snd_conv)

lemma yes_setupTunnel: "fst (run_state (setupTunnel yes_env) s) = None"
  by (simp add: setupTunnel_def split: prod.split)

lemma yes_wait: "fst (run_state (wait_socks yes_env a 20) s) = True"
  by (simp add: numeral_eq_Suc)

lemma yes_close: "fst (run_state (close_if yes_env b a err) s) = []"
  by (simp add: close_if_def)

lemma yes_await: "fst (run_state (await_tunnel yes_env) s) = []"
  by (simp add: await_tunnel_def)

lemma yes_Disconnect:
  assumes "cc_GatewayIP (cl_cfg c) \<noteq> None"
  shows "fst (run_state (Disconnect yes_env) c) = Returned []"
proof -
  have "wp (Disconnect yes_env) (\<lambda>r c'. r = Returned []) c"
    unfolding Disconnect_def
    by (intro wp_result [OF yes_close] wp_result [OF yes_await] core_small wp_intros wp_activate)
      (use assms in \<open>auto simp: core_eq xrayToGatewayRoute_def\<close>)
  then show ?thesis by (auto simp: wp_def split: prod.splits)
qed

lemma yes_connect_routes:
  assumes "cc_GatewayIP (cl_cfg c) \<noteq> None"
  shows "wp (connect_routes yes_env link addr tun) (\<lambda>r c'. r = Returned None) c"
  unfolding connect_routes_def
  by (intro wp_result [OF yes_setupTunnel] wp_result [OF yes_wait] core_methods wp_intros wp_mono [OF connect_up_wp])
    (use assms in \<open>auto simp: core_eq xrayToGatewayRoute_def\<close>)

lemma yes_connect_new:
  assumes "cc_GatewayIP (cl_cfg c) \<noteq> None"
  shows "wp (connect_new yes_env link addr tun) (\<lambda>r c'. r = Returned None) c"
  unfolding connect_new_def createXrayProxy_def Let_def
  by (intro wp_simps [THEN iffD2] wp_act [THEN iffD2] wp_core(7) wp_ifI wp_optionI yes_connect_routes)
    (use assms in \<open>auto simp: core_eq\<close>)

lemma yes_Connect:
  assumes "client_inv yes_env c"
  shows "fst (run_state (Connect yes_env link) c) = Returned None"
proof -
  obtain r c' where r: "run_state (Connect yes_env link) c = (r, c')" by fastforce
  show ?thesis
  proof (rule Connect_cases [OF assms r])
    fix d addr tun
    assume "client_inv yes_env d" and run: "run_state (connect_new yes_env link addr tun) d = (r, c')"
    then have "cc_GatewayIP (cl_cfg d) \<noteq> None" by (auto simp: client_inv_def options_set_def)
    from wpD [OF yes_connect_new [OF this] run] show ?thesis by (simp add: r)
  qed
qed

definition example_options :: client_Config where
  "example_options = \<lparr>cc_GatewayIP = None, cc_InboundProxy = None, cc_TUNAddress = None, cc_RoutesToTUN = None,
     cc_TLSAllowInsecure = False, cc_Logger = None, cc_XRayLogType = LogType_None, cc_EnableIPv6 = False, cc_MetricsPort = 0,
     cc_EnableDNSProtection = True, cc_EnableKillSwitch = True, cc_E2ECheckURL = []\<rparr>"

definition fresh_client :: Client where
  "fresh_client = projr (NewClientWithOpts yes_env (Some [192, 168, 1, 1]) True True (Some 10809) example_options)"

definition live_client :: Client where
  "live_client = snd (run_state (Connect yes_env ''vless://u@h:443'') fresh_client)"

lemma fresh_new: "NewClientWithOpts yes_env (Some [192, 168, 1, 1]) True True (Some 10809) example_options = Inr fresh_client"
  by (simp add: fresh_client_def NewClientWithOpts_def NewClient_def Let_def)

lemma fresh_reachable: "reachable yes_env fresh_client"
  by (rule reachable.new [OF fresh_new])

lemma fresh_fields: "\<not> cl_isConnected fresh_client" "cc_EnableKillSwitch (cl_cfg fresh_client)"
  "cl_cumulativeBytesRead fresh_client = 0" "cl_bytesRead fresh_client = 0"
  by (simp_all add: fresh_client_def NewClientWithOpts_def NewClient_def Let_def Config_apply_def example_options_def or_else_def)

lemma live_run: "run_state (Connect yes_env ''vless://u@h:443'') fresh_client = (Returned None, live_client)"
  unfolding live_client_def using yes_Connect [OF reachable_inv [OF fresh_reachable]] by (simp add: prod_eq_iff)

lemma live_reachable: "reachable yes_env live_client"
  by (rule reachable.step [OF fresh_reachable client_step.connect [OF live_run]])

lemma live_fields: "cl_isConnected live_client" "cc_EnableKillSwitch (cl_cfg live_client)"
  "cl_cumulativeBytesRead live_client = 0"
proof -
  note inv = reachable_inv [OF fresh_reachable]
  show "cl_isConnected live_client" using Connect_inv [OF inv live_run] by blast
  show "cc_EnableKillSwitch (cl_cfg live_client)" "cl_cumulativeBytesRead live_client = 0"
  proof (rule_tac [!] Connect_cases [OF inv live_run])
  qed (use wpD [OF connect_new_wp] fresh_fields in \<open>auto simp: connect_post_def\<close>)
qed

section \<open>Properties\<close>



lemma held_step:
  assumes "client_inv e c" and "cc_EnableKillSwitch (cl_cfg c)" and "cl_isConnected c \<or> cl_killSwitchActive c"
    and "client_step e c c'"
  shows "cc_EnableKillSwitch (cl_cfg c') \<and> (cl_isConnected c' \<or> cl_killSwitchActive c')"
  using assms(4)
proof (cases rule: client_step.cases)
  case (connect link err)
  show ?thesis
  proof (rule Connect_cases [OF assms(1) connect])
    fix d addr tun
    assume d: "\<not> cl_isConnected d" "cl_cfg d = cl_cfg c"
      "d = c \<and> \<not> cl_isConnected c \<or> cl_isConnected c \<and> (\<exists>x. run_state (Disconnect e) c = (Returned x, d))"
      and run: "run_state (connect_new e link addr tun) d = (Returned err, c')"
    have "cl_killSwitchActive d"
      using d(3) assms(2,3) wpD [OF Disconnect_wp] by (auto simp: disconnect_post_def core_eq)
    then show ?thesis
      using wpD [OF connect_new_wp run] d assms(2) by (auto simp: connect_post_def split: if_splits)
  qed
next
  case (disconnect errs)
  then show ?thesis using wpD [OF Disconnect_wp disconnect] assms(2) by (simp add: disconnect_post_def core_eq)
qed (use assms in \<open>simp_all add: SetAppConfig_def\<close>)

text \<open>C1: With the kill switch enabled there is no gap: from the first successful connection on, through
  any sequence of failed and successful \<open>Connect\<close>, \<open>Disconnect\<close> and ticks, the client is either
  connected or its kill switch is marked active, and never both.\<close>

theorem kill_switch_without_gap:
  assumes "reachable e c" and "cl_isConnected c" and "cc_EnableKillSwitch (cl_cfg c)" and "(client_step e)\<^sup>*\<^sup>* c c'"
  shows "cl_isConnected c' \<longleftrightarrow> \<not> cl_killSwitchActive c'"
proof -
  from assms(4) have "client_inv e c' \<and> cc_EnableKillSwitch (cl_cfg c') \<and> (cl_isConnected c' \<or> cl_killSwitchActive c')"
  proof (induction rule: rtranclp_induct)
    case base
    then show ?case using reachable_inv [OF assms(1)] assms(2,3) by blast
  next
    case (step d c')
    then show ?case using held_step step_inv by blast
  qed
  then show ?thesis by (auto simp: client_inv_def)
qed

theorem kill_switch_without_gap_witness:
  "\<exists>c'. run_state (Disconnect yes_env) live_client = (Returned [], c') \<and> \<not> cl_isConnected c' \<and> cl_killSwitchActive c'"
proof -
  obtain r c' where c': "run_state (Disconnect yes_env) live_client = (r, c')" by fastforce
  have "cc_GatewayIP (cl_cfg live_client) \<noteq> None"
    using reachable_inv [OF live_reachable] by (auto simp: client_inv_def options_set_def)
  from yes_Disconnect [OF this] have r: "r = Returned []" by (simp add: c')
  have "client_step yes_env live_client c'" by (rule client_step.disconnect) (use c' r in simp)
  then have "(client_step yes_env)\<^sup>*\<^sup>* live_client c'" by (rule r_into_rtranclp)
  from kill_switch_without_gap [OF live_reachable live_fields(1,2) this]
  have "cl_isConnected c' \<longleftrightarrow> \<not> cl_killSwitchActive c'" .
  moreover have "\<not> cl_isConnected c'" using wpD [OF Disconnect_wp c'] by (simp add: disconnect_post_def core_eq)
  ultimately show ?thesis using c' r by blast
qed

text \<open>\<open>Disconnect\<close> arms the enabled kill switch before it looks whether there is a connection, also on
  a client that never had one and in a deliberate shutdown; it reports no error and, without a
  connection, does nothing but iptables commands and stopping the SOCKS5 server.\<close>

theorem Disconnect_arms_kill_switch:
  assumes "\<not> cl_isConnected c" and "run_state (Disconnect e) c = (r, c')"
  shows "r = Returned [] \<and> (cc_EnableKillSwitch (cl_cfg c) \<longrightarrow> cl_killSwitchActive c')
     \<and> (\<exists>t. hist c' = hist c @ t \<and> list_all (\<lambda>a. ipt_only a \<or> a = Socks5Stop) t)"
proof -
  let ?P = "\<lambda>a. ipt_only a \<or> a = Socks5Stop"
  obtain c1 where 1: "run_state (stop_socks5 e) c = ((), c1)" by (cases "run_state (stop_socks5 e) c") auto
  obtain c2 where 2: "run_state (activateKillSwitch e) c1 = ((), c2)" by (cases "run_state (activateKillSwitch e) c1") auto
  have core1: "core c1 = core c" using preservesD [OF core_small(1) 1] .
  have core2: "core c2 = core (c1\<lparr>cl_killSwitchActive := cc_EnableKillSwitch (cl_cfg c1) \<or> cl_killSwitchActive c1\<rparr>)"
    by (rule wpD [OF wp_activate 2])
  have r: "r = Returned []" and c': "c' = c2"
    using assms 1 2 core1 core2 by (auto simp: Disconnect_def core_eq)
  have "emits ?P (stop_socks5 e)" unfolding stop_socks5_def by (intro frame) simp_all
  then obtain t1 where t1: "hist c1 = hist c @ t1" "list_all ?P t1" using 1 emitsE by (metis snd_conv)
  have "emits ?P (activateKillSwitch e)" by (rule emits_mono [OF emits_activate]) simp
  then obtain t2 where t2: "hist c2 = hist c1 @ t2" "list_all ?P t2" using 2 emitsE by (metis snd_conv)
  have "list_all ?P (t1 @ t2)" using t1(2) t2(2) by simp
  moreover have "hist c' = hist c @ (t1 @ t2)" using t1(1) t2(1) c' by simp
  ultimately show ?thesis using r core1 core2 c' by (auto simp: core_eq)
qed

theorem Disconnect_arms_kill_switch_witness:
  "cl_killSwitchActive (snd (run_state (Disconnect yes_env) fresh_client))"
  using Disconnect_arms_kill_switch [OF fresh_fields(1) prod.collapse [symmetric], of yes_env] fresh_fields(2) by simp

text \<open>The byte counter is not reset between connections: without a tick of the monitor in between,
  the octets of one connection are added to the cumulative counter again by the next clean
  \<open>Disconnect\<close>.\<close>

theorem bytes_counted_twice:
  assumes "client_inv e c" and "cl_isConnected c" and "cl_cumulativeBytesRead c = 0" and "in_int64 (2 * cl_bytesRead c)"
    and "run_state (Disconnect e) c = (Returned [], c1)"
    and "run_state (Connect e link) c1 = (Returned None, c2)"
    and "run_state (Disconnect e) c2 = (Returned [], c3)"
  shows "cl_cumulativeBytesRead c1 = cl_bytesRead c \<and> cl_cumulativeBytesRead c3 = 2 * cl_bytesRead c"
proof -
  have in64: "in_int64 (cl_bytesRead c)" using assms(4) by (auto simp: in_int64_def)
  note d1 = wpD [OF Disconnect_wp assms(5)]
  then have c1: "cl_cumulativeBytesRead c1 = cl_bytesRead c" "cl_bytesRead c1 = cl_bytesRead c" "\<not> cl_isConnected c1"
    using assms(2,3) in64 by (simp_all add: disconnect_post_def core_eq)
  have inv: "client_inv e c1" using Disconnect_inv [OF assms(1,5)] by blast
  have "cl_cumulativeBytesRead c2 = cl_bytesRead c \<and> cl_bytesRead c2 = cl_bytesRead c \<and> cl_isConnected c2"
  proof (rule Connect_cases [OF inv assms(6)])
    fix d addr tun
    assume "d = c1 \<and> \<not> cl_isConnected c1 \<or> cl_isConnected c1 \<and> (\<exists>x. run_state (Disconnect e) c1 = (Returned x, d))"
      and "run_state (connect_new e link addr tun) d = (Returned None, c2)"
    then show ?thesis using wpD [OF connect_new_wp] c1 by (auto simp: connect_post_def)
  qed
  then show ?thesis
    using wpD [OF Disconnect_wp assms(7)] c1(1) assms(4) by (simp add: disconnect_post_def core_eq)
qed

theorem bytes_counted_twice_witness:
  "\<exists>c1 c2 c3. run_state (Disconnect yes_env) (live_client\<lparr>cl_bytesRead := 1000\<rparr>) = (Returned [], c1)
     \<and> run_state (Connect yes_env ''ss://x'') c1 = (Returned None, c2) \<and> run_state (Disconnect yes_env) c2 = (Returned [], c3)
     \<and> cl_cumulativeBytesRead c3 = 2000"
proof -
  let ?c = "live_client\<lparr>cl_bytesRead := 1000\<rparr>"
  have inv: "client_inv yes_env ?c"
    using reachable_inv [OF live_reachable] by (simp add: client_inv_def route_fields)
  have run: "\<exists>d. run_state (Disconnect yes_env) c = (Returned [], d) \<and> client_inv yes_env d" if "client_inv yes_env c" for c
    using yes_Disconnect [of c] Disconnect_inv [OF that] that
    by (cases "run_state (Disconnect yes_env) c") (auto simp: client_inv_def options_set_def)
  obtain c1 where c1: "run_state (Disconnect yes_env) ?c = (Returned [], c1)" "client_inv yes_env c1" using run [OF inv] by blast
  obtain c2 where c2: "run_state (Connect yes_env ''ss://x'') c1 = (Returned None, c2)" "client_inv yes_env c2"
    using yes_Connect [OF c1(2)] Connect_inv [OF c1(2)] by (metis prod.collapse)
  obtain c3 where c3: "run_state (Disconnect yes_env) c2 = (Returned [], c3)" using run [OF c2(2)] by blast
  from bytes_counted_twice [OF inv _ _ _ c1(1) c2(1) c3] live_fields c1(1) c2(1) c3
  show ?thesis by (simp add: in_int64_def)
qed

end
