(* ===== verification/ClientResources.thy ===== *)
theory ClientResources
  imports ClientInvariant
begin

text \<open>
  What a failing \<open>Connect\<close> of \<open>pkg/client/client.go\<close> leaves behind: the actions of each of its
  failing paths, in order, with the clean-up the path does.
\<close>

section \<open>Traces\<close>

lemma wp_trace:
  assumes "emits P m" and "\<And>x s' t. hist s' = hist s @ t \<Longrightarrow> list_all P t \<Longrightarrow> Q x s'"
  shows "wp m Q s"
proof (rule wpI)
  fix x s' assume "run_state m s = (x, s')"
  then show "Q x s'" using emitsE [OF assms(1), of s] assms(2) by (metis snd_conv)
qed

lemmas wp_steps = wp_simps [THEN iffD2] wp_act [THEN iffD2] wp_ifI wp_optionI

lemma wp_conjI: "wp m P s \<Longrightarrow> wp m Q s \<Longrightarrow> wp m (\<lambda>x s'. P x s' \<and> Q x s') s"
  by (simp add: wp_def split: prod.splits)

section \<open>Failing paths of Connect\<close>

definition is_make :: "action \<Rightarrow> bool" where
  "is_make a \<longleftrightarrow> (case a of XrayCreateProtocol _ \<Rightarrow> True | XrayParse \<Rightarrow> True | XrayMakeInstance \<Rightarrow> True | _ \<Rightarrow> False)"

lemma is_make_simps [simp]: "is_make (XrayCreateProtocol l)" "is_make XrayParse" "is_make XrayMakeInstance"
  by (simp_all add: is_make_def)

lemma emits_createXrayProxy: "emits is_make (createXrayProxy e link)"
  unfolding createXrayProxy_def Let_def by (intro frame) simp_all

definition is_tunnel_action :: "action \<Rightarrow> bool" where
  "is_tunnel_action a \<longleftrightarrow> (case a of TunUp \<Rightarrow> True | TunNew \<Rightarrow> True | RouteAdd _ \<Rightarrow> True | Exec _ \<Rightarrow> True | _ \<Rightarrow> False)"

lemma is_tunnel_action_simps [simp]:
  "is_tunnel_action TunUp" "is_tunnel_action TunNew" "is_tunnel_action (RouteAdd r)" "is_tunnel_action (Exec l)" "\<not> is_tunnel_action TunClose"
  by (simp_all add: is_tunnel_action_def)

lemma emits_ipv6_route_cmds: "emits is_tunnel_action (ipv6_route_cmds e verb n rs)"
  by (induction rs) (auto intro!: frame)

lemma emits_setupTunnel: "emits is_tunnel_action (setupTunnel e)"
  unfolding setupTunnel_def setupIPv6OnInterface_def addIPv6RoutesSystem_def by (intro frame emits_ipv6_route_cmds) simp_all

lemma setupTunnel_TunNew:
  "wp (setupTunnel e) (\<lambda>r s'. \<exists>t. hist s' = hist s @ TunNew # t \<and> list_all is_tunnel_action t) s"
  unfolding setupTunnel_def setupIPv6OnInterface_def addIPv6RoutesSystem_def
  by (simp, intro conjI impI allI wp_trace [OF emits_ipv6_route_cmds]) auto

lemma wait_socks_trace:
  "wp (wait_socks e a n) (\<lambda>r s'. (\<not> r \<longrightarrow> hist s' = hist s @ replicate n (DialSocks a))) s"
proof (induction n arbitrary: s)
  case (Suc n)
  show ?case by (auto intro!: wp_mono [OF Suc])
qed simp

text \<open>What a failing \<open>Connect\<close> has done, by error: \<open>m\<close> makes the XRay instance, \<open>s\<close> sets the interface
  up, \<open>r\<close> is the exception for the server.\<close>

fun failure_trace :: "connect_error \<Rightarrow> action list \<Rightarrow> bool" where
  "failure_trace (CreateXray err) t \<longleftrightarrow> list_all is_make t"
| "failure_trace StartXray t \<longleftrightarrow> (\<exists>m. t = m @ [XrayStart] \<and> list_all is_make m)"
| "failure_trace AddException t \<longleftrightarrow>
     (\<exists>m r. t = m @ [XrayStart, RouteDelete r, RouteAdd r, XrayClose] \<and> list_all is_make m)"
| "failure_trace (SetupTUN err) t \<longleftrightarrow>
     (\<exists>m r s. t = m @ [XrayStart, RouteDelete r, RouteAdd r, TunNew] @ s @ [RouteDelete r, XrayClose]
        \<and> list_all is_make m \<and> list_all is_tunnel_action s)"
| "failure_trace SocksNotReady t \<longleftrightarrow>
     (\<exists>m r s a. t = m @ [XrayStart, RouteDelete r, RouteAdd r, TunNew] @ s @ replicate 20 (DialSocks a) @ [TunClose, RouteDelete r, XrayClose]
        \<and> list_all is_make m \<and> list_all is_tunnel_action s)"

lemma connect_routes_trace:
  assumes "hist d = h @ m @ [XrayStart]" and "list_all is_make m"
  shows "wp (connect_routes e link addr tun) (\<lambda>r c'. \<forall>err. r = Returned (Some err) \<longrightarrow> (\<exists>t. hist c' = h @ t \<and> failure_trace err t)) d"
  unfolding connect_routes_def
  apply (intro wp_steps wp_mono [OF setupTunnel_TunNew] wp_mono [OF wait_socks_trace] wp_mono [OF connect_up_wp])
      apply (use assms in auto)
   apply blast+
  done

lemma connect_new_trace:
  "wp (connect_new e link addr tun) (\<lambda>r c'. \<forall>err. r = Returned (Some err) \<longrightarrow> (\<exists>t. hist c' = hist c @ t \<and> failure_trace err t)) c"
  unfolding connect_new_def updateConfigMetrics_def
  by (intro wp_steps wp_trace [OF emits_createXrayProxy] connect_routes_trace) (auto simp: Let_def)

text \<open>C10: Every failing path of \<open>Connect\<close> on a disconnected client, action by action: once the XRay
  instance has been started it is closed again and the exception for the server removed, and an
  interface whose proxy never answers is closed.  But when setting up the interface fails, the
  interface just created stays open, with the routes it may already have.\<close>

theorem Connect_failure_trace:
  assumes "client_inv e c" and "\<not> cl_isConnected c" and "run_state (Connect e link) c = (Returned (Some err), c')"
  shows "\<exists>t. hist c' = hist c @ t \<and> failure_trace err t \<and> \<not> cl_isConnected c'
           \<and> cl_killSwitchActive c' = cl_killSwitchActive c"
proof (rule Connect_cases [OF assms(1,3)])
  fix d addr tun
  assume d: "d = c \<and> \<not> cl_isConnected c \<or> cl_isConnected c \<and> (\<exists>x. run_state (Disconnect e) c = (Returned x, d))"
    and run: "run_state (connect_new e link addr tun) d = (Returned (Some err), c')"
  then have "d = c" using assms(2) by blast
  with wpD [OF connect_new_trace run] wpD [OF connect_new_wp run] assms(2) show ?thesis
    by (auto simp: connect_post_def)
qed

definition no_tun_env :: env where
  "no_tun_env = yes_env\<lparr>ok := \<lambda>_ a. a \<noteq> TunUp\<rparr>"

lemma no_tun_setup: "fst (run_state (setupTunnel no_tun_env) s) = Some SetupIPv4"
  by (simp add: setupTunnel_def no_tun_env_def split: prod.split)

lemma no_tun_connect_new:
  assumes "cc_GatewayIP (cl_cfg c) \<noteq> None"
  shows "wp (connect_new no_tun_env link addr tun) (\<lambda>r c'. r = Returned (Some (SetupTUN SetupIPv4))) c"
  unfolding connect_new_def createXrayProxy_def connect_routes_def Let_def
  by (intro wp_result [OF no_tun_setup] wp_simps [THEN iffD2] wp_act [THEN iffD2] core_methods(2) wp_core(7) wp_ifI wp_optionI)
    (use assms in \<open>auto simp: core_eq no_tun_env_def xrayToGatewayRoute_def\<close>)

theorem Connect_failure_trace_witness:
  "\<exists>c' t. run_state (Connect no_tun_env ''ss://x'') fresh_client = (Returned (Some (SetupTUN SetupIPv4)), c')
     \<and> hist c' = hist fresh_client @ t \<and> TunClose \<notin> set t"
proof -
  have inv: "client_inv no_tun_env fresh_client"
    using reachable_inv [OF fresh_reachable] fresh_fields(1) by (simp add: client_inv_def)
  obtain r c' where r: "run_state (Connect no_tun_env ''ss://x'') fresh_client = (r, c')" by fastforce
  have err: "r = Returned (Some (SetupTUN SetupIPv4))"
  proof (rule Connect_cases [OF inv r])
    fix d addr tun
    assume "client_inv no_tun_env d" and run: "run_state (connect_new no_tun_env ''ss://x'' addr tun) d = (r, c')"
    then have "cc_GatewayIP (cl_cfg d) \<noteq> None" by (auto simp: client_inv_def options_set_def)
    from wpD [OF no_tun_connect_new [OF this] run] show ?thesis .
  qed
  have no_close: "TunClose \<notin> set t" if "list_all is_make t \<or> list_all is_tunnel_action t" for t
    using that by (auto simp: list_all_iff is_make_def)
  from Connect_failure_trace [OF inv fresh_fields(1) r [unfolded err]] obtain t where
    t: "hist c' = hist fresh_client @ t" "failure_trace (SetupTUN SetupIPv4) t" by blast
  from t(2) no_close have "TunClose \<notin> set t" by auto
  with t(1) r err show ?thesis by blast
qed

end
