(* ===== verification/Go_Scan.thy ===== *)
theory Go_Scan
  imports Go_Strings Go_Float
begin

text \<open>
  \<open>fmt.Sscanf(s, "%f", &x)\<close> into a \<open>float64\<close>: the scanner's \<open>floatToken\<close>, \<open>strconv.ParseFloat\<close> on it
  and the scanner's own decimal mantissa with a binary exponent (\<open>1.5p4\<close>).  Underflow to subnormal
  numbers is left out, as in \<open>Go_Float\<close>; overflow, infinities and NaN are values here.
\<close>

datatype go_float = Finite real | PosInf | NegInf | NaN

text \<open>Go's comparisons, which are false for a NaN on either side.\<close>

instantiation go_float :: ord
begin

fun less_eq_go_float :: "go_float \<Rightarrow> go_float \<Rightarrow> bool" where
  "NaN \<le> y \<longleftrightarrow> False"
| "x \<le> NaN \<longleftrightarrow> False"
| "NegInf \<le> y \<longleftrightarrow> True"
| "x \<le> PosInf \<longleftrightarrow> True"
| "Finite x \<le> Finite y \<longleftrightarrow> x \<le> y"
| "Finite x \<le> NegInf \<longleftrightarrow> False"
| "PosInf \<le> Finite y \<longleftrightarrow> False"
| "PosInf \<le> NegInf \<longleftrightarrow> False"

definition less_go_float :: "go_float \<Rightarrow> go_float \<Rightarrow> bool" where
  "x < y \<longleftrightarrow> x \<le> y \<and> \<not> y \<le> (x :: go_float)"

instance ..

end

section \<open>The scanner's token\<close>

text \<open>\<open>accept\<close> moves one character of a set from the input to the buffer.\<close>

fun accept :: "string \<Rightarrow> string \<times> string \<Rightarrow> bool \<times> string \<times> string" where
  "accept cs (buf, []) = (False, buf, [])"
| "accept cs (buf, c # s) = (if c \<in> set cs then (True, buf @ [c], s) else (False, buf, c # s))"

fun accept_seq :: "string list \<Rightarrow> string \<times> string \<Rightarrow> bool \<times> string \<times> string" where
  "accept_seq [] st = (True, st)"
| "accept_seq (cs # rest) st = (case accept cs st of (b, st') \<Rightarrow> if b then accept_seq rest st' else (False, st'))"

fun accept_run :: "string \<Rightarrow> string \<times> string \<Rightarrow> string \<times> string" where
  "accept_run cs (buf, s) = (buf @ takeWhile (\<lambda>c. c \<in> set cs) s, dropWhile (\<lambda>c. c \<in> set cs) s)"

definition float_digits :: "string \<Rightarrow> string \<Rightarrow> string \<times> string \<Rightarrow> string" where
  "float_digits digits expo st =
     (let st1 = accept_run digits st;
          (point, st2) = accept ''.'' st1;
          st3 = (if point then accept_run digits st2 else st2);
          (e, st4) = accept expo st3
      in fst (if e then accept_run ''0123456789_'' (snd (accept ''+-'' st4)) else st4))"

definition floatToken :: "string \<Rightarrow> string" where
  "floatToken s =
     (let (nan, st1) = accept_seq [''nN'', ''aA'', ''nN''] ([], s) in
      if nan then fst st1
      else
        (let st2 = snd (accept ''+-'' st1); (inf, st3) = accept_seq [''iI'', ''nN'', ''fF''] st2 in
         if inf then fst st3
         else
           (let (hex, st4) = accept_seq [''0'', ''xX''] st3 in
            if hex then float_digits ''0123456789aAbBcCdDeEfF_'' ''pP'' st4
            else float_digits ''0123456789_'' ''eEpP'' st4)))"

section \<open>strconv.ParseFloat\<close>

definition hex_digit :: "char \<Rightarrow> bool" where
  "hex_digit c \<longleftrightarrow> is_digit c \<or> c \<in> set ''abcdefABCDEF''"

definition hex_val :: "char \<Rightarrow> nat" where
  "hex_val c = (if is_digit c then digit_val c else of_char (to_lower_char c) - 87)"

text \<open>\<open>underscoreOK\<close>, after the sign: an underscore stands between digits or after a base prefix.
  The first argument is what was seen last: a digit or prefix, an underscore, anything else.\<close>

datatype seen = SawDigit | SawUnderscore | SawOther

fun underscores_ok :: "bool \<Rightarrow> seen \<Rightarrow> string \<Rightarrow> bool" where
  "underscores_ok hex saw [] \<longleftrightarrow> saw \<noteq> SawUnderscore"
| "underscores_ok hex saw (c # s) \<longleftrightarrow>
     (if is_digit c \<or> (hex \<and> hex_digit c) then underscores_ok hex SawDigit s
      else if c = CHR ''_'' then saw = SawDigit \<and> underscores_ok hex SawUnderscore s
      else saw \<noteq> SawUnderscore \<and> underscores_ok hex SawOther s)"

text \<open>The mantissa: value, digits after the point, whether a digit or a point was seen, and the rest.\<close>

fun mantissa :: "bool \<Rightarrow> nat \<Rightarrow> nat \<Rightarrow> bool \<Rightarrow> bool \<Rightarrow> string \<Rightarrow> nat \<times> nat \<times> bool \<times> string" where
  "mantissa hex m k dot digits [] = (m, k, digits, [])"
| "mantissa hex m k dot digits (c # s) =
     (if c = CHR ''_'' then mantissa hex m k dot digits s
      else if c = CHR ''.'' then (if dot then (m, k, digits, c # s) else mantissa hex m k True digits s)
      else if is_digit c \<or> (hex \<and> hex_digit c)
      then mantissa hex (m * (if hex then 16 else 10) + hex_val c) (if dot then Suc k else k) dot True s
      else (m, k, digits, c # s))"

text \<open>The exponent's digits; beyond 10000 the accumulator stands still.\<close>

definition exponent_value :: "string \<Rightarrow> int" where
  "exponent_value s =
     foldl (\<lambda>e c. if c = CHR ''_'' then e else if e < 10000 then e * 10 + int (digit_val c) else e) 0 s"

text \<open>The exponent after its letter: sign and digits up to the end of the text.\<close>

definition exponent :: "string \<Rightarrow> int option" where
  "exponent s =
     (let neg = HasPrefix s ''-''; ds = (if neg \<or> HasPrefix s ''+'' then tl s else s) in
      if ds = [] \<or> \<not> is_digit (hd ds) \<or> \<not> list_all (\<lambda>c. is_digit c \<or> c = CHR ''_'') ds then None
      else Some (if neg then - exponent_value ds else exponent_value ds))"

text \<open>The exact value of the text after the sign, if it is well formed.\<close>

definition readFloat :: "string \<Rightarrow> real option" where
  "readFloat s =
     (let hex = (2 < length s \<and> s ! 0 = CHR ''0'' \<and> to_lower_char (s ! 1) = CHR ''x'');
          (m, k, digits, rest) = mantissa hex 0 0 False False (if hex then drop 2 s else s);
          value = (\<lambda>e. if hex then real m * 2 powi (e - 4 * int k) else real m * 10 powi (e - int k))
      in if \<not> digits then None
         else if CHR ''_'' \<in> set s \<and> \<not> underscores_ok hex (if hex then SawDigit else SawOther) (if hex then drop 2 s else s) then None
         else
           (case rest of
              [] \<Rightarrow> (if hex then None else Some (value 0))
            | c # expo \<Rightarrow>
                if to_lower_char c = (if hex then CHR ''p'' else CHR ''e'') then map_option value (exponent expo) else None))"

definition max_float :: real where "max_float = 2 ^ 1024"

definition ParseFloat :: "string \<Rightarrow> go_float option" where
  "ParseFloat s =
     (let neg = HasPrefix s ''-''; t = (if neg \<or> HasPrefix s ''+'' then tl s else s) in
      if ToLower s = ''nan'' then Some NaN
      else if ToLower t = ''inf'' \<or> ToLower t = ''infinity'' then Some (if neg then NegInf else PosInf)
      else
        (case readFloat t of
           None \<Rightarrow> None
         | Some v \<Rightarrow> if max_float \<le> f64 v then None else Some (Finite (if neg then - f64 v else f64 v))))"

text \<open>\<open>strconv.Atoi\<close>.\<close>

definition Atoi :: "string \<Rightarrow> int option" where
  "Atoi s =
     (let neg = HasPrefix s ''-''; ds = (if neg \<or> HasPrefix s ''+'' then tl s else s);
          v = (if neg then - int (digits_value ds) else int (digits_value ds))
      in if ds = [] \<or> \<not> list_all is_digit ds \<or> \<not> in_int64 v then None else Some v)"

definition Ldexp :: "go_float \<Rightarrow> int \<Rightarrow> go_float" where
  "Ldexp f e =
     (case f of
        Finite x \<Rightarrow> (let v = x * 2 powi e in
                     if max_float \<le> f64 v then PosInf else if f64 v \<le> - max_float then NegInf else Finite (f64 v))
      | _ \<Rightarrow> f)"

definition convertFloat :: "string \<Rightarrow> go_float option" where
  "convertFloat s =
     (if CHR ''p'' \<in> set s \<and> \<not> (CHR ''x'' \<in> set s \<or> CHR ''X'' \<in> set s)
      then
        (case ParseFloat (takeWhile (\<lambda>c. c \<noteq> CHR ''p'') s) of
           None \<Rightarrow> None
         | Some f \<Rightarrow> map_option (Ldexp f) (Atoi (tl (dropWhile (\<lambda>c. c \<noteq> CHR ''p'') s))))
      else ParseFloat s)"

text \<open>\<open>None\<close>: nothing is assigned.\<close>

definition sscanf_f :: "string \<Rightarrow> go_float option" where
  "sscanf_f s0 =
     (let s = dropWhile (\<lambda>c. is_space c \<and> c \<noteq> CHR 0x0A) s0 in
      if s = [] \<or> HasPrefix s [CHR 0x0A] then None else convertFloat (floatToken s))"

section \<open>What the scanner reads\<close>

lemmas scan_defs = sscanf_f_def floatToken_def float_digits_def convertFloat_def ParseFloat_def HasPrefix_def ToLower_def
  to_lower_char_def is_space_def

lemma sscanf_f_nan: "sscanf_f ''nan'' = Some NaN"
  by (simp add: scan_defs)

lemma sscanf_f_word: "sscanf_f ''two'' = None"
  by (simp add: scan_defs readFloat_def is_digit_def Let_def)

lemma f64_5_halves: "f64 (5 / 2) = 5 / 2"
  using f64_dyadic [of 5 "-1"] by (simp add: power_int_minus)

lemma sscanf_f_decimal: "sscanf_f ''2.5'' = Some (Finite (5 / 2))"
  by (simp add: scan_defs readFloat_def is_digit_def hex_val_def digit_val_def Let_def f64_5_halves max_float_def)

end
