(* ===== verification/CLI.thy ===== *)
theory CLI
  imports Config ClientState Go_Scan
begin

text \<open>
  The first half of \<open>main.go\<close>: the command line, the configuration file merged under it, the
  environment variable, and the options of the client made from the result.  Messages are left out;
  every way to leave the program early is a \<open>cli_exit\<close>.
\<close>

section \<open>Settings\<close>

text \<open>The local variables of \<open>main\<close>.\<close>

record settings =
  cli_clientLink :: string
  cli_fromRaw :: bool
  cli_rawURL :: string
  cli_refreshInterval :: duration
  cli_maxServers :: int
  cli_timeout :: duration
  cli_enableIPv6 :: bool
  cli_enableDNSProtection :: bool
  cli_enableKillSwitch :: bool
  cli_metricsPort :: int
  cli_logFormat :: string
  cli_logLevel :: string
  cli_logFile :: string
  cli_logMaxSize :: int
  cli_logMaxBackups :: int
  cli_logMaxAge :: int
  cli_maxRetries :: int
  cli_minBackoff :: duration
  cli_maxBackoff :: duration
  cli_backoffFactor :: go_float
  cli_e2eCheckURL :: string
  cli_configFile :: string

definition default_settings :: settings where
  "default_settings =
     \<lparr>cli_clientLink = [], cli_fromRaw = False, cli_rawURL = [], cli_refreshInterval = 0, cli_maxServers = 10,
      cli_timeout = 5 * second, cli_enableIPv6 = False, cli_enableDNSProtection = False, cli_enableKillSwitch = False,
      cli_metricsPort = 0, cli_logFormat = ''text'', cli_logLevel = ''info'', cli_logFile = [], cli_logMaxSize = 100,
      cli_logMaxBackups = 3, cli_logMaxAge = 28, cli_maxRetries = DefaultMaxRetries, cli_minBackoff = DefaultMinBackoff,
      cli_maxBackoff = DefaultMaxBackoff, cli_backoffFactor = Finite DefaultBackoffFactor, cli_e2eCheckURL = [],
      cli_configFile = []\<rparr>"

datatype cli_exit =
    MissingValue string
  | InvalidValue string
  | Usage nat
  | BadConfigFile config_error
  | BadConfigRefresh
  | BadConfigTimeout

section \<open>The command line\<close>

text \<open>\<open>fmt.Sscanf\<close>, whose error is dropped: what cannot be read leaves the variable alone.\<close>

definition scan_into :: "int \<Rightarrow> string \<Rightarrow> int" where
  "scan_into old v = (case sscanf_d v of None \<Rightarrow> old | Some n \<Rightarrow> n)"

definition scanf_into :: "go_float \<Rightarrow> string \<Rightarrow> go_float" where
  "scanf_into old v = (case sscanf_f v of None \<Rightarrow> old | Some x \<Rightarrow> x)"

definition bool_flag :: "string \<Rightarrow> (settings \<Rightarrow> settings) option" where
  "bool_flag a =
     (if a = ''--ipv6'' then Some (cli_enableIPv6_update (\<lambda>_. True))
      else if a = ''--dns-protection'' then Some (cli_enableDNSProtection_update (\<lambda>_. True))
      else if a = ''--kill-switch'' then Some (cli_enableKillSwitch_update (\<lambda>_. True))
      else None)"

text \<open>The flags with a value: what they do with it, \<open>None\<close> for a value that ends the program.\<close>

type_synonym value_setter = "string \<Rightarrow> settings \<Rightarrow> settings option"

definition checked :: "(settings \<Rightarrow> bool) \<Rightarrow> settings \<Rightarrow> settings option" where
  "checked P s = (if P s then Some s else None)"

definition connection_flag :: "string \<Rightarrow> value_setter option" where
  "connection_flag a =
     (if a = ''--config'' then Some (\<lambda>v s. Some (s\<lparr>cli_configFile := v\<rparr>))
      else if a = ''--from-raw'' then Some (\<lambda>v s. Some (s\<lparr>cli_fromRaw := True, cli_rawURL := v\<rparr>))
      else if a = ''--refresh-interval'' then
        Some (\<lambda>v s. map_option (\<lambda>d. s\<lparr>cli_refreshInterval := d\<rparr>) (ParseDuration v))
      else if a = ''--max-servers'' then
        Some (\<lambda>v s. checked (\<lambda>s. 0 < cli_maxServers s) (s\<lparr>cli_maxServers := scan_into (cli_maxServers s) v\<rparr>))
      else if a = ''--timeout'' then
        Some (\<lambda>v s. map_option (\<lambda>d. s\<lparr>cli_timeout := d\<rparr>) (ParseDuration v))
      else if a = ''--metrics-port'' then
        Some (\<lambda>v s. checked (\<lambda>s. 0 < cli_metricsPort s \<and> cli_metricsPort s \<le> 65535)
                       (s\<lparr>cli_metricsPort := scan_into (cli_metricsPort s) v\<rparr>))
      else None)"

definition log_formats :: "string set" where
  "log_formats = {''text'', ''json''}"

definition log_levels :: "string set" where
  "log_levels = {''debug'', ''info'', ''warn'', ''error''}"

definition logging_flag :: "string \<Rightarrow> value_setter option" where
  "logging_flag a =
     (if a = ''--log-format'' then
        Some (\<lambda>v s. checked (\<lambda>s. cli_logFormat s \<in> log_formats) (s\<lparr>cli_logFormat := ToLower v\<rparr>))
      else if a = ''--log-level'' then
        Some (\<lambda>v s. checked (\<lambda>s. cli_logLevel s \<in> log_levels) (s\<lparr>cli_logLevel := ToLower v\<rparr>))
      else if a = ''--log-file'' then Some (\<lambda>v s. Some (s\<lparr>cli_logFile := v\<rparr>))
      else if a = ''--log-max-size'' then
        Some (\<lambda>v s. checked (\<lambda>s. 0 < cli_logMaxSize s) (s\<lparr>cli_logMaxSize := scan_into (cli_logMaxSize s) v\<rparr>))
      else if a = ''--log-max-backups'' then
        Some (\<lambda>v s. checked (\<lambda>s. 0 \<le> cli_logMaxBackups s) (s\<lparr>cli_logMaxBackups := scan_into (cli_logMaxBackups s) v\<rparr>))
      else if a = ''--log-max-age'' then
        Some (\<lambda>v s. checked (\<lambda>s. 0 \<le> cli_logMaxAge s) (s\<lparr>cli_logMaxAge := scan_into (cli_logMaxAge s) v\<rparr>))
      else None)"

definition reconnection_flag :: "string \<Rightarrow> value_setter option" where
  "reconnection_flag a =
     (if a = ''--max-retries'' then
        Some (\<lambda>v s. checked (\<lambda>s. 0 \<le> cli_maxRetries s) (s\<lparr>cli_maxRetries := scan_into (cli_maxRetries s) v\<rparr>))
      else if a = ''--min-backoff'' then
        Some (\<lambda>v s. map_option (\<lambda>d. s\<lparr>cli_minBackoff := d\<rparr>) (ParseDuration v))
      else if a = ''--max-backoff'' then
        Some (\<lambda>v s. map_option (\<lambda>d. s\<lparr>cli_maxBackoff := d\<rparr>) (ParseDuration v))
      else if a = ''--backoff-factor'' then
        Some (\<lambda>v s. checked (\<lambda>s. \<not> cli_backoffFactor s \<le> Finite 1)
                       (s\<lparr>cli_backoffFactor := scanf_into (cli_backoffFactor s) v\<rparr>))
      else if a = ''--e2e-check-url'' then Some (\<lambda>v s. Some (s\<lparr>cli_e2eCheckURL := v\<rparr>))
      else None)"

definition value_flag :: "string \<Rightarrow> value_setter option" where
  "value_flag a = or_else (connection_flag a) (or_else (logging_flag a) (reconnection_flag a))"

text \<open>Anything else is the link; only the first one counts.\<close>

definition positional :: "string \<Rightarrow> settings \<Rightarrow> settings" where
  "positional a s = (if cli_clientLink s = [] then s\<lparr>cli_clientLink := a\<rparr> else s)"

fun parse_args :: "settings \<Rightarrow> string list \<Rightarrow> cli_exit + settings" where
  "parse_args s [] = Inr s"
| "parse_args s (a # args) =
     (case bool_flag a of
        Some f \<Rightarrow> parse_args (f s) args
      | None \<Rightarrow>
          (case value_flag a of
             None \<Rightarrow> parse_args (positional a s) args
           | Some store \<Rightarrow>
               (case args of
                  [] \<Rightarrow> Inl (if a = ''--from-raw'' then Usage 1 else MissingValue a)
                | v # rest \<Rightarrow>
                    (case store v s of None \<Rightarrow> Inl (InvalidValue a) | Some s' \<Rightarrow> parse_args s' rest))))"

section \<open>The configuration file\<close>

definition merge_connection :: "ConnectionConfig \<Rightarrow> settings \<Rightarrow> settings \<times> string list" where
  "merge_connection c s0 =
     (let s1 = (if cli_clientLink s0 = [] then s0\<lparr>cli_clientLink := cn_Link c\<rparr> else s0);
          (s2, urls) =
            (if \<not> cli_fromRaw s1 \<and> 0 < length (cn_FromRawURLs c)
             then (s1\<lparr>cli_fromRaw := True, cli_rawURL := cn_FromRawURLs c ! 0\<rparr>, cn_FromRawURLs c)
             else if \<not> cli_fromRaw s1 \<and> cn_FromRaw c \<noteq> []
             then (s1\<lparr>cli_fromRaw := True, cli_rawURL := cn_FromRaw c\<rparr>, [])
             else (s1, []))
      in (s2\<lparr>cli_enableIPv6 := cli_enableIPv6 s2 \<or> cn_EnableIPv6 c,
             cli_enableDNSProtection := cli_enableDNSProtection s2 \<or> cn_EnableDNSProtection c,
             cli_enableKillSwitch := cli_enableKillSwitch s2 \<or> cn_EnableKillSwitch c\<rparr>, urls))"

definition merge_selection :: "ServerSelectionConfig \<Rightarrow> settings \<Rightarrow> cli_exit + settings" where
  "merge_selection c s =
     (case (if cli_refreshInterval s = 0 \<and> sl_RefreshInterval c \<noteq> [] then GetRefreshInterval c else Some (cli_refreshInterval s)) of
        None \<Rightarrow> Inl BadConfigRefresh
      | Some refresh \<Rightarrow>
          (case (if cli_timeout s = 5 * second \<and> sl_Timeout c \<noteq> [] then GetTimeout c else Some (cli_timeout s)) of
             None \<Rightarrow> Inl BadConfigTimeout
           | Some timeout \<Rightarrow>
               Inr (s\<lparr>cli_refreshInterval := refresh,
                      cli_maxServers := (if cli_maxServers s = 10 \<and> sl_MaxServers c \<noteq> 10 then sl_MaxServers c else cli_maxServers s),
                      cli_timeout := timeout\<rparr>)))"

definition merge_reconnection :: "ReconnectionConfig \<Rightarrow> settings \<Rightarrow> settings" where
  "merge_reconnection c s =
     s\<lparr>cli_maxRetries := (if cli_maxRetries s = DefaultMaxRetries \<and> 0 < rc_MaxRetries c then rc_MaxRetries c else cli_maxRetries s),
       cli_minBackoff := (if cli_minBackoff s = DefaultMinBackoff \<and> 0 < rc_MinBackoff c then rc_MinBackoff c else cli_minBackoff s),
       cli_maxBackoff := (if cli_maxBackoff s = DefaultMaxBackoff \<and> 0 < rc_MaxBackoff c then rc_MaxBackoff c else cli_maxBackoff s),
       cli_backoffFactor := (if cli_backoffFactor s = Finite DefaultBackoffFactor \<and> 1 < rc_BackoffFactor c
                            then Finite (rc_BackoffFactor c) else cli_backoffFactor s)\<rparr>"

definition merge_logging :: "LoggingConfig \<Rightarrow> settings \<Rightarrow> settings" where
  "merge_logging c s =
     s\<lparr>cli_logFormat := (if cli_logFormat s = ''text'' \<and> lg_Format c \<noteq> ''text'' then lg_Format c else cli_logFormat s),
       cli_logLevel := (if cli_logLevel s = ''info'' \<and> lg_Level c \<noteq> ''info'' then lg_Level c else cli_logLevel s),
       cli_logFile := (if cli_logFile s = [] \<and> lg_File c \<noteq> [] then lg_File c else cli_logFile s),
       cli_logMaxSize := (if cli_logMaxSize s = 100 \<and> lg_MaxSize c \<noteq> 100 then lg_MaxSize c else cli_logMaxSize s),
       cli_logMaxBackups := (if cli_logMaxBackups s = 3 \<and> lg_MaxBackups c \<noteq> 3 then lg_MaxBackups c else cli_logMaxBackups s),
       cli_logMaxAge := (if cli_logMaxAge s = 28 \<and> lg_MaxAge c \<noteq> 28 then lg_MaxAge c else cli_logMaxAge s)\<rparr>"

definition merge_checks :: "ConnectionConfig \<Rightarrow> settings \<Rightarrow> settings" where
  "merge_checks c s =
     s\<lparr>cli_e2eCheckURL := (if cli_e2eCheckURL s = [] \<and> cn_E2ECheckURL c \<noteq> [] then cn_E2ECheckURL c else cli_e2eCheckURL s),
       cli_metricsPort := (if cli_metricsPort s = 0 \<and> 0 < cn_MetricsPort c then cn_MetricsPort c else cli_metricsPort s)\<rparr>"

definition apply_config :: "AppConfig \<Rightarrow> settings \<Rightarrow> cli_exit + settings \<times> string list" where
  "apply_config app s0 =
     (let (s1, urls) = merge_connection (ac_Connection app) s0 in
      bind_result (merge_selection (ac_ServerSelection app) s1)
        (\<lambda>s2. Inr (merge_checks (ac_Connection app) (merge_logging (ac_Logging app)
                     (merge_reconnection (ac_Reconnection app) s2)), urls)))"

section \<open>All sources together\<close>

text \<open>\<open>read\<close>: the content of a file; \<open>decode\<close>: the YAML decoder; \<open>env_url\<close>: the environment variable.\<close>

definition env_link :: "string \<Rightarrow> settings \<Rightarrow> cli_exit + settings" where
  "env_link env_url s =
     (let s1 = (if cli_clientLink s = [] \<and> \<not> cli_fromRaw s then s\<lparr>cli_clientLink := env_url\<rparr> else s) in
      if cli_clientLink s1 = [] \<and> \<not> cli_fromRaw s1 then Inl (Usage 0) else Inr s1)"

definition load_settings ::
    "(string \<Rightarrow> bytes option) \<Rightarrow> (bytes \<Rightarrow> AppConfig option) \<Rightarrow> string \<Rightarrow> string list
       \<Rightarrow> cli_exit + settings \<times> string list \<times> AppConfig option" where
  "load_settings read decode env_url args =
     bind_result (parse_args default_settings args)
       (\<lambda>s. if cli_configFile s = []
            then bind_result (env_link env_url s) (\<lambda>s'. Inr (s', [], None))
            else
              (case LoadConfig (read (cli_configFile s)) decode of
                 Inl err \<Rightarrow> Inl (BadConfigFile err)
               | Inr app \<Rightarrow>
                   bind_result (apply_config app s)
                     (\<lambda>(s1, urls). bind_result (env_link env_url s1) (\<lambda>s'. Inr (s', urls, Some app)))))"

section \<open>What the settings are used for\<close>

text \<open>\<open>createLogger\<close>: the level from which on its handler is enabled.\<close>

definition slog_level :: "string \<Rightarrow> slog_Level" where
  "slog_level level =
     (if ToLower level = ''debug'' then LevelDebug
      else if ToLower level = ''info'' then LevelInfo
      else if ToLower level = ''warn'' then LevelWarn
      else if ToLower level = ''error'' then LevelError
      else LevelInfo)"

text \<open>The logger: level, format and, if a file is named, the rotating file beside the standard output,
  which the returned clean-up closes.  \<open>mkdir\<close> says whether the directory of the file can be made; if
  not the program ends.\<close>

record log_file =
  lf_Filename :: string
  lf_MaxSize :: int
  lf_MaxBackups :: int
  lf_MaxAge :: int

record log_handler =
  lh_Level :: slog_Level
  lh_JSON :: bool
  lh_File :: "log_file option"

definition createLogger ::
    "(string \<Rightarrow> bool) \<Rightarrow> string \<Rightarrow> string \<Rightarrow> string \<Rightarrow> int \<Rightarrow> int \<Rightarrow> int \<Rightarrow> log_handler option" where
  "createLogger mkdir format level logFile maxSize maxBackups maxAge =
     (if logFile \<noteq> [] \<and> \<not> mkdir logFile then None
      else Some
        \<lparr>lh_Level = slog_level level, lh_JSON = (ToLower format = ''json''),
         lh_File = (if logFile \<noteq> []
                    then Some \<lparr>lf_Filename = logFile, lf_MaxSize = maxSize, lf_MaxBackups = maxBackups, lf_MaxAge = maxAge\<rparr>
                    else None)\<rparr>)"

definition client_options :: "settings \<Rightarrow> client_Config" where
  "client_options s =
     \<lparr>cc_GatewayIP = None, cc_InboundProxy = None, cc_TUNAddress = None, cc_RoutesToTUN = None,
      cc_TLSAllowInsecure = False, cc_Logger = Some (\<lambda>l. slog_level (cli_logLevel s) \<le> l), cc_XRayLogType = LogType_None,
      cc_EnableIPv6 = cli_enableIPv6 s, cc_MetricsPort = cli_metricsPort s,
      cc_EnableDNSProtection = cli_enableDNSProtection s, cc_EnableKillSwitch = cli_enableKillSwitch s,
      cc_E2ECheckURL = cli_e2eCheckURL s\<rparr>"

text \<open>The list of URLs of raw mode; \<open>None\<close>: no URL, which is fatal.\<close>

definition raw_urls :: "settings \<Rightarrow> string list \<Rightarrow> string list option" where
  "raw_urls s urls = (if 0 < length urls then Some urls else if cli_rawURL s \<noteq> [] then Some [cli_rawURL s] else None)"

text \<open>The reconnector's configuration, where the factor is a number.\<close>

definition reconn_cfg :: "settings \<Rightarrow> ReconnectionConfig option" where
  "reconn_cfg s =
     (case cli_backoffFactor s of
        Finite f \<Rightarrow> Some \<lparr>rc_MaxRetries = cli_maxRetries s, rc_MinBackoffStr = [], rc_MinBackoff = cli_minBackoff s,
                      rc_MaxBackoffStr = [], rc_MaxBackoff = cli_maxBackoff s, rc_BackoffFactor = f\<rparr>
      | _ \<Rightarrow> None)"

section \<open>Well-formed settings\<close>

definition settings_wf :: "settings \<Rightarrow> bool" where
  "settings_wf s \<longleftrightarrow>
     0 < cli_maxServers s \<and> 0 \<le> cli_metricsPort s \<and> cli_logFormat s \<in> log_formats
     \<and> cli_logLevel s \<in> log_levels \<and> 0 < cli_logMaxSize s \<and> 0 \<le> cli_logMaxBackups s
     \<and> 0 \<le> cli_logMaxAge s \<and> 0 \<le> cli_maxRetries s \<and> \<not> cli_backoffFactor s \<le> Finite 1"

lemma checked_Some [simp]: "checked P s = Some s' \<longleftrightarrow> P s \<and> s' = s"
  by (auto simp: checked_def)

lemma bool_flag_wf: "bool_flag a = Some f \<Longrightarrow> settings_wf s \<Longrightarrow> settings_wf (f s) \<and> cli_metricsPort (f s) = cli_metricsPort s"
  by (auto simp: bool_flag_def settings_wf_def split: if_splits)

lemma positional_wf: "settings_wf s \<Longrightarrow> settings_wf (positional a s) \<and> cli_metricsPort (positional a s) = cli_metricsPort s"
  by (simp add: positional_def settings_wf_def)

lemma value_flag_wf:
  assumes "value_flag a = Some store" and "store v s = Some s'" and "settings_wf s" and "cli_metricsPort s \<le> 65535"
  shows "settings_wf s' \<and> cli_metricsPort s' \<le> 65535"
proof -
  from assms(1) consider "connection_flag a = Some store" | "logging_flag a = Some store" | "reconnection_flag a = Some store"
    by (auto simp: value_flag_def or_else_def split: if_splits)
  then show ?thesis
  proof cases
    case 1
    with assms(2-4) show ?thesis by (auto simp: connection_flag_def settings_wf_def split: if_splits)
  next
    case 2
    with assms(2-4) show ?thesis by (auto simp: logging_flag_def settings_wf_def split: if_splits)
  next
    case 3
    with assms(2-4) show ?thesis by (auto simp: reconnection_flag_def settings_wf_def split: if_splits)
  qed
qed

lemma parse_args_wf:
  "parse_args s args = Inr s' \<Longrightarrow> settings_wf s \<Longrightarrow> cli_metricsPort s \<le> 65535 \<Longrightarrow> settings_wf s' \<and> cli_metricsPort s' \<le> 65535"
proof (induction s args arbitrary: s' rule: parse_args.induct)
  case (2 s a args)
  consider (b) f where "bool_flag a = Some f" | (p) "bool_flag a = None" "value_flag a = None"
    | (v) store v rest t where "bool_flag a = None" "value_flag a = Some store" "args = v # rest" "store v s = Some t" "parse_args t rest = Inr s'"
    using "2.prems"(1) by (auto split: option.splits list.splits)
  then show ?case
  proof cases
    case b
    with 2 bool_flag_wf [OF b] show ?thesis by simp
  next
    case p
    with 2 positional_wf show ?thesis by simp
  next
    case v
    with 2 value_flag_wf [OF v(2,4)] show ?thesis by simp
  qed
qed simp

lemma default_wf: "settings_wf default_settings" "cli_metricsPort default_settings \<le> 65535"
  by (simp_all add: settings_wf_def default_settings_def log_formats_def log_levels_def)

lemma LoadConfig_settings:
  assumes "LoadConfig data decode = Inr app"
  shows "check_settings app = None"
  using assms by (auto simp: LoadConfig_ok_iff Validate_None_iff)

lemmas check_settings_parts = check_settings_def Let_def first_error_None_iff

lemma merge_connection_wf:
  "settings_wf s \<Longrightarrow> settings_wf (fst (merge_connection c s))"
  by (simp add: merge_connection_def settings_wf_def Let_def)

lemma merge_reconnection_wf: "settings_wf s \<Longrightarrow> settings_wf (merge_reconnection c s)"
  by (simp add: merge_reconnection_def settings_wf_def)

lemma merge_checks_wf: "settings_wf s \<Longrightarrow> settings_wf (merge_checks c s)"
  by (simp add: merge_checks_def settings_wf_def)

lemma check_settings_fields:
  assumes "check_settings app = None"
  shows "lg_Format (ac_Logging app) \<in> log_formats" "lg_Level (ac_Logging app) \<in> log_levels"
    "0 < lg_MaxSize (ac_Logging app)" "0 \<le> lg_MaxBackups (ac_Logging app)" "0 \<le> lg_MaxAge (ac_Logging app)"
    "0 < sl_MaxServers (ac_ServerSelection app)" "GetTimeout (ac_ServerSelection app) \<noteq> None"
    "GetRefreshInterval (ac_ServerSelection app) \<noteq> None"
  using assms [unfolded check_settings_parts list.pred_inject prod.case]
  by (auto simp: GetTimeout_def GetRefreshInterval_def not_le log_formats_def log_levels_def)

lemma merge_logging_wf:
  assumes "check_settings app = None" and "settings_wf s"
  shows "settings_wf (merge_logging (ac_Logging app) s)"
  using assms(2) check_settings_fields(1-5) [OF assms(1)] unfolding merge_logging_def settings_wf_def
  by (intro conjI) simp_all

lemma merge_selection_wf:
  assumes "check_settings app = None"
  shows "\<exists>s'. merge_selection (ac_ServerSelection app) s = Inr s' \<and> (settings_wf s \<longrightarrow> settings_wf s')"
proof -
  let ?c = "ac_ServerSelection app"
  note fields = check_settings_fields(6-8) [OF assms]
  obtain r t where r: "(if cli_refreshInterval s = 0 \<and> sl_RefreshInterval ?c \<noteq> [] then GetRefreshInterval ?c else Some (cli_refreshInterval s)) = Some r"
    and t: "(if cli_timeout s = 5 * second \<and> sl_Timeout ?c \<noteq> [] then GetTimeout ?c else Some (cli_timeout s)) = Some t"
    using fields by fastforce
  show ?thesis unfolding merge_selection_def r t using fields(1) by (simp add: settings_wf_def)
qed

lemma apply_config_wf:
  assumes "LoadConfig data decode = Inr app" and "settings_wf s"
  shows "\<exists>s' urls. apply_config app s = Inr (s', urls) \<and> settings_wf s'"
proof -
  note chk = LoadConfig_settings [OF assms(1)]
  obtain s1 urls where 1: "merge_connection (ac_Connection app) s = (s1, urls)" by fastforce
  with merge_connection_wf [OF assms(2)] have "settings_wf s1" by (metis fst_conv)
  with merge_selection_wf [OF chk] obtain s2 where "merge_selection (ac_ServerSelection app) s1 = Inr s2" "settings_wf s2" by blast
  with 1 show ?thesis by (simp add: apply_config_def merge_checks_wf merge_logging_wf [OF chk] merge_reconnection_wf)
qed

lemma env_link_wf:
  "env_link u s = Inr s' \<Longrightarrow> (settings_wf s \<longrightarrow> settings_wf s') \<and> (cli_fromRaw s' \<or> cli_clientLink s' \<noteq> [])
     \<and> cli_metricsPort s' = cli_metricsPort s \<and> cli_configFile s' = cli_configFile s"
  by (auto simp: env_link_def settings_wf_def Let_def split: if_splits)

text \<open>C19: whatever the command line, the configuration file and the environment hold, settings the
  program goes on with are in range: positive limits, known log format and level, no negative
  retry count, a backoff factor that is not at most 1, and a link or raw mode.  The port of the
  metrics endpoint is checked only on the command line.\<close>

theorem load_settings_well_formed:
  assumes "load_settings read decode env_url args = Inr (s, urls, app)"
  shows "settings_wf s \<and> (cli_fromRaw s \<or> cli_clientLink s \<noteq> []) \<and> (app = None \<longrightarrow> cli_metricsPort s \<le> 65535)"
proof -
  obtain s0 where s0: "parse_args default_settings args = Inr s0"
    using assms by (cases "parse_args default_settings args") (simp_all add: load_settings_def)
  note wf = parse_args_wf [OF s0 default_wf]
  show ?thesis
  proof (cases "cli_configFile s0 = []")
    case True
    with assms s0 have "env_link env_url s0 = Inr s" by (auto simp: load_settings_def bind_result_Inr_iff)
    from env_link_wf [OF this] wf show ?thesis by simp
  next
    case False
    with assms s0 obtain cfg s1 where
      cfg: "LoadConfig (read (cli_configFile s0)) decode = Inr cfg" "apply_config cfg s0 = Inr (s1, urls)"
        "env_link env_url s1 = Inr s" "app = Some cfg"
      by (auto simp: load_settings_def bind_result_Inr_iff split: sum.splits)
    from apply_config_wf [OF cfg(1)] wf cfg(2) have "settings_wf s1" by fastforce
    with env_link_wf [OF cfg(3)] cfg(4) show ?thesis by simp
  qed
qed

lemmas flag_defs = bool_flag_def value_flag_def connection_flag_def logging_flag_def reconnection_flag_def or_else_def

text \<open>One equation per flag.\<close>

lemma parse_link: "bool_flag a = None \<Longrightarrow> value_flag a = None \<Longrightarrow> parse_args s (a # args) = parse_args (positional a s) args"
  by simp

lemma no_bool [simp]:
  "bool_flag ''--config'' = None" "bool_flag ''--max-servers'' = None" "bool_flag ''--timeout'' = None"
  "bool_flag ''--refresh-interval'' = None" "bool_flag ''--metrics-port'' = None" "bool_flag ''--log-format'' = None"
  "bool_flag ''--log-level'' = None" "bool_flag ''--log-max-size'' = None" "bool_flag ''--log-max-backups'' = None"
  "bool_flag ''--log-max-age'' = None" "bool_flag ''--max-retries'' = None" "bool_flag ''--backoff-factor'' = None"
  by (simp_all add: bool_flag_def)

lemma parse_flags:
  "ParseDuration v = Some d \<Longrightarrow> parse_args s (''--timeout'' # v # args) = parse_args (s\<lparr>cli_timeout := d\<rparr>) args"
  "ParseDuration v = Some d \<Longrightarrow> parse_args s (''--refresh-interval'' # v # args) = parse_args (s\<lparr>cli_refreshInterval := d\<rparr>) args"
  "parse_args s (''--config'' # v # args) = parse_args (s\<lparr>cli_configFile := v\<rparr>) args"
  "0 < scan_into (cli_maxServers s) v \<Longrightarrow>
     parse_args s (''--max-servers'' # v # args) = parse_args (s\<lparr>cli_maxServers := scan_into (cli_maxServers s) v\<rparr>) args"
  "0 < scan_into (cli_metricsPort s) v \<and> scan_into (cli_metricsPort s) v \<le> 65535 \<Longrightarrow>
     parse_args s (''--metrics-port'' # v # args) = parse_args (s\<lparr>cli_metricsPort := scan_into (cli_metricsPort s) v\<rparr>) args"
  "ToLower v \<in> log_formats \<Longrightarrow> parse_args s (''--log-format'' # v # args) = parse_args (s\<lparr>cli_logFormat := ToLower v\<rparr>) args"
  "ToLower v \<in> log_levels \<Longrightarrow> parse_args s (''--log-level'' # v # args) = parse_args (s\<lparr>cli_logLevel := ToLower v\<rparr>) args"
  "0 < scan_into (cli_logMaxSize s) v \<Longrightarrow>
     parse_args s (''--log-max-size'' # v # args) = parse_args (s\<lparr>cli_logMaxSize := scan_into (cli_logMaxSize s) v\<rparr>) args"
  "0 \<le> scan_into (cli_logMaxBackups s) v \<Longrightarrow>
     parse_args s (''--log-max-backups'' # v # args) = parse_args (s\<lparr>cli_logMaxBackups := scan_into (cli_logMaxBackups s) v\<rparr>) args"
  "0 \<le> scan_into (cli_logMaxAge s) v \<Longrightarrow>
     parse_args s (''--log-max-age'' # v # args) = parse_args (s\<lparr>cli_logMaxAge := scan_into (cli_logMaxAge s) v\<rparr>) args"
  "0 \<le> scan_into (cli_maxRetries s) v \<Longrightarrow>
     parse_args s (''--max-retries'' # v # args) = parse_args (s\<lparr>cli_maxRetries := scan_into (cli_maxRetries s) v\<rparr>) args"
  "\<not> scanf_into (cli_backoffFactor s) w \<le> Finite 1 \<Longrightarrow>
     parse_args s (''--backoff-factor'' # w # args) = parse_args (s\<lparr>cli_backoffFactor := scanf_into (cli_backoffFactor s) w\<rparr>) args"
  by (simp_all add: value_flag_def connection_flag_def logging_flag_def reconnection_flag_def or_else_def checked_def)

declare parse_args.simps(2) [simp del]

lemma scan_numbers: "sscanf_d ''8080'' = Some 8080" "sscanf_d ''10'' = Some 10" "sscanf_d ''0'' = Some 0" "sscanf_d ''abc'' = None"
  by (simp_all add: sscanf_d_def is_digit_def is_space_def digits_value_def digit_val_def in_int64_def)

lemma lower_words [simp]: "ToLower ''INFO'' = ''info''" "ToLower ''info'' = ''info''" "ToLower ''text'' = ''text''"
  by (simp_all add: ToLower_def to_lower_char_def char_of_def bit_iff_odd)

lemma zero_duration: "ParseDuration ''0'' = Some 0"
  by (simp add: ParseDuration_def HasPrefix_def)

theorem load_settings_well_formed_witness:
  "\<exists>s. load_settings (\<lambda>_. None) (\<lambda>_. None) [] [''--metrics-port'', ''8080'', ''--log-level'', ''INFO'', ''vless://x''] = Inr (s, [], None)
     \<and> cli_metricsPort s = 8080 \<and> settings_wf s"
proof -
  let ?s = "default_settings\<lparr>cli_metricsPort := 8080, cli_clientLink := ''vless://x''\<rparr>"
  have run: "load_settings (\<lambda>_. None) (\<lambda>_. None) [] [''--metrics-port'', ''8080'', ''--log-level'', ''INFO'', ''vless://x''] = Inr (?s, [], None)"
    by (simp add: load_settings_def parse_flags parse_link [of "''vless://x''"] flag_defs scan_into_def scan_numbers log_levels_def
        default_settings_def positional_def env_link_def)
  from load_settings_well_formed [OF run] run show ?thesis by simp
qed

text \<open>Once a configuration has been loaded, merging it under the command line cannot fail: the two
  checks of its durations in \<open>main\<close> are never reached with a bad one.\<close>

theorem apply_config_total:
  assumes "LoadConfig data decode = Inr app" and "settings_wf s"
  shows "\<exists>s' urls. apply_config app s = Inr (s', urls) \<and> settings_wf s'"
  by (rule apply_config_wf [OF assms])

theorem apply_config_total_witness:
  "\<exists>s' urls. apply_config (setDefaults sample_config) default_settings = Inr (s', urls) \<and> settings_wf s'"
  using apply_config_total [of "Some []" "\<lambda>_. Some sample_config" "setDefaults sample_config" default_settings]
  by (simp add: LoadConfig_ok_iff sample_config_valid default_wf)

text \<open>an option given on the command line with its default value is the same as no option: the
  program cannot tell them apart, so the value of the configuration file is used although "CLI
  arguments override config file values".\<close>

theorem explicit_defaults_are_invisible:
  "load_settings read decode env_url
     ([''--max-servers'', ''10'', ''--timeout'', ''5s'', ''--refresh-interval'', ''0'', ''--max-retries'', ''0'',
       ''--log-level'', ''INFO'', ''--log-format'', ''text''] @ args)
   = load_settings read decode env_url args"
proof -
  have "parse_args default_settings ([''--max-servers'', ''10'', ''--timeout'', ''5s'', ''--refresh-interval'', ''0'', ''--max-retries'', ''0'',
       ''--log-level'', ''INFO'', ''--log-format'', ''text''] @ args) = parse_args default_settings args"
    by (simp add: parse_flags scan_into_def scan_numbers default_durations zero_duration log_levels_def log_formats_def default_settings_def)
  then show ?thesis unfolding load_settings_def by simp
qed



text \<open>a link on the command line does not override the list of URLs of a configuration file: the
  program goes into raw mode on the file's URLs.\<close>

theorem command_line_link_loses:
  assumes "bool_flag link = None" and "value_flag link = None" and "link \<noteq> []" and "f \<noteq> []"
    and "LoadConfig (read f) decode = Inr app" and "cn_FromRawURLs (ac_Connection app) = u # us"
  shows "\<exists>s. load_settings read decode env_url [link, ''--config'', f] = Inr (s, u # us, Some app)
     \<and> cli_clientLink s = link \<and> cli_fromRaw s \<and> raw_urls s (u # us) = Some (u # us)"
proof -
  let ?s = "default_settings\<lparr>cli_clientLink := link, cli_configFile := f\<rparr>"
  have args: "parse_args default_settings [link, ''--config'', f] = Inr ?s"
    using assms(1-4) by (simp add: parse_link parse_flags positional_def default_settings_def)
  obtain s1 where s1: "merge_connection (ac_Connection app) ?s = (s1, u # us)" "cli_clientLink s1 = link" "cli_fromRaw s1"
    using assms(3,6) by (simp add: merge_connection_def default_settings_def)
  obtain s2 where s2: "merge_selection (ac_ServerSelection app) s1 = Inr s2"
    using merge_selection_wf [OF LoadConfig_settings [OF assms(5)]] by blast
  then have "cli_clientLink s2 = link" "cli_fromRaw s2"
    using s1(2,3) by (auto simp: merge_selection_def split: option.splits)
  with args s1(1) s2 assms(3-5) show ?thesis
    by (simp add: load_settings_def apply_config_def env_link_def raw_urls_def merge_checks_def merge_logging_def merge_reconnection_def)
qed

definition sample_urls :: AppConfig where
  "sample_urls = sample_config\<lparr>ac_Connection := (ac_Connection sample_config)\<lparr>cn_Link := [], cn_FromRawURLs := [''u'', ''v'']\<rparr>\<rparr>"

lemma sample_urls_loads: "LoadConfig (Some []) (\<lambda>_. Some sample_urls) = Inr (setDefaults sample_urls)"
proof -
  have "Validate (setDefaults sample_urls) = None"
    using sample_config_valid unfolding Validate_None_iff
    by (simp add: check_settings_def setDefaults_def sample_urls_def sample_config_def check_connection_def)
  then show ?thesis by (simp add: LoadConfig_ok_iff)
qed

theorem command_line_link_loses_witness:
  "\<exists>s. load_settings (\<lambda>_. Some []) (\<lambda>_. Some sample_urls) [] [''vless://x'', ''--config'', ''f''] = Inr (s, [''u'', ''v''], Some (setDefaults sample_urls))
     \<and> cli_clientLink s = ''vless://x'' \<and> cli_fromRaw s"
proof -
  have link: "bool_flag ''vless://x'' = None" "value_flag ''vless://x'' = None" by (simp_all add: flag_defs)
  have urls: "cn_FromRawURLs (ac_Connection (setDefaults sample_urls)) = ''u'' # [''v'']"
    by (simp add: setDefaults_def sample_urls_def)
  from command_line_link_loses [where read = "\<lambda>_. Some []" and f = "''f''" and env_url = "[]", OF link _ _ sample_urls_loads urls]
  show ?thesis by auto
qed

end
