(* ===== verification/MainLoop.thy ===== *)
theory MainLoop
  imports CLI VPNConnector ClientInvariant
begin

text \<open>
  The second half of \<open>main.go\<close>: direct mode on the client, the fetch-select-connect cycle of raw mode
  (\<open>createConnector\<close>), one tick of the periodic refresh, and the run loop of raw mode as a transition
  system of its goroutines, which compete for the one-element signal channel.
\<close>

section \<open>Direct mode\<close>

text \<open>\<open>log.Fatal\<close> exits with 1 and runs no deferred call; a panic exits with 2.\<close>

definition direct_mode :: "env \<Rightarrow> string \<Rightarrow> (Client, nat) state" where
  "direct_mode e link = do {
     connected \<leftarrow> Connect e link;
     case connected of
       Panics \<Rightarrow> return 2
     | Returned err \<Rightarrow>
         (case err of
            Some _ \<Rightarrow> return 1
          | None \<Rightarrow> do {
              disconnected \<leftarrow> Disconnect e;
              return (if disconnected = Panics then 2 else 0)
            })
   }"

section \<open>createConnector\<close>

datatype create_error =
    CreateCancelled
  | AllURLsFailed nat "selector_error option"
  | CreateSelect selector_error
  | CreateConnect connector_error

text \<open>\<open>done i\<close>: whether the context is done before the \<open>i\<close>-th URL.\<close>

fun fetch_first ::
    "(string \<Rightarrow> http_result) \<Rightarrow> (nat \<Rightarrow> bool) \<Rightarrow> nat \<Rightarrow> string list \<Rightarrow> selector_error option
       \<Rightarrow> create_error + string list \<times> selector_error option" where
  "fetch_first get cancelled i [] lastErr = Inr ([], lastErr)"
| "fetch_first get cancelled i (url # urls) lastErr =
     (if cancelled i then Inl CreateCancelled
      else
        (case FetchRawLinks get url of
           Inr links \<Rightarrow> Inr (links, lastErr)
         | Inl err \<Rightarrow> fetch_first get cancelled (Suc i) urls (Some err)))"

text \<open>With the calls made on the client, also when it fails.\<close>

datatype created = CreatePanics | CreateFails create_error "client_call list" | Creates VPNConnector

definition createConnector ::
    "(string \<Rightarrow> http_result) \<Rightarrow> (nat \<Rightarrow> bool) \<Rightarrow> sorter \<Rightarrow> (ServerInfo list \<Rightarrow> ServerInfo list) \<Rightarrow> (nat \<Rightarrow> dialer)
       \<Rightarrow> (nat \<Rightarrow> bool \<times> connect_outcome) \<Rightarrow> string \<Rightarrow> ReconnectionConfig \<Rightarrow> string list \<Rightarrow> created" where
  "createConnector get cancelled srt arrive dials attempts e2eURL reconnCfg rawURLs =
     (case fetch_first get cancelled 0 rawURLs None of
        Inl err \<Rightarrow> CreateFails err []
      | Inr (links, lastErr) \<Rightarrow>
          (if links = [] then CreateFails (AllURLsFailed (length rawURLs) lastErr) []
           else
             (case SelectAllByScore srt arrive dials links of
                selection.Panics \<Rightarrow> CreatePanics
              | Fails err \<Rightarrow> CreateFails (CreateSelect err) []
              | Selects servers \<Rightarrow>
                  (case ConnectWithFallback attempts servers (NewVPNConnectorWithReconnect e2eURL reconnCfg) of
                     (Some err, c) \<Rightarrow> CreateFails (CreateConnect err) (vc_calls (vc_Stop c))
                   | (None, c) \<Rightarrow> Creates c))))"

text \<open>One tick of \<open>startPeriodicRefresh\<close>: what it logs of the new list, if it gets that far.  It changes
  nothing: the connector keeps its servers.\<close>

definition refresh_tick ::
    "(string \<Rightarrow> http_result) \<Rightarrow> sorter \<Rightarrow> (ServerInfo list \<Rightarrow> ServerInfo list) \<Rightarrow> (nat \<Rightarrow> dialer) \<Rightarrow> string
       \<Rightarrow> log_entry list option" where
  "refresh_tick get srt arrive dials rawURL =
     (case FetchRawLinks get rawURL of
        Inl _ \<Rightarrow> None
      | Inr links \<Rightarrow> (case SelectAllByLatency srt arrive dials links of Selects servers \<Rightarrow> Some (LogServerReport servers) | _ \<Rightarrow> None))"

section \<open>The run loop of raw mode\<close>

text \<open>
  The signal channel holds one signal (\<open>rr_signal\<close>).  It is received by the main loop, by the health
  goroutines, and by the goroutine each reconnection starts to cancel itself.  Connectors are
  numbered; \<open>rr_connector\<close> is the variable \<open>connector\<close>, and the deferred \<open>connector.Stop()\<close> is bound to
  number 0, the first.  The health goroutines share the variables \<open>monitorCtx\<close> and \<open>monitorCancel\<close>:
  \<open>rr_health\<close> of them wait on the current context, \<open>rr_old\<close> on a cancelled one; \<open>rr_live\<close> says that the
  current context is not cancelled.  \<open>rr_waiter\<close>: the signal goroutine of the current reconnection
  waits; \<open>rr_stale\<close>: those of earlier reconnections, which nothing ends.
\<close>

datatype phase = Starting | Watching | Reconnecting | Exited nat

record raw_state =
  rr_phase :: phase
  rr_signal :: bool
  rr_connector :: nat
  rr_stopped :: "nat set"
  rr_live :: bool
  rr_health :: nat
  rr_old :: nat
  rr_waiter :: bool
  rr_cancelled :: bool
  rr_stale :: nat

definition raw_start :: raw_state where
  "raw_start =
     \<lparr>rr_phase = Starting, rr_signal = False, rr_connector = 0, rr_stopped = {}, rr_live = False, rr_health = 0,
      rr_old = 0, rr_waiter = False, rr_cancelled = False, rr_stale = 0\<rparr>"

datatype raw_event =
    Signal | Started | GaveUp | Crashed | MainTakes | HealthTakes | OldTakes | WaiterTakes | StaleTakes
  | HealthEnds | HealthRejoins | Exhausted | Reconnected | ReconnectStops

definition cancel_monitors :: "raw_state \<Rightarrow> raw_state" where
  "cancel_monitors s = s\<lparr>rr_live := False, rr_health := 0, rr_old := rr_old s + rr_health s\<rparr>"

text \<open>The deferred calls of \<open>main\<close>: the monitors are cancelled and connector 0 is stopped.\<close>

definition leave :: "raw_state \<Rightarrow> raw_state" where
  "leave s = (cancel_monitors s)\<lparr>rr_stopped := insert 0 (rr_stopped s), rr_phase := Exited 0\<rparr>"

definition monitor :: "raw_state \<Rightarrow> raw_state" where
  "monitor s = s\<lparr>rr_phase := Watching, rr_live := True, rr_health := Suc (rr_health s)\<rparr>"

definition running :: "raw_state \<Rightarrow> bool" where
  "running s \<longleftrightarrow> rr_phase s \<in> {Starting, Watching, Reconnecting}"

inductive raw_step :: "raw_event \<Rightarrow> raw_state \<Rightarrow> raw_state \<Rightarrow> bool" where
  signal: "running s \<Longrightarrow> raw_step Signal s (s\<lparr>rr_signal := True\<rparr>)"
| started: "rr_phase s = Starting \<Longrightarrow> raw_step Started s (monitor s)"
| gave_up: "rr_phase s = Starting \<or> rr_phase s = Reconnecting \<Longrightarrow> raw_step GaveUp s (s\<lparr>rr_phase := Exited 1\<rparr>)"
| crashed: "rr_phase s = Starting \<or> rr_phase s = Reconnecting \<Longrightarrow> raw_step Crashed s (s\<lparr>rr_phase := Exited 2\<rparr>)"
| main_takes: "rr_phase s = Watching \<Longrightarrow> rr_signal s \<Longrightarrow> raw_step MainTakes s (leave (s\<lparr>rr_signal := False\<rparr>))"
| health_takes: "running s \<Longrightarrow> rr_signal s \<Longrightarrow> rr_health s = Suc n \<Longrightarrow>
    raw_step HealthTakes s (cancel_monitors (s\<lparr>rr_signal := False, rr_health := n\<rparr>))"
| old_takes: "running s \<Longrightarrow> rr_signal s \<Longrightarrow> rr_old s = Suc n \<Longrightarrow>
    raw_step OldTakes s (cancel_monitors (s\<lparr>rr_signal := False, rr_old := n\<rparr>))"
| waiter_takes: "running s \<Longrightarrow> rr_signal s \<Longrightarrow> rr_waiter s \<Longrightarrow>
    raw_step WaiterTakes s (s\<lparr>rr_signal := False, rr_waiter := False, rr_cancelled := True\<rparr>)"
| stale_takes: "running s \<Longrightarrow> rr_signal s \<Longrightarrow> rr_stale s = Suc n \<Longrightarrow>
    raw_step StaleTakes s (s\<lparr>rr_signal := False, rr_stale := n\<rparr>)"
| health_ends: "running s \<Longrightarrow> rr_old s = Suc n \<Longrightarrow> raw_step HealthEnds s (s\<lparr>rr_old := n\<rparr>)"
| health_rejoins: "running s \<Longrightarrow> rr_live s \<Longrightarrow> rr_old s = Suc n \<Longrightarrow>
    raw_step HealthRejoins s (s\<lparr>rr_old := n, rr_health := Suc (rr_health s)\<rparr>)"
| exhausted: "rr_phase s = Watching \<Longrightarrow>
    raw_step Exhausted s ((cancel_monitors s)\<lparr>rr_phase := Reconnecting, rr_stopped := insert (rr_connector s) (rr_stopped s),
      rr_waiter := True, rr_cancelled := False\<rparr>)"
| reconnected: "rr_phase s = Reconnecting \<Longrightarrow>
    raw_step Reconnected s (monitor (s\<lparr>rr_connector := Suc (rr_connector s), rr_waiter := False,
      rr_stale := (if rr_waiter s then Suc (rr_stale s) else rr_stale s)\<rparr>))"
| reconnect_stops: "rr_phase s = Reconnecting \<Longrightarrow> rr_cancelled s \<Longrightarrow> raw_step ReconnectStops s (leave s)"

inductive_cases raw_stepE: "raw_step a s s'"

inductive raw_run :: "raw_event list \<Rightarrow> raw_state \<Rightarrow> raw_state \<Rightarrow> bool" where
  stop: "raw_run [] s s"
| go: "raw_run as s s' \<Longrightarrow> raw_step a s' s'' \<Longrightarrow> raw_run (as @ [a]) s s''"

inductive_simps raw_step_simps [simp]:
  "raw_step Signal s s'" "raw_step Started s s'" "raw_step MainTakes s s'" "raw_step HealthTakes s s'"
  "raw_step WaiterTakes s s'" "raw_step Exhausted s s'" "raw_step Reconnected s s'"

lemma raw_run_Nil [simp]: "raw_run [] s s' \<longleftrightarrow> s' = s"
  by (auto elim: raw_run.cases intro: raw_run.stop)

lemma raw_run_append: "raw_run (as @ bs) s s' \<longleftrightarrow> (\<exists>t. raw_run as s t \<and> raw_run bs t s')"
proof (induction bs arbitrary: s' rule: rev_induct)
  case (snoc b bs)
  have "raw_run (cs @ [b]) u s' \<longleftrightarrow> (\<exists>t. raw_run cs u t \<and> raw_step b t s')" for cs u
    by (auto elim: raw_run.cases intro: raw_run.go)
  from this [of "as @ bs" s] this [of bs] snoc.IH show ?case by (auto simp flip: append_assoc)
qed simp

lemma raw_run_Cons [simp]: "raw_run (a # as) s s' \<longleftrightarrow> (\<exists>t. raw_step a s t \<and> raw_run as t s')"
proof -
  have "raw_run [a] s t \<longleftrightarrow> raw_step a s t" for t
    using raw_run.go [OF raw_run.stop] by (auto elim!: raw_run.cases [of "[a]"])
  then show ?thesis using raw_run_append [of "[a]" as] by simp
qed

section \<open>Signals and connectors\<close>

definition listeners :: "raw_state \<Rightarrow> nat" where
  "listeners s = rr_health s + rr_old s + rr_stale s + (if rr_waiter s then 1 else 0)"

definition taken_elsewhere :: "raw_event list \<Rightarrow> nat" where
  "taken_elsewhere as = length (filter (\<lambda>a. a \<in> {HealthTakes, OldTakes, WaiterTakes, StaleTakes}) as)"

definition goroutines_started :: "raw_event list \<Rightarrow> nat" where
  "goroutines_started as = length (filter (\<lambda>a. a \<in> {Started, Exhausted, Reconnected}) as)"

lemma counts [simp]:
  "taken_elsewhere [] = 0" "goroutines_started [] = 0"
  "taken_elsewhere (as @ bs) = taken_elsewhere as + taken_elsewhere bs"
  "goroutines_started (as @ bs) = goroutines_started as + goroutines_started bs"
  by (simp_all add: taken_elsewhere_def goroutines_started_def)

lemma step_listeners:
  "raw_step a s s' \<Longrightarrow> taken_elsewhere [a] + listeners s' \<le> goroutines_started [a] + listeners s"
  by (erule raw_stepE)
    (auto simp: taken_elsewhere_def goroutines_started_def listeners_def cancel_monitors_def leave_def monitor_def)

lemma run_listeners:
  "raw_run as s s' \<Longrightarrow> taken_elsewhere as + listeners s' \<le> goroutines_started as + listeners s"
proof (induction rule: raw_run.induct)
  case (go as s s' a s'')
  then show ?case using step_listeners [OF go.hyps(2)] by simp
qed simp

text \<open>Nothing but signals arriving happens before the first connection.\<close>

lemma run_starting:
  "raw_run as s s' \<Longrightarrow> s = raw_start \<Longrightarrow> rr_phase s' = Starting
     \<Longrightarrow> set as \<subseteq> {Signal} \<and> (as \<noteq> [] \<longrightarrow> rr_signal s') \<and> listeners s' = 0"
proof (induction rule: raw_run.induct)
  case (stop s)
  then show ?case by (simp add: raw_start_def listeners_def)
next
  case (go as s s' a s'')
  from go.hyps(2) go.prems go.IH show ?case
    by (elim raw_stepE) (auto simp: listeners_def cancel_monitors_def leave_def monitor_def)
qed

definition connectors_inv :: "raw_state \<Rightarrow> bool" where
  "connectors_inv s \<longleftrightarrow>
     (rr_phase s = Starting \<longrightarrow> rr_connector s = 0 \<and> rr_stopped s = {})
     \<and> (rr_phase s = Watching \<longrightarrow> rr_stopped s = {..<rr_connector s})
     \<and> (rr_phase s = Reconnecting \<longrightarrow> rr_stopped s = {..rr_connector s})"

text \<open>The signal, the goroutines and the contexts do not matter for it.\<close>

lemma connectors_inv_simps [simp]:
  "connectors_inv (s\<lparr>rr_signal := b\<rparr>) = connectors_inv s" "connectors_inv (s\<lparr>rr_health := n\<rparr>) = connectors_inv s"
  "connectors_inv (s\<lparr>rr_old := n\<rparr>) = connectors_inv s" "connectors_inv (s\<lparr>rr_stale := n\<rparr>) = connectors_inv s"
  "connectors_inv (s\<lparr>rr_waiter := b\<rparr>) = connectors_inv s" "connectors_inv (s\<lparr>rr_cancelled := b\<rparr>) = connectors_inv s"
  "connectors_inv (cancel_monitors s) = connectors_inv s"
  by (simp_all add: connectors_inv_def cancel_monitors_def)

lemma connectors_inv_exited [simp]:
  "connectors_inv (s\<lparr>rr_phase := Exited n\<rparr>)" "connectors_inv (leave s)"
  by (simp_all add: connectors_inv_def leave_def)

lemma step_connectors:
  assumes "raw_step a s s'" and "connectors_inv s"
  shows "connectors_inv s'"
  using assms(1)
proof cases
  case started
  with assms(2) show ?thesis by (simp add: connectors_inv_def monitor_def)
next
  case exhausted
  with assms(2) show ?thesis by (simp add: connectors_inv_def cancel_monitors_def lessThan_Suc_atMost [symmetric] lessThan_Suc)
next
  case reconnected
  with assms(2) show ?thesis by (simp add: connectors_inv_def monitor_def lessThan_Suc_atMost)
qed (use assms(2) in simp_all)

lemma run_connectors: "raw_run as s s' \<Longrightarrow> connectors_inv s \<Longrightarrow> connectors_inv s'"
  by (induction rule: raw_run.induct) (auto intro: step_connectors)

lemma start_connectors: "connectors_inv raw_start"
  by (simp add: connectors_inv_def raw_start_def)

text \<open>C18: a signal can be taken by a goroutine that is not the main loop, but no more often than health and
  reconnection goroutines have been started; before the first connection a signal stays in the
  channel and nothing takes it, so the program does not react to it.\<close>

theorem signals_taken_elsewhere:
  assumes "raw_run as raw_start s"
  shows "taken_elsewhere as \<le> goroutines_started as
     \<and> (rr_phase s = Starting \<longrightarrow> taken_elsewhere as = 0 \<and> (Signal \<in> set as \<longrightarrow> rr_signal s))"
proof -
  have "taken_elsewhere as = 0" if "set as \<subseteq> {Signal}"
    using that by (auto simp: taken_elsewhere_def filter_empty_conv)
  then show ?thesis
    using run_listeners [OF assms] run_starting [OF assms] by (fastforce simp: listeners_def raw_start_def)
qed

theorem signals_taken_elsewhere_witness:
  "\<exists>s. raw_run [Signal] raw_start s \<and> rr_phase s = Starting \<and> rr_signal s \<and> taken_elsewhere [Signal] = 0"
  using signals_taken_elsewhere [of "[Signal]" "raw_start\<lparr>rr_signal := True\<rparr>"]
  by (simp add: raw_start_def running_def)


text \<open>C17: while the program watches a connection exactly the earlier connectors have been stopped; when it
  leaves on a signal the deferred call stops connector 0, so the connector in use is stopped only
  if there has been no reconnection.\<close>

theorem last_connector_keeps_running:
  assumes "raw_run as raw_start s" and "raw_step MainTakes s s'"
  shows "rr_stopped s = {..<rr_connector s} \<and> rr_phase s' = Exited 0
     \<and> (rr_connector s' \<in> rr_stopped s' \<longleftrightarrow> rr_connector s' = 0)"
  using run_connectors [OF assms(1) start_connectors] assms(2)
  by (elim raw_stepE) (auto simp: connectors_inv_def leave_def cancel_monitors_def)

theorem last_connector_keeps_running_witness:
  "\<exists>s s'. raw_run [Started, Exhausted, Reconnected, Signal] raw_start s \<and> raw_step MainTakes s s'
     \<and> rr_connector s' = 1 \<and> rr_connector s' \<notin> rr_stopped s'"
proof -
  obtain s s' where run: "raw_run [Started, Exhausted, Reconnected, Signal] raw_start s" "raw_step MainTakes s s'"
    and one: "rr_connector s' = 1"
    by (simp add: raw_start_def monitor_def cancel_monitors_def running_def leave_def)
  from last_connector_keeps_running [OF run] run one show ?thesis by (metis zero_neq_one)
qed

section \<open>Creating a connector\<close>

lemma fetch_first_skip:
  assumes "\<And>i. \<not> cancelled i" and "\<forall>url \<in> set bad. isl (FetchRawLinks get url)"
  shows "fetch_first get cancelled i (bad @ urls) e =
     fetch_first get cancelled (i + length bad) urls (if bad = [] then e else Some (projl (FetchRawLinks get (last bad))))"
  using assms(2)
proof (induction bad arbitrary: i e)
  case (Cons u bad)
  then show ?case using assms(1) by (cases "FetchRawLinks get u") auto
qed simp

text \<open>C32: the first URL that can be fetched decides: with links in it the outcome is that of this URL
  alone; with none, no later URL is tried, the cycle fails, and the error it reports as the last
  one is that of the URL before, if any.\<close>

theorem createConnector_first_url:
  assumes "\<And>i. \<not> cancelled i" and "\<forall>u \<in> set bad. isl (FetchRawLinks get u)" and "FetchRawLinks get url = Inr links"
  shows "createConnector get cancelled srt arrive dials attempts e2e cfg (bad @ url # rest) =
     (if links \<noteq> [] then createConnector get cancelled srt arrive dials attempts e2e cfg [url]
      else CreateFails (AllURLsFailed (length bad + Suc (length rest))
             (if bad = [] then None else Some (projl (FetchRawLinks get (last bad))))) [])"
  using assms(1,3) by (simp add: createConnector_def fetch_first_skip [OF assms(1,2)])

definition two_urls :: "string \<Rightarrow> http_result" where
  "two_urls u =
     (if u = ''a'' then Response 200 (Some []) else if u = ''c'' then Response 200 (Some ''vless://b@y.org:443?#n'') else DoFailed)"

definition example_create :: "string list \<Rightarrow> created" where
  "example_create =
     createConnector two_urls (\<lambda>_. False) sort_Slice (\<lambda>xs. xs) (\<lambda>i. two_dials (Suc i)) (\<lambda>_. (False, Connected)) [] cfg3"

lemma fetch_empty: "FetchRawLinks two_urls ''a'' = Inr []"
  by (simp add: FetchRawLinks_def two_urls_def ParseLinksFromRaw_def link_line_def TrimSpace_def trim_left_def HasPrefix_def)

theorem createConnector_first_url_witness:
  "example_create [''a'', ''b''] = CreateFails (AllURLsFailed 2 None) []"
  unfolding example_create_def
  using createConnector_first_url [of "\<lambda>_. False" "[]" two_urls "''a''" "[]" _ _ _ _ _ _ "[''b'']"]
  by (simp add: fetch_empty)

lemma connect_loop_ok:
  "connect_loop attempts i rest e c = (None, c') \<Longrightarrow>
     \<exists>k < length rest. c' = startHealthMonitoring (c\<lparr>vc_calls := vc_calls c @ connects (take (Suc k) rest), vc_currentServerIndex := int (i + k)\<rparr>)"
proof (induction attempts i rest e c rule: connect_loop.induct)
  case (2 attempts i server rest e c)
  show ?case
  proof (cases "snd (attempts i) = Connected")
    case True
    with 2 show ?thesis by (intro exI [of _ 0]) (auto simp: call_client_def connects_def split: if_splits)
  next
    case False
    with 2 obtain k where "k < length rest"
      "c' = startHealthMonitoring (c\<lparr>vc_calls := vc_calls c @ connects (take (Suc (Suc k)) (server # rest)), vc_currentServerIndex := int (i + Suc k)\<rparr>)"
      by (auto simp: call_client_def connects_def split: if_splits)
    then show ?thesis by (intro exI [of _ "Suc k"]) simp
  qed
qed simp

lemma connect_loop_calls:
  "connect_loop attempts i rest e c = (Some err, c') \<Longrightarrow> \<exists>k \<le> length rest. vc_calls c' = vc_calls c @ connects (take k rest)"
proof (induction attempts i rest e c rule: connect_loop.induct)
  case (2 attempts i server rest e c)
  show ?case
  proof (cases "fst (attempts i)")
    case True
    with 2 show ?thesis by (intro exI [of _ 0]) (simp add: connects_def)
  next
    case False
    with 2 obtain k where "k \<le> length rest" "vc_calls c' = vc_calls c @ connects (take (Suc k) (server # rest))"
      by (auto simp: call_client_def connects_def Let_def split: if_splits)
    then show ?thesis by (intro exI [of _ "Suc k"]) simp
  qed
qed (simp add: connects_def)


lemma link_valid: "isValidVLESSLink ''vless://b@y.org:443?#n''" "TrimSpace ''vless://b@y.org:443?#n'' = ''vless://b@y.org:443?#n''"
  "Split (CHR 0x0A) ''vless://b@y.org:443?#n'' = [''vless://b@y.org:443?#n'']" "\<not> HasPrefix ''vless://b@y.org:443?#n'' ''#''"
  by code_simp+

lemma fetch_link: "FetchRawLinks two_urls ''c'' = Inr [''vless://b@y.org:443?#n'']"
  by (simp add: FetchRawLinks_def two_urls_def ParseLinksFromRaw_def link_line_def link_valid)

lemma select_link:
  "\<exists>server. SelectAllByScore sort_Slice (\<lambda>xs. xs) (\<lambda>i. two_dials (Suc i)) [''vless://b@y.org:443?#n''] = Selects [server]"
  using two_workers(2) by (simp add: SelectAllByScore_def score_results_def rank_def sort_Slice_def)


section \<open>Leaving direct mode\<close>

text \<open>C16: direct mode with the kill switch enabled: an orderly end, by a signal, disconnects and exits
  with status 0, and the kill switch is left active: the host stays without network.\<close>

theorem direct_mode_leaves_kill_switch:
  assumes "client_inv e c" and "cc_EnableKillSwitch (cl_cfg c)" and "run_state (direct_mode e link) c = (0, c')"
  shows "\<not> cl_isConnected c' \<and> cl_killSwitchActive c'"
proof -
  obtain r c1 where 1: "run_state (Connect e link) c = (r, c1)" by fastforce
  with assms(3) have r: "r = Returned None" by (auto simp: direct_mode_def split: outcome.splits option.splits)
  obtain d c2 where 2: "run_state (Disconnect e) c1 = (d, c2)" by fastforce
  with assms(3) 1 r have c': "c' = c2" by (simp add: direct_mode_def)
  have "cc_EnableKillSwitch (cl_cfg c1)"
  proof (rule Connect_cases [OF assms(1) 1])
    fix x addr tun
    assume "cl_cfg x = cl_cfg c" "run_state (connect_new e link addr tun) x = (r, c1)"
    then show ?thesis using wpD [OF connect_new_wp] assms(2) by (auto simp: connect_post_def)
  qed
  then show ?thesis using wpD [OF Disconnect_wp 2] c' by (simp add: disconnect_post_def core_eq)
qed

theorem direct_mode_leaves_kill_switch_witness:
  "\<exists>c'. run_state (direct_mode yes_env ''ss://x'') fresh_client = (0, c') \<and> cl_killSwitchActive c'"
proof -
  note inv = reachable_inv [OF fresh_reachable]
  obtain c1 where 1: "run_state (Connect yes_env ''ss://x'') fresh_client = (Returned None, c1)"
    using yes_Connect [OF inv, of "''ss://x''"] by (metis prod.collapse)
  have "cc_GatewayIP (cl_cfg c1) \<noteq> None" using Connect_inv [OF inv 1] by (auto simp: client_inv_def options_set_def)
  then obtain c2 where 2: "run_state (Disconnect yes_env) c1 = (Returned [], c2)"
    using yes_Disconnect by (metis prod.collapse)
  from 1 2 have run: "run_state (direct_mode yes_env ''ss://x'') fresh_client = (0, c2)" by (simp add: direct_mode_def)
  from direct_mode_leaves_kill_switch [OF inv fresh_fields(2) run] run show ?thesis by blast
qed

end
