(* ===== verification/Composition.thy ===== *)
theory Composition
  imports VPNConnector ClientInvariant
begin

text \<open>
  The connector on the client: \<open>VPNConnector\<close> records the calls it makes on the client and takes the
  outcome of each attempt as a parameter; here the calls are carried out on the client of
  \<open>ClientLifecycle\<close>, and the outcomes are those the client's \<open>Connect\<close> gives.
\<close>

section \<open>Carrying out the calls\<close>

text \<open>\<open>None\<close>: a call panics.\<close>

fun perform :: "env \<Rightarrow> client_call \<Rightarrow> Client \<Rightarrow> Client option" where
  "perform e (CallConnect link) c = (case run_state (Connect e link) c of (Returned _, c') \<Rightarrow> Some c' | (Panics, _) \<Rightarrow> None)"
| "perform e CallDisconnect c = (case run_state (Disconnect e) c of (Returned _, c') \<Rightarrow> Some c' | (Panics, _) \<Rightarrow> None)"

fun perform_all :: "env \<Rightarrow> client_call list \<Rightarrow> Client \<Rightarrow> Client option" where
  "perform_all e [] c = Some c"
| "perform_all e (a # as) c = Option.bind (perform e a c) (perform_all e as)"

text \<open>The outcomes of connecting to one link after the other.\<close>

fun client_outcomes :: "env \<Rightarrow> string list \<Rightarrow> Client \<Rightarrow> connect_outcome list" where
  "client_outcomes e [] c = []"
| "client_outcomes e (link # links) c =
     (case run_state (Connect e link) c of
        (r, c') \<Rightarrow> (if r = Returned None then Connected else ConnectFailed) # client_outcomes e links c')"

definition addresses_ok :: "env \<Rightarrow> bool" where
  "addresses_ok e \<longleftrightarrow> (\<forall>ip. addr_ok e (IPAddr_String ip @ ''/32''))"

section \<open>Calls are steps of the client\<close>

lemma perform_step: "perform e a c = Some c' \<Longrightarrow> client_step e c c'"
  by (cases a) (auto split: prod.splits outcome.splits intro: client_step.intros)

lemma Connect_no_panic:
  assumes "addresses_ok e" and "client_inv e c" and "run_state (Connect e link) c = (r, c')"
  shows "r \<noteq> Panics"
proof
  assume "r = Panics"
  with Connect_inv [OF assms(2,3)] have "xrayToGatewayRoute e c' = None" "cl_xSrvIP c' \<noteq> None" "client_inv e c'" by blast+
  with assms(1) show False
    by (auto simp: xrayToGatewayRoute_def xray_route_text_def addresses_ok_def client_inv_def options_set_def split: option.splits if_splits)
qed

lemma perform_total:
  assumes "addresses_ok e" and "client_inv e c"
  shows "\<exists>c'. perform e a c = Some c'"
proof (cases a)
  case (CallConnect link)
  obtain r c' where r: "run_state (Connect e link) c = (r, c')" by fastforce
  with Connect_no_panic [OF assms r] CallConnect show ?thesis by (cases r) auto
next
  case CallDisconnect
  obtain r c' where r: "run_state (Disconnect e) c = (r, c')" by fastforce
  with Disconnect_inv [OF assms(2) r] CallDisconnect show ?thesis by (cases r) auto
qed

lemma perform_all_total:
  assumes "addresses_ok e" and "reachable e c"
  shows "\<exists>c'. perform_all e as c = Some c' \<and> (client_step e)\<^sup>*\<^sup>* c c' \<and> reachable e c'"
  using assms(2)
proof (induction as arbitrary: c)
  case (Cons a as)
  obtain d where d: "perform e a c = Some d" using perform_total [OF assms(1) reachable_inv [OF Cons.prems]] by blast
  note step = perform_step [OF d]
  from Cons.IH [OF reachable.step [OF Cons.prems step]] d step show ?case
    by (auto intro: converse_rtranclp_into_rtranclp)
qed simp

section \<open>Connecting with fallback\<close>

lemma connect_loop_client:
  assumes "addresses_ok e"
  shows "reachable e c \<Longrightarrow> \<forall>j < length rest. attempts (i + j) = (False, client_outcomes e (map si_Link rest) c ! j)
    \<Longrightarrow> connect_loop attempts i rest lastErr v = (r, v')
    \<Longrightarrow> \<exists>calls c'. vc_calls v' = vc_calls v @ calls \<and> perform_all e calls c = Some c' \<and> reachable e c'
          \<and> (if r = None then cl_isConnected c' else rest = [] \<or> \<not> cl_isConnected c')"
proof (induction rest arbitrary: i lastErr v c)
  case Nil
  then show ?case by (intro exI [of _ "[]"]) auto
next
  case (Cons server rest)
  let ?v = "call_client (CallConnect (si_Link server)) v"
  obtain x d where run: "run_state (Connect e (si_Link server)) c = (x, d)" by fastforce
  obtain err where x: "x = Returned err"
    using Connect_no_panic [OF assms reachable_inv [OF Cons.prems(1)] run] by (cases x) auto
  have d: "perform e (CallConnect (si_Link server)) c = Some d" using run x by simp
  note reach = reachable.step [OF Cons.prems(1) perform_step [OF d]]
  note con = Connect_inv [OF reachable_inv [OF Cons.prems(1)] run]
  have now: "attempts i = (False, if x = Returned None then Connected else ConnectFailed)"
    using Cons.prems(2) run by (auto dest: spec [of _ 0])
  have later: "\<forall>j < length rest. attempts (Suc i + j) = (False, client_outcomes e (map si_Link rest) d ! j)"
    using Cons.prems(2) run by (auto dest: spec [of _ "Suc _"])
  show ?case
  proof (cases "x = Returned None")
    case True
    with Cons.prems(3) now have "r = None" "vc_calls v' = vc_calls v @ [CallConnect (si_Link server)]"
      by (auto simp: call_client_def startHealthMonitoring_def Let_def)
    with True con d reach show ?thesis by (intro exI [of _ "[CallConnect (si_Link server)]"] exI [of _ d]) simp
  next
    case False
    with Cons.prems(3) now have loop: "connect_loop attempts (Suc i) rest ConnectFailed ?v = (r, v')" by simp
    from Cons.IH [OF reach later loop] obtain calls c' where
      calls: "vc_calls v' = vc_calls ?v @ calls" "perform_all e calls d = Some c'" "reachable e c'"
        "if r = None then cl_isConnected c' else rest = [] \<or> \<not> cl_isConnected c'" by blast
    have "rest = [] \<Longrightarrow> c' = d \<or> r = None"
      using loop calls(1,2) by (cases calls) (auto simp: call_client_def)
    with calls d False con show ?thesis
      by (intro exI [of _ "CallConnect (si_Link server) # calls"] exI [of _ c']) (auto simp: call_client_def)
  qed
qed


lemma yes_addresses: "addresses_ok yes_env"
  by (simp add: addresses_ok_def yes_env_def)

lemma yes_outcomes: "client_outcomes yes_env [link] fresh_client = [Connected]"
  using yes_Connect [OF reachable_inv [OF fresh_reachable], of link] by (auto split: prod.split)


section \<open>Failing over\<close>

lemma failover_loop_calls: "\<exists>calls. vc_calls (failover_loop env v) = vc_calls v @ calls"
proof (induction env v rule: failover_loop.induct)
  case (1 env c)
  let ?next = "vc_currentServerIndex c + 1"
  let ?c = "switch_server ?next (vc_servers c ! nat ?next) c"
  show ?case
  proof (cases "int (length (vc_servers c)) \<le> ?next")
    case True
    then show ?thesis by (intro exI [of _ "[]"]) (simp add: failover_loop_stuck)
  next
    case False
    with "1.IH" have "\<exists>calls. vc_calls (failover_loop env ?c) = vc_calls ?c @ calls"
      if "env ?next \<noteq> Connected" "?next < int (length (vc_servers c)) - 1" using that by simp
    with False show ?thesis by (subst failover_loop.simps) (auto simp: Let_def startHealthMonitoring_def)
  qed
qed

lemma performFailover_calls: "\<exists>calls. vc_calls (performFailover env v) = vc_calls v @ calls"
  using failover_loop_calls [of env "v\<lparr>vc_isFailingOver := True, vc_ctx_done := True\<rparr>"]
  by (simp add: performFailover_def Let_def)

lemma held_steps:
  assumes "(client_step e)\<^sup>*\<^sup>* c c'" and "reachable e c" and "cc_EnableKillSwitch (cl_cfg c)" and "cl_isConnected c \<or> cl_killSwitchActive c"
  shows "client_inv e c' \<and> cc_EnableKillSwitch (cl_cfg c') \<and> (cl_isConnected c' \<or> cl_killSwitchActive c')"
  using assms(1)
proof (induction rule: rtranclp_induct)
  case base
  with assms(2-4) reachable_inv show ?case by blast
next
  case (step d c')
  then show ?case using held_step step_inv by blast
qed



end
