(* ===== verification/Reconnection.thy ===== *)
theory Reconnection
  imports Reconnector MainLoop
begin

text \<open>
  The reconnection loops of \<open>main.go\<close>: a new \<open>Reconnector\<close> runs \<open>createConnector\<close> as its callback,
  which stores the connector it gets in the variable \<open>connector\<close>.
\<close>

section \<open>The loop over createConnector\<close>

text \<open>\<open>create k\<close>: how the \<open>k\<close>-th cycle ends; \<open>refreshFunc\<close> only logs and returns nil.\<close>

definition creates :: "created \<Rightarrow> bool" where
  "creates r \<longleftrightarrow> (case r of Creates _ \<Rightarrow> True | _ \<Rightarrow> False)"

definition reconnect_rounds ::
    "(nat \<Rightarrow> created) \<Rightarrow> (nat \<Rightarrow> wait_outcome) \<Rightarrow> (nat \<Rightarrow> poll_outcome) \<Rightarrow> nat \<Rightarrow> round" where
  "reconnect_rounds create waits polls k =
     \<lparr>rd_wait = waits k, rd_refresh_ok = True, rd_reconnect_ok = creates (create k), rd_poll = polls k\<rparr>"

text \<open>The variable \<open>connector\<close> after the given number of calls of \<open>reconnectFunc\<close>.\<close>

fun stored_connector :: "VPNConnector option \<Rightarrow> (nat \<Rightarrow> created) \<Rightarrow> nat \<Rightarrow> VPNConnector option" where
  "stored_connector old create 0 = old"
| "stored_connector old create (Suc n) =
     (case create n of Creates c \<Rightarrow> Some c | _ \<Rightarrow> stored_connector old create n)"

datatype reconnection = ReconnectPanics | ReconnectEnds start_result "VPNConnector option"

definition cycles :: "callback list \<Rightarrow> nat" where
  "cycles calls = length (filter (\<lambda>c. c = CallReconnect) calls)"

text \<open>\<open>None\<close>: not ended within the fuel.  A panic in a cycle ends the program.\<close>

definition reconnect ::
    "(real \<Rightarrow> real) \<Rightarrow> nat \<Rightarrow> (nat \<Rightarrow> created) \<Rightarrow> (nat \<Rightarrow> wait_outcome) \<Rightarrow> (nat \<Rightarrow> poll_outcome)
       \<Rightarrow> ReconnectionConfig \<Rightarrow> VPNConnector option \<Rightarrow> reconnection option" where
  "reconnect msin fuel create waits polls cfg old =
     (case Start msin fuel (reconnect_rounds create waits polls) (NewReconnector cfg True) of
        None \<Rightarrow> None
      | Some (ended, r, calls) \<Rightarrow>
          Some (if CreatePanics \<in> create ` {..<cycles calls} then ReconnectPanics
                else ReconnectEnds ended (stored_connector old create (cycles calls))))"

section \<open>What a reconnection delivers\<close>

lemma cycles_simps [simp]:
  "cycles [] = 0" "cycles (a @ b) = cycles a + cycles b" "cycles [CallRefresh] = 0" "cycles [CallReconnect] = 1"
  "cycles (CallRefresh # a) = cycles a" "cycles (CallReconnect # a) = Suc (cycles a)"
  by (simp_all add: cycles_def)

lemma start_loop_cycles:
  "start_loop msin fuel env k r = Some (ended, r', calls) \<Longrightarrow>
     (\<forall>j < cycles calls - (if ended = None then 1 else 0). \<not> rd_reconnect_ok (env (k + j)))
     \<and> (ended = None \<longrightarrow> 0 < cycles calls \<and> rd_reconnect_ok (env (k + cycles calls - 1)))"
proof (induction fuel arbitrary: k r ended r' calls)
  case (Suc fuel)
  obtain a r1 c1 where s: "start_round msin (env k) r = (a, r1, c1)" by (cases "start_round msin (env k) r") auto
  show ?case
  proof (cases a)
    case (Inl res)
    with s Suc.prems have "ended = res" "calls = c1" by auto
    with s Inl show ?thesis
      by (auto simp: start_round_def Let_def waitWithContext_def split: if_splits option.splits poll_outcome.splits wait_outcome.splits)
  next
    case (Inr u)
    with s Suc.prems obtain c2 where l: "start_loop msin fuel env (Suc k) r1 = Some (ended, r', c2)" and calls: "calls = c1 @ c2"
      by auto
    have c1: "cycles c1 = 1" "\<not> rd_reconnect_ok (env k)"
      using s Inr by (auto simp: start_round_def Let_def waitWithContext_def split: if_splits option.splits poll_outcome.splits wait_outcome.splits)
    have "\<not> rd_reconnect_ok (env (k + j))" if "j < Suc (cycles c2) - (if ended = None then 1 else 0)" for j
      using Suc.IH [OF l] c1(2) that by (cases j) (auto split: if_splits)
    with Suc.IH [OF l] c1 calls show ?thesis by auto
  qed
qed simp

lemma Start_new:
  assumes "Start msin fuel env (NewReconnector cfg True) = Some (ended, r, calls)"
  obtains res r' where "start_loop msin fuel env 0
      ((NewReconnector cfg True)\<lparr>r_isRunning := True, r_attempts := 0, r_lastBackoff := 0, r_stopCh := ChOpen\<rparr>) = Some (res, r', calls)"
    "ended = start_result.Returned res"
proof -
  obtain res r' where l: "start_loop msin fuel env 0
      ((NewReconnector cfg True)\<lparr>r_isRunning := True, r_attempts := 0, r_lastBackoff := 0, r_stopCh := ChOpen\<rparr>) = Some (res, r', calls)"
    using assms by (auto simp: Start_def Let_def resetLocked_def NewReconnector_def split: option.splits if_splits simp del: start_loop.simps)
  moreover have "r_stoppedCh r' = ChOpen" using start_loop_frame [OF l] by (simp add: same_frame_def NewReconnector_def)
  ultimately have "ended = start_result.Returned res"
    using assms by (auto simp: Start_def Let_def resetLocked_def NewReconnector_def split: option.splits if_splits simp del: start_loop.simps)
  with l show thesis by (rule that)
qed

lemma stored_none: "\<forall>j < n. \<not> creates (create j) \<Longrightarrow> stored_connector old create n = old"
  by (induction n) (auto simp: creates_def split: created.splits)

text \<open>C4: When the reconnection ends without an error, \<open>connector\<close> holds the connector of the first cycle that
  succeeded, so \<open>main\<close> never goes on with a nil one; when it ends with an error, \<open>connector\<close> is what it
  was; and the reconnector, new for each reconnection, never closes its channel twice.\<close>

theorem reconnection_delivers_connector:
  assumes "reconnect msin fuel create waits polls cfg old = Some (ReconnectEnds ended conn)"
  shows "(ended = start_result.Returned None \<longrightarrow> (\<exists>k c. conn = Some c \<and> create k = Creates c \<and> (\<forall>j<k. \<not> creates (create j))))
     \<and> (ended \<noteq> start_result.Returned None \<longrightarrow> conn = old) \<and> ended \<noteq> PanicCloseOfClosedChannel"
proof -
  obtain r calls where st: "Start msin fuel (reconnect_rounds create waits polls) (NewReconnector cfg True) = Some (ended, r, calls)"
    and conn: "conn = stored_connector old create (cycles calls)"
    using assms by (auto simp: reconnect_def split: option.splits if_splits)
  obtain res r' where l: "start_loop msin fuel (reconnect_rounds create waits polls) 0
      ((NewReconnector cfg True)\<lparr>r_isRunning := True, r_attempts := 0, r_lastBackoff := 0, r_stopCh := ChOpen\<rparr>) = Some (res, r', calls)"
    and ended: "ended = start_result.Returned res"
    by (rule Start_new [OF st])
  note cyc = start_loop_cycles [OF l, unfolded reconnect_rounds_def, simplified]
  show ?thesis
  proof (cases "res = None")
    case True
    with cyc obtain k where k: "cycles calls = Suc k" "creates (create k)" "\<forall>j<k. \<not> creates (create j)"
      by (cases "cycles calls") auto
    then obtain c where "create k = Creates c" by (auto simp: creates_def split: created.splits)
    with True k conn ended show ?thesis by auto
  next
    case False
    with cyc have "conn = old" unfolding conn by (intro stored_none) auto
    with False ended show ?thesis by auto
  qed
qed

lemma reconnect_recovers:
  assumes "\<And>j. j < n \<Longrightarrow> \<not> creates (create j) \<and> create j \<noteq> CreatePanics" and "create n = Creates c"
    and "\<And>j. waits j = WaitElapsed" and "\<And>j. polls j = PollNothing"
    and "2 * int n < 2 ^ 62" and "rc_MaxRetries cfg \<le> 0 \<or> 2 * int n < rc_MaxRetries cfg"
  shows "reconnect msin (Suc n) create waits polls cfg old = Some (ReconnectEnds (start_result.Returned None) (Some c))"
proof -
  let ?env = "reconnect_rounds create waits polls" and ?r = "NewReconnector cfg True"
  let ?busy = "?r\<lparr>r_isRunning := True, r_attempts := 0, r_lastBackoff := 0, r_stopCh := ChOpen\<rparr>"
  have cfg: "rc_MaxRetries (r_cfg ?busy) \<le> 0 \<or> 2 * int n < rc_MaxRetries (r_cfg ?busy)"
    using assms(6) by (auto simp: NewReconnector_def ReconnectionConfig_SetDefaults_def Let_def)
  have "\<exists>r'. start_loop msin (Suc n) ?env 0 ?busy = Some (None, r', concat (replicate (Suc n) (callbacks ?busy)))
      \<and> r_attempts r' = 0 \<and> r_lastBackoff r' = 0"
  proof (rule start_loop_recovers)
    show "round_fails (?env (0 + i))" if "i < n" for i
      using assms(1) [OF that] assms(3,4) by (simp add: reconnect_rounds_def round_fails_def)
    show "round_succeeds (?env (0 + n))"
      using assms(2,3) by (simp add: reconnect_rounds_def round_succeeds_def creates_def)
    show "rc_MaxRetries (r_cfg ?busy) \<le> 0 \<or> r_attempts ?busy + 2 * int n < rc_MaxRetries (r_cfg ?busy)" using cfg by simp
    show "r_attempts ?busy + 2 * int n < 2 ^ 62" using assms(5) by simp
    show "0 \<le> r_attempts ?busy" by simp
    show "n < Suc n" by simp
  qed
  then obtain r' where l: "start_loop msin (Suc n) ?env 0 ?busy = Some (None, r', concat (replicate (Suc n) (callbacks ?busy)))"
    by blast
  have idle: "r_isRunning (NewReconnector cfg True) = False" by (simp add: NewReconnector_def)
  have open_ch: "r_stoppedCh r' = ChOpen" using start_loop_frame [OF l] by (simp add: same_frame_def NewReconnector_def)
  have "cycles (concat (replicate m (callbacks ?busy))) = m" for m
    by (induction m) (simp_all add: callbacks_def NewReconnector_def)
  then have n: "cycles (concat (replicate (Suc n) (callbacks ?busy))) = Suc n" by blast
  have st: "\<exists>r''. Start msin (Suc n) ?env ?r = Some (start_result.Returned None, r'', concat (replicate (Suc n) (callbacks ?busy)))"
    using open_ch idle by (simp add: Start_def l Let_def del: start_loop.simps replicate.simps)
  have "CreatePanics \<notin> create ` {..<Suc n}" using assms(1,2) by (fastforce simp: less_Suc_eq)
  with st n assms(2) show ?thesis by (auto simp: reconnect_def simp del: replicate.simps)
qed

text \<open>C5: If some cycle creates a connector before the limit on attempts is reached, with no signal and no
  panic before it, the reconnection ends after exactly that many cycles, without an error and with
  that connector.\<close>

theorem reconnection_recovers:
  assumes "\<And>j. j < n \<Longrightarrow> \<not> creates (create j) \<and> create j \<noteq> CreatePanics" and "create n = Creates c"
    and "\<And>j. waits j = WaitElapsed" and "\<And>j. polls j = PollNothing"
    and "2 * int n < 2 ^ 62" and "rc_MaxRetries cfg \<le> 0 \<or> 2 * int n < rc_MaxRetries cfg"
  shows "reconnect msin (Suc n) create waits polls cfg old = Some (ReconnectEnds (start_result.Returned None) (Some c))"
  by (rule reconnect_recovers) (use assms in auto)

definition example_cycles :: "nat \<Rightarrow> created" where
  "example_cycles k = example_create [if k = 0 then ''b'' else ''c'']"

lemma example_cycle_0: "example_cycles 0 = CreateFails (AllURLsFailed 1 (Some FetchError)) []"
  by (simp add: example_cycles_def example_create_def createConnector_def FetchRawLinks_def two_urls_def)

lemma example_cycle_1: "\<exists>c. example_cycles (Suc 0) = Creates c"
  using select_link fetch_link
  by (auto simp: example_cycles_def example_create_def createConnector_def ConnectWithFallback_def split: prod.split)

theorem reconnection_recovers_witness:
  "\<exists>c. example_cycles 1 = Creates c
     \<and> reconnect sin 2 example_cycles (\<lambda>_. WaitElapsed) (\<lambda>_. PollNothing) cfg3 None = Some (ReconnectEnds (start_result.Returned None) (Some c))"
proof -
  obtain c where c: "example_cycles (Suc 0) = Creates c" using example_cycle_1 by blast
  have "reconnect sin (Suc (Suc 0)) example_cycles (\<lambda>_. WaitElapsed) (\<lambda>_. PollNothing) cfg3 None
      = Some (ReconnectEnds (start_result.Returned None) (Some c))"
    by (rule reconnection_recovers) (simp_all add: c example_cycle_0 creates_def cfg3_def)
  with c show ?thesis by (simp add: numeral_2_eq_2)
qed

theorem reconnection_delivers_connector_witness:
  "\<exists>conn. reconnect sin 2 example_cycles (\<lambda>_. WaitElapsed) (\<lambda>_. PollNothing) cfg3 None = Some (ReconnectEnds (start_result.Returned None) conn)
     \<and> conn \<noteq> None"
proof -
  obtain c where c: "example_cycles (Suc 0) = Creates c" using example_cycle_1 by blast
  have "reconnect sin (Suc (Suc 0)) example_cycles (\<lambda>_. WaitElapsed) (\<lambda>_. PollNothing) cfg3 None
      = Some (ReconnectEnds (start_result.Returned None) (Some c))"
    by (rule reconnect_recovers) (simp_all add: c example_cycle_0 creates_def cfg3_def)
  from reconnection_delivers_connector [OF this] this show ?thesis by (simp add: numeral_2_eq_2)
qed

end
