(* ===== verification/Spec2Isabelle.thy ===== *)
theory Spec2Isabelle
  imports Reconnector Socks5Lifecycle ServerSelector HealthChecker SplitTunnel Config VPNConnector ClientResources MainLoop Composition Reconnection
begin

text \<open>
  Verification development for \<open>tun_with_lits\<close>, a VPN client that fetches lists of server links,
  ranks the servers, tunnels the host's traffic through an XRay instance behind a TUN interface, and
  reconnects when the connection fails.  This theory collects the others.

  \<^bold>\<open>Parts and interaction.\<close>  \<open>main.go\<close> reads the command line and the configuration file (\<open>CLI\<close>,
  \<open>Config\<close>) and makes a client (\<open>ClientState\<close>).  In direct mode it connects the client to one link
  until a signal arrives.  In raw mode it fetches a list of links (\<open>LinkParser\<close>), probes and ranks the
  servers (\<open>ServerSelector\<close>) and hands them to a connector (\<open>VPNConnector\<close>), which connects the client
  to the first that works and starts a health checker (\<open>HealthChecker\<close>) that triggers the failover;
  when the servers are exhausted, \<open>main\<close> runs a reconnector (\<open>Reconnector\<close>) over the whole cycle
  (\<open>MainLoop\<close>).  The client arms a kill switch of iptables rules while it is disconnected
  (\<open>KillSwitch\<close>), resets the connections of a dead server (\<open>ConnectionKiller\<close>), routes through the
  interface (\<open>Tunnel\<close>), counts traffic (\<open>Traffic\<close>), and offers a SOCKS5 server (\<open>Socks5\<close>).

  \<^bold>\<open>Theories and sources\<close> (under \<open>src/\<close>).
  \<^item> \<open>Prelude\<close>, \<open>Go_Strings\<close>, \<open>Go_Float\<close>, \<open>Go_Time\<close>, \<open>Go_Scan\<close>, \<open>Go_Base64\<close>, \<open>Go_JSON\<close>, \<open>Go_Net\<close>,
    \<open>Go_URL\<close>: what the program uses of Go and its standard library: 64-bit integers with wrap-around,
    binary64 arithmetic, strings as octets, \<open>time.ParseDuration\<close>, \<open>fmt.Sscanf\<close>, \<open>encoding/base64\<close>,
    \<open>encoding/json\<close>, \<open>net\<close> and \<open>net/url\<close>.
  \<^item> \<open>Reconnector\<close>: \<open>pkg/client/reconnector.go\<close>.  \<open>Config\<close>: \<open>pkg/client/config.go\<close>.  \<open>SplitTunnel\<close>: the
    three \<open>split_tunnel_*.go\<close>.  \<open>LinkParser\<close>: \<open>link_parser.go\<close>.  \<open>ServerSelector\<close>:
    \<open>server_selector.go\<close>.  \<open>HealthChecker\<close>: \<open>health_checker.go\<close>.  \<open>VPNConnector\<close>: \<open>vpn_connector.go\<close>.
  \<^item> \<open>Socks5\<close>: the protocol of \<open>pkg/socks5/server.go\<close>, a connection being its unread octets, what has
    been written to it and its deadline; \<open>Socks5Lifecycle\<close>: its goroutines, wait group and \<open>Stop\<close>.
  \<^item> \<open>Host\<close>: the operating system and the third-party libraries as the client meets them.  Each thing
    done to them is an action; the history of actions is part of the client's state, and the answers
    come from an environment that may depend on the whole history.  Methods are computations of the
    state monad with rules for weakest preconditions and frames.
  \<^item> \<open>ClientState\<close>, \<open>Traffic\<close>, \<open>KillSwitch\<close>, \<open>Tunnel\<close>, \<open>ClientLifecycle\<close>: \<open>pkg/client/client.go\<close> and
    \<open>metrics.go\<close> method by method; \<open>ConnectionKiller\<close>: \<open>connection_killer.go\<close>.  \<open>ClientInvariant\<close> and
    \<open>ClientResources\<close> hold their theorems: the client's life as a step relation.
  \<^item> \<open>CLI\<close> and \<open>MainLoop\<close>: \<open>main.go\<close>; the run loop of raw mode is a transition system whose goroutines
    compete for the one-element signal channel.
  \<^item> \<open>Composition\<close>: the calls the connector records, carried out on the client.  \<open>Reconnection\<close>: the
    reconnector with \<open>createConnector\<close> as its callback.

  \<^bold>\<open>What the lemmas show.\<close>  Of the client: the invariant of the connected state and the absence of
  panics; that with the kill switch enabled it is at every moment connected or marked blocked; what
  the rules deny and allow, that they are undone, and where they fail; what each failing path of
  \<open>Connect\<close> has done and undone.  Of the SOCKS5 server: no destination is contacted without the
  configured credentials, every failure is answered once, payload is relayed unchanged, and \<open>Stop\<close>
  returns with nothing left running.  Of the parsers: round trips with the formats they read.  Of
  selection and failover: the order of the servers and of the calls on the client, and, with these
  carried out on the client's model, that success means a connected client and that a failover never
  leaves it unprotected.  Of the
  reconnector: bounds on the backoff and the number of attempts, termination, recovery.  Of the main
  program: the settings it goes on with, which source of a setting wins, which URL decides, how
  often a signal can go astray, which connector is stopped, and which one a reconnection
  delivers.  Several theorems state behaviour that contradicts the documentation or the evident
  intention.

  \<^bold>\<open>Interfaces.\<close>  \<open>frame\<close> (reading back a framed field from a stream) is interpreted by the raw and the
  length-prefixed fields of the SOCKS5 protocol, \<open>ranking\<close> (a sorting routine for a strict weak order)
  by insertion sort, \<open>rounding\<close> (a floating-point format) by binary64, and \<open>netfilter\<close> with its extension
  \<open>permissive\<close> (what iptables commands do to the tables) by a reference host; \<open>filter_tables\<close>, the
  part that holds also when commands fail, by a host that refuses them.

  \<^bold>\<open>Fuel and bounds.\<close>  \<open>start_loop\<close> of the reconnector takes a number of rounds; \<open>MaxRetries + 1\<close> are
  enough with a limit, and without one it may run for ever, which is then the value \<open>None\<close> for every
  number.  The JSON reader is given twice the length of the text, the IPv6 reader eight groups, the
  wait for the proxy the twenty attempts of the source.  All other loops are structural or have a
  measure.

  \<^bold>\<open>Not modelled.\<close>  Log lines and the text of error messages; YAML decoding, HTTP, sockets, the route,
  TUN, pipe and XRay libraries, \<open>ip\<close>, \<open>ss\<close>, \<open>conntrack\<close> and iptables, which are parameters or actions;
  mutexes inside a component, whose methods are taken as atomic; the Prometheus registry beyond the
  values set; the duration of waits, which appears as the outcome a wait can have; the text forms
  \<open>LogConnectionStatus\<close> and \<open>GetConnectionReport\<close>; generated mocks, the adapter to \<open>log/slog\<close> and the
  tests.  In binary64, overflow to infinity and subnormal numbers are left out of the arithmetic
  (the values computed stay away from them) but not of \<open>Go_Scan\<close>, which reads infinities and NaN.
\<close>

end
